(* ===== verification/CSI_Prelude.thy ===== *)
theory CSI_Prelude
  imports Main
begin

text \<open>
  The shared base of the development: computations that thread a state and may fail (Go
  functions that return \<open>(value, error)\<close> and talk to the outside world), worlds that
  remember the trace of the effects a computation had, Go's map lookup, and the lemmas
  and collections the component theories share.
\<close>

section \<open>Collections\<close>

named_theorems io_defs \<open>definitions of the computation combinators\<close>
named_theorems emits_intros \<open>introduction rules for trace properties\<close>

section \<open>Computations\<close>

text \<open>
  A Go function that may fail and may have effects is a function from a state to a result
  and the next state; the error is the left injection. \<open>bindE\<close> is
  \<open>x, err := m(); if err != nil { return err }; f(x)\<close>.
\<close>

type_synonym ('s, 'e, 'a) io = "'s \<Rightarrow> ('e + 'a) \<times> 's"

definition retE :: "'a \<Rightarrow> ('s, 'e, 'a) io" where
  [io_defs]: "retE x = (\<lambda>s. (Inr x, s))"

definition throwE :: "'e \<Rightarrow> ('s, 'e, 'a) io" where
  [io_defs]: "throwE e = (\<lambda>s. (Inl e, s))"

definition bindE :: "('s, 'e, 'a) io \<Rightarrow> ('a \<Rightarrow> ('s, 'e, 'b) io) \<Rightarrow> ('s, 'e, 'b) io" where
  [io_defs]: "bindE m f = (\<lambda>s. case m s of (Inl e, s') \<Rightarrow> (Inl e, s') | (Inr x, s') \<Rightarrow> f x s')"

text \<open>\<open>x, err := m()\<close> where the code inspects both cases itself.\<close>

definition tryE :: "('s, 'e, 'a) io \<Rightarrow> ('e + 'a \<Rightarrow> ('s, 'f, 'b) io) \<Rightarrow> ('s, 'f, 'b) io" where
  [io_defs]: "tryE m f = (\<lambda>s. case m s of (r, s') \<Rightarrow> f r s')"

definition liftE :: "'e + 'a \<Rightarrow> ('s, 'e, 'a) io" where
  [io_defs]: "liftE r = (\<lambda>s. (r, s))"

lemma retE_apply [simp]: "retE x s = (Inr x, s)"
  by (simp add: retE_def)

lemma throwE_apply [simp]: "throwE e s = (Inl e, s)"
  by (simp add: throwE_def)

lemma liftE_apply [simp]: "liftE r s = (r, s)"
  by (simp add: liftE_def)

lemma bindE_Inl [simp]: "m s = (Inl e, s') \<Longrightarrow> bindE m f s = (Inl e, s')"
  by (simp add: bindE_def)

lemma bindE_Inr [simp]: "m s = (Inr x, s') \<Longrightarrow> bindE m f s = f x s'"
  by (simp add: bindE_def)

lemma tryE_apply [simp]: "m s = (r, s') \<Longrightarrow> tryE m f s = f r s'"
  by (simp add: tryE_def)

lemma bindE_retE [simp]: "bindE (retE x) f = f x"
  by (simp add: fun_eq_iff)

lemma bindE_throwE [simp]: "bindE (throwE e) f = throwE e"
  by (simp add: fun_eq_iff)

text \<open>The simplifier eta-contracts the three equations above; these are their partners.\<close>

lemma bindE_Pair [simp]:
  "bindE (Pair (Inr x)) f = f x"
  "bindE (Pair (Inl e)) f = Pair (Inl e)"
  by (simp_all add: fun_eq_iff)

lemma bindE_eq:
  "bindE m f s = (case m s of (Inl e, s') \<Rightarrow> (Inl e, s') | (Inr x, s') \<Rightarrow> f x s')"
  by (simp add: bindE_def)

lemma tryE_eq: "tryE m f s = (case m s of (r, s') \<Rightarrow> f r s')"
  by (simp add: tryE_def)

lemma bindE_Inr_cases:
  assumes "bindE m f s = (Inr y, s')"
  obtains x t where "m s = (Inr x, t)" and "f x t = (Inr y, s')"
  using assms by (auto simp: bindE_def split: prod.splits sum.splits)

lemma bindE_cases:
  assumes "bindE m f s = (r, s')"
  obtains (fails) e where "m s = (Inl e, s')" and "r = Inl e"
  | (goes_on) x t where "m s = (Inr x, t)" and "f x t = (r, s')"
  using assms by (auto simp: bindE_def split: prod.splits sum.splits)

lemma tryE_cases:
  assumes "tryE m f s = (r, s')"
  obtains x t where "m s = (x, t)" and "f x t = (r, s')"
  using assms by (auto simp: tryE_def split: prod.splits)

section \<open>Worlds and traces\<close>

text \<open>
  Everything outside the program (the Morpheus API, the Kubernetes API, the node's kernel and
  its commands) is a state \<open>'w\<close> the model knows nothing about: \<open>ext\<close>. The world also keeps
  the trace of the calls that were made to it, so that properties can speak about what was
  sent, and in which order, whatever the other side answers.
\<close>

record ('w, 'e) world =
  ext :: 'w
  trace :: "'e list"

definition log_event :: "'e \<Rightarrow> ('w, 'e) world \<Rightarrow> ('w, 'e) world" where
  "log_event e s = s\<lparr>trace := trace s @ [e]\<rparr>"

lemma trace_log_event [simp]: "trace (log_event e s) = trace s @ [e]"
  by (simp add: log_event_def)

lemma ext_log_event [simp]: "ext (log_event e s) = ext s"
  by (simp add: log_event_def)

text \<open>\<open>emits P m\<close>: every event a run of \<open>m\<close> adds to the trace satisfies \<open>P\<close>.\<close>

definition emits :: "('ev \<Rightarrow> bool) \<Rightarrow> (('w, 'ev) world, 'e, 'a) io \<Rightarrow> bool" where
  "emits P m \<longleftrightarrow>
     (\<forall>s. \<exists>es. trace (snd (m s)) = trace s @ es \<and> (\<forall>ev \<in> set es. P ev))"

lemma emitsD:
  assumes "emits P m" and "m s = (r, s')"
  obtains es where "trace s' = trace s @ es" and "\<forall>ev \<in> set es. P ev"
  using assms unfolding emits_def by (metis snd_conv)

lemma emitsI:
  assumes "\<And>s r s'. m s = (r, s') \<Longrightarrow> \<exists>es. trace s' = trace s @ es \<and> (\<forall>ev \<in> set es. P ev)"
  shows "emits P m"
  unfolding emits_def by (metis assms prod.collapse)

lemma emits_retE [emits_intros, simp]: "emits P (retE x)"
  by (simp add: emits_def)

lemma emits_throwE [emits_intros, simp]: "emits P (throwE e)"
  by (simp add: emits_def)

lemma emits_liftE [emits_intros, simp]: "emits P (liftE r)"
  by (simp add: emits_def)

lemma emits_Pair [emits_intros, simp]: "emits P (Pair r)"
  by (simp add: emits_def)

lemma emits_bindE [emits_intros]:
  assumes m: "emits P m" and f: "\<And>x. emits P (f x)"
  shows "emits P (bindE m f)"
proof (rule emitsI)
  fix s r s'
  assume "bindE m f s = (r, s')"
  then show "\<exists>es. trace s' = trace s @ es \<and> (\<forall>ev \<in> set es. P ev)"
  proof (cases rule: bindE_cases)
    case (fails e)
    then show ?thesis using m by (metis emitsD)
  next
    case (goes_on x t)
    from m goes_on(1) obtain as where as: "trace t = trace s @ as" "\<forall>ev \<in> set as. P ev"
      by (rule emitsD)
    from f goes_on(2) obtain bs where bs: "trace s' = trace t @ bs" "\<forall>ev \<in> set bs. P ev"
      by (rule emitsD)
    from as bs have "trace s' = trace s @ (as @ bs)" and "\<forall>ev \<in> set (as @ bs). P ev"
      by auto
    then show ?thesis by blast
  qed
qed

lemma emits_tryE [emits_intros]:
  assumes m: "emits P m" and f: "\<And>x. emits P (f x)"
  shows "emits P (tryE m f)"
proof (rule emitsI)
  fix s r s'
  assume "tryE m f s = (r, s')"
  then obtain x t where xt: "m s = (x, t)" "f x t = (r, s')"
    by (rule tryE_cases)
  from m xt(1) obtain as where as: "trace t = trace s @ as" "\<forall>ev \<in> set as. P ev"
    by (rule emitsD)
  from f xt(2) obtain bs where bs: "trace s' = trace t @ bs" "\<forall>ev \<in> set bs. P ev"
    by (rule emitsD)
  from as bs have "trace s' = trace s @ (as @ bs)" and "\<forall>ev \<in> set (as @ bs). P ev"
    by auto
  then show "\<exists>es. trace s' = trace s @ es \<and> (\<forall>ev \<in> set es. P ev)" by blast
qed

lemma emits_if [emits_intros]:
  "(b \<Longrightarrow> emits P m) \<Longrightarrow> (\<not> b \<Longrightarrow> emits P n) \<Longrightarrow> emits P (if b then m else n)"
  by simp

lemma emits_weaken: "emits P m \<Longrightarrow> (\<And>ev. P ev \<Longrightarrow> Q ev) \<Longrightarrow> emits Q m"
  unfolding emits_def by blast

section \<open>Go maps\<close>

text \<open>
  A Go \<open>map[string]string\<close>; reading an absent key gives the zero value, the empty string. A nil
  map reads like an empty one, so both are \<open>Map.empty\<close>.
\<close>

type_synonym string_map = "string \<rightharpoonup> string"

definition map_get :: "string_map \<Rightarrow> string \<Rightarrow> string" where
  "map_get m k = (case m k of None \<Rightarrow> [] | Some v \<Rightarrow> v)"

lemma map_get_empty [simp]: "map_get Map.empty k = []"
  by (simp add: map_get_def)

lemma map_get_update [simp]: "map_get (m(k \<mapsto> v)) k' = (if k' = k then v else map_get m k')"
  by (simp add: map_get_def)

section \<open>Lists and sums\<close>

lemma find_SomeD: "find P xs = Some x \<Longrightarrow> x \<in> set xs \<and> P x"
  by (induction xs) (auto split: if_splits)

lemma find_None_iff_all: "find P xs = None \<longleftrightarrow> (\<forall>x \<in> set xs. \<not> P x)"
  by (induction xs) auto

lemma find_Some_split:
  "find P xs = Some x \<Longrightarrow> \<exists>ys zs. xs = ys @ x # zs \<and> P x \<and> (\<forall>y \<in> set ys. \<not> P y)"
proof (induction xs)
  case Nil
  then show ?case by simp
next
  case (Cons a xs)
  show ?case
  proof (cases "P a")
    case True
    with Cons.prems show ?thesis by (intro exI [of _ "[]"] exI [of _ xs]) simp
  next
    case False
    with Cons obtain ys zs where "xs = ys @ x # zs" "P x" "\<forall>y \<in> set ys. \<not> P y"
      by auto
    with False show ?thesis by (intro exI [of _ "a # ys"] exI [of _ zs]) auto
  qed
qed

end
