(* ===== verification/Go_Strings.thy ===== *)
theory Go_Strings
  imports CSI_Prelude "HOL-Library.Sublist"
begin

text \<open>
  The functions of Go's \<open>strings\<close> package the driver uses. A Go string is a sequence of
  bytes, and so is a HOL \<open>string\<close>: \<open>TrimSpace\<close> therefore recognises the UTF-8
  encodings of the code points that Unicode calls white space.
\<close>

section \<open>White space\<close>

definition ascii_spaces :: "char list" where
  "ascii_spaces = [CHR 0x20, CHR 0x09, CHR 0x0A, CHR 0x0B, CHR 0x0C, CHR 0x0D]"

text \<open>
  U+0085, U+00A0, U+1680, U+2000 to U+200A, U+2028, U+2029, U+202F, U+205F and U+3000
  in UTF-8.
\<close>

definition wide_spaces :: "string list" where
  "wide_spaces =
     [[CHR 0xC2, CHR 0x85], [CHR 0xC2, CHR 0xA0], [CHR 0xE1, CHR 0x9A, CHR 0x80],
      [CHR 0xE2, CHR 0x80, CHR 0x80], [CHR 0xE2, CHR 0x80, CHR 0x81],
      [CHR 0xE2, CHR 0x80, CHR 0x82], [CHR 0xE2, CHR 0x80, CHR 0x83],
      [CHR 0xE2, CHR 0x80, CHR 0x84], [CHR 0xE2, CHR 0x80, CHR 0x85],
      [CHR 0xE2, CHR 0x80, CHR 0x86], [CHR 0xE2, CHR 0x80, CHR 0x87],
      [CHR 0xE2, CHR 0x80, CHR 0x88], [CHR 0xE2, CHR 0x80, CHR 0x89],
      [CHR 0xE2, CHR 0x80, CHR 0x8A], [CHR 0xE2, CHR 0x80, CHR 0xA8],
      [CHR 0xE2, CHR 0x80, CHR 0xA9], [CHR 0xE2, CHR 0x80, CHR 0xAF],
      [CHR 0xE2, CHR 0x81, CHR 0x9F], [CHR 0xE3, CHR 0x80, CHR 0x80]]"

definition space_encodings :: "string list" where
  "space_encodings = map (\<lambda>c. [c]) ascii_spaces @ wide_spaces"

text \<open>
  Dropping the encodings in \<open>es\<close> from the front of a string for as long as one is there;
  \<open>TrimSpace\<close> does so at both ends (at the right end, on the reversed string).
\<close>

function strip_front :: "string list \<Rightarrow> string \<Rightarrow> string" where
  "strip_front es s =
     (case find (\<lambda>e. e \<noteq> [] \<and> prefix e s) es of
        None \<Rightarrow> s
      | Some e \<Rightarrow> strip_front es (drop (length e) s))"
  by pat_completeness auto
termination
proof (relation "measure (\<lambda>(es, s). length s)")
  fix es :: "string list" and s e :: string
  assume "find (\<lambda>e. e \<noteq> [] \<and> prefix e s) es = Some e"
  then have "e \<noteq> [] \<and> prefix e s" by (auto dest: find_SomeD)
  then show "((es, drop (length e) s), es, s) \<in> measure (\<lambda>(es, s). length s)"
    by (auto simp: prefix_def)
qed simp

declare strip_front.simps [simp del]

definition TrimSpace :: "string \<Rightarrow> string" where
  "TrimSpace s =
     rev (strip_front (map rev space_encodings) (rev (strip_front space_encodings s)))"

text \<open>A string that starts (ends) with no white space, and one that does neither.\<close>

definition front_clean :: "string list \<Rightarrow> string \<Rightarrow> bool" where
  "front_clean es s \<longleftrightarrow> find (\<lambda>e. e \<noteq> [] \<and> prefix e s) es = None"

definition trimmed :: "string \<Rightarrow> bool" where
  "trimmed s \<longleftrightarrow> TrimSpace s = s"

lemma strip_front_clean [simp]: "front_clean es s \<Longrightarrow> strip_front es s = s"
  by (subst strip_front.simps) (simp add: front_clean_def)

lemma front_clean_strip_front: "front_clean es (strip_front es s)"
proof (induction es s rule: strip_front.induct)
  case (1 es s)
  then show ?case
    by (subst strip_front.simps) (auto simp: front_clean_def split: option.splits)
qed

lemma strip_front_suffix: "suffix (strip_front es s) s"
proof (induction es s rule: strip_front.induct)
  case (1 es s)
  show ?case
  proof (cases "find (\<lambda>e. e \<noteq> [] \<and> prefix e s) es")
    case None
    then show ?thesis by (subst strip_front.simps) simp
  next
    case (Some e)
    then have "suffix (strip_front es (drop (length e) s)) (drop (length e) s)"
      by (rule "1.IH")
    then have "suffix (strip_front es (drop (length e) s)) s"
      using suffix_drop suffix_order.trans by blast
    with Some show ?thesis by (subst strip_front.simps) simp
  qed
qed

lemma front_clean_prefix: "front_clean es s \<Longrightarrow> prefix t s \<Longrightarrow> front_clean es t"
  unfolding front_clean_def find_None_iff_all using prefix_order.trans by blast

lemma TrimSpace_front_clean: "front_clean space_encodings (TrimSpace s)"
proof -
  let ?l = "strip_front space_encodings s"
  have "suffix (strip_front (map rev space_encodings) (rev ?l)) (rev ?l)"
    by (rule strip_front_suffix)
  then have "prefix (TrimSpace s) ?l"
    by (simp add: TrimSpace_def suffix_to_prefix)
  then show ?thesis
    using front_clean_prefix front_clean_strip_front by blast
qed

lemma TrimSpace_back_clean: "front_clean (map rev space_encodings) (rev (TrimSpace s))"
  by (simp add: TrimSpace_def front_clean_strip_front)

lemma trimmedI:
  "front_clean space_encodings s \<Longrightarrow> front_clean (map rev space_encodings) (rev s) \<Longrightarrow> trimmed s"
  by (simp add: trimmed_def TrimSpace_def)

lemma trimmed_TrimSpace [simp]: "trimmed (TrimSpace s)"
  by (intro trimmedI TrimSpace_front_clean TrimSpace_back_clean)

lemma TrimSpace_idem [simp]: "TrimSpace (TrimSpace s) = TrimSpace s"
  using trimmed_TrimSpace [of s] by (simp add: trimmed_def)

lemma TrimSpace_trimmed: "trimmed s \<Longrightarrow> TrimSpace s = s"
  by (simp add: trimmed_def)

lemma TrimSpace_Nil [simp]: "TrimSpace [] = []"
proof -
  have "front_clean es []" for es :: "string list"
    by (auto simp: front_clean_def find_None_iff_all)
  then show ?thesis by (simp add: TrimSpace_def)
qed

lemma set_TrimSpace: "set (TrimSpace s) \<subseteq> set s"
  using set_mono_suffix [OF strip_front_suffix [of space_encodings s]]
    set_mono_suffix [OF strip_front_suffix
      [of "map rev space_encodings" "rev (strip_front space_encodings s)"]]
  by (auto simp: TrimSpace_def)

text \<open>
  Most of the strings the driver makes itself are of this kind: no byte of theirs occurs in
  an encoding of white space, so there is nothing to trim.
\<close>

definition space_bytes :: "char set" where
  "space_bytes = (\<Union>e \<in> set space_encodings. set e)"

lemma trimmed_no_space_bytes:
  assumes "set s \<inter> space_bytes = {}"
  shows "trimmed s"
proof (rule trimmedI)
  have no: "\<not> (e \<noteq> [] \<and> prefix e t)" if "set e \<subseteq> space_bytes" "set t = set s" for e t
  proof
    assume "e \<noteq> [] \<and> prefix e t"
    then have "hd e \<in> set e" and "set e \<subseteq> set t"
      by (auto dest: set_mono_prefix)
    with that assms show False by blast
  qed
  show "front_clean space_encodings s"
    using no by (auto simp: front_clean_def find_None_iff_all space_bytes_def)
  show "front_clean (map rev space_encodings) (rev s)"
    unfolding front_clean_def find_None_iff_all
  proof
    fix e
    assume "e \<in> set (map rev space_encodings)"
    then have "set e \<subseteq> space_bytes" by (auto simp: space_bytes_def)
    then show "\<not> (e \<noteq> [] \<and> prefix e (rev s))" by (rule no) simp
  qed
qed


section \<open>Splitting, prefixes and suffixes\<close>

text \<open>\<open>strings.Split(s, sep)\<close> for a separator of one byte: never the empty list.\<close>

fun Split_on :: "char \<Rightarrow> string \<Rightarrow> string list" where
  "Split_on c [] = [[]]"
| "Split_on c (x # xs) =
     (if x = c then [] # Split_on c xs
      else case Split_on c xs of [] \<Rightarrow> [[x]] | p # ps \<Rightarrow> (x # p) # ps)"

lemma Split_on_not_Nil [simp]: "Split_on c s \<noteq> []"
  by (cases s) (auto split: list.splits)

lemma Split_on_absent [simp]: "c \<notin> set s \<Longrightarrow> Split_on c s = [s]"
  by (induction s) auto

lemma Split_on_append [simp]: "c \<notin> set s \<Longrightarrow> Split_on c (s @ c # t) = s # Split_on c t"
  by (induction s) auto

lemma length_Split_on: "length (Split_on c s) = Suc (count_list s c)"
  by (induction s) (auto split: list.splits)

lemma Split_on_two:
  assumes "Split_on c s = [a, b]"
  shows "s = a @ c # b \<and> c \<notin> set a \<and> c \<notin> set b"
proof -
  have one: "c \<in> set s" using assms by (cases "c \<in> set s") auto
  then obtain u v where uv: "s = u @ c # v" "c \<notin> set u"
    by (auto dest: split_list_first)
  then have "Split_on c v = [b]" and a: "a = u" using assms by auto
  moreover from this have "c \<notin> set v"
    using length_Split_on [of c v] by (simp add: count_list_0_iff)
  ultimately show ?thesis using uv by simp
qed

definition HasPrefix :: "string \<Rightarrow> string \<Rightarrow> bool" where
  "HasPrefix s p = prefix p s"

definition TrimPrefix :: "string \<Rightarrow> string \<Rightarrow> string" where
  "TrimPrefix s p = (if prefix p s then drop (length p) s else s)"

text \<open>\<open>strings.TrimRight(s, "/")\<close>.\<close>

definition TrimRight_slash :: "string \<Rightarrow> string" where
  "TrimRight_slash s = rev (dropWhile (\<lambda>c. c = CHR ''/'') (rev s))"

section \<open>Case folding\<close>

text \<open>
  \<open>strings.EqualFold\<close> on two ASCII strings ignores the case of letters. When one of them has a
  byte outside ASCII the comparison goes through Unicode's folding tables, which are the
  argument \<open>unicode_fold\<close>.
\<close>

definition ascii_upper :: string where
  "ascii_upper = ''ABCDEFGHIJKLMNOPQRSTUVWXYZ''"

definition ascii_lower :: string where
  "ascii_lower = ''abcdefghijklmnopqrstuvwxyz''"

definition ascii_to_lower :: "char \<Rightarrow> char" where
  "ascii_to_lower c = (case map_of (zip ascii_upper ascii_lower) c of None \<Rightarrow> c | Some d \<Rightarrow> d)"

definition is_ascii :: "string \<Rightarrow> bool" where
  "is_ascii s = list_all (\<lambda>c. (of_char c :: nat) < 128) s"

definition EqualFold :: "(string \<Rightarrow> string \<Rightarrow> bool) \<Rightarrow> string \<Rightarrow> string \<Rightarrow> bool" where
  "EqualFold unicode_fold s t =
     (if is_ascii s \<and> is_ascii t then map ascii_to_lower s = map ascii_to_lower t
      else unicode_fold s t)"

section \<open>Lists of strings without blanks and repetitions\<close>

text \<open>
  The loop of \<open>uniqueNonEmpty\<close> of the client: trim each value, skip blanks and values seen
  before. \<open>first_occurrences\<close> is what it means.
\<close>

fun unique_loop :: "string set \<Rightarrow> string list \<Rightarrow> string list" where
  "unique_loop seen [] = []"
| "unique_loop seen (value # values) =
     (let value = TrimSpace value in
      if value = [] then unique_loop seen values
      else if value \<in> seen then unique_loop seen values
      else value # unique_loop (insert value seen) values)"

definition first_occurrences :: "'a list \<Rightarrow> 'a list" where
  "first_occurrences xs = rev (remdups (rev xs))"

definition nonblank :: "string list \<Rightarrow> string list" where
  "nonblank values = filter (\<lambda>v. v \<noteq> []) (map TrimSpace values)"

lemma first_occurrences_Nil [simp]: "first_occurrences [] = []"
  by (simp add: first_occurrences_def)

lemma remdups_snoc: "remdups (xs @ [x]) = remdups (filter (\<lambda>y. y \<noteq> x) xs) @ [x]"
  by (induction xs) auto

lemma first_occurrences_Cons:
  "first_occurrences (x # xs) = x # first_occurrences (filter (\<lambda>y. y \<noteq> x) xs)"
  by (simp add: first_occurrences_def remdups_snoc rev_filter)

lemma unique_loop_eq:
  "unique_loop seen vs = first_occurrences (filter (\<lambda>v. v \<notin> seen) (nonblank vs))"
proof (induction seen vs rule: unique_loop.induct)
  case (1 seen)
  then show ?case by (simp add: nonblank_def)
next
  case (2 seen v vs)
  from 2 show ?case
    by (auto simp: nonblank_def Let_def first_occurrences_Cons conj_ac)
qed

lemma set_first_occurrences [simp]: "set (first_occurrences xs) = set xs"
  by (simp add: first_occurrences_def)

lemma distinct_first_occurrences [simp]: "distinct (first_occurrences xs)"
  by (simp add: first_occurrences_def)

lemma set_nonblank: "set (nonblank vs) = TrimSpace ` set vs - {[]}"
  by (auto simp: nonblank_def)

lemma nonblank_trimmed: "v \<in> set (nonblank vs) \<Longrightarrow> v \<noteq> [] \<and> TrimSpace v = v"
  unfolding nonblank_def by auto

lemma first_occurrences_distinct: "distinct xs \<Longrightarrow> first_occurrences xs = xs"
  by (simp add: first_occurrences_def distinct_remdups_id)


section \<open>Trimmed strings around a separator\<close>

lemma prefix_before_separator:
  assumes "prefix e (a @ c # b)" and "c \<notin> set e"
  shows "prefix e a"
  using assms by (auto simp: prefix_append prefix_Cons)

lemma front_clean_append:
  assumes "front_clean es a" and "\<forall>e \<in> set es. c \<notin> set e"
  shows "front_clean es (a @ c # b)"
  unfolding front_clean_def find_None_iff_all
proof
  fix e
  assume e: "e \<in> set es"
  then have "\<not> (e \<noteq> [] \<and> prefix e a)"
    using assms(1) by (auto simp: front_clean_def find_None_iff_all)
  then show "\<not> (e \<noteq> [] \<and> prefix e (a @ c # b))"
    using e assms(2) prefix_before_separator [of e a c b] by auto
qed

lemma trimmed_append:
  assumes "trimmed a" and "trimmed b" and "c \<notin> space_bytes"
  shows "trimmed (a @ c # b)"
proof (rule trimmedI)
  have c: "\<forall>e \<in> set space_encodings. c \<notin> set e"
    using assms(3) by (auto simp: space_bytes_def)
  have "front_clean space_encodings a"
    using TrimSpace_front_clean [of a] assms(1) by (simp add: trimmed_def)
  then show "front_clean space_encodings (a @ c # b)" using c by (rule front_clean_append)
  have "front_clean (map rev space_encodings) (rev b)"
    using TrimSpace_back_clean [of b] assms(2) by (simp add: trimmed_def)
  then have "front_clean (map rev space_encodings) (rev b @ c # rev a)"
    using c by (intro front_clean_append) auto
  then show "front_clean (map rev space_encodings) (rev (a @ c # b))" by simp
qed

lemma colon_not_space [simp]: "CHR '':'' \<notin> space_bytes"
  by code_simp

lemma slash_not_space [simp]: "CHR ''/'' \<notin> space_bytes"
  by code_simp

end
