(* ===== verification/Go_Strconv.thy ===== *)
theory Go_Strconv
  imports Go_Strings "HOL-Library.Word" "HOL-Library.Signed_Division"
begin

text \<open>
  Go's numbers and their text: \<open>int64\<close> as \<open>64 word\<close>, finite \<open>float64\<close> values, and the functions
  \<open>FormatInt\<close>, \<open>ParseInt\<close> and \<open>ParseBool\<close> of the package \<open>strconv\<close>.
\<close>

section \<open>int64\<close>

text \<open>
  \<open>+\<close>, \<open>-\<close> and \<open>*\<close> wrap around as in Go; comparisons and divisions read the words as two's
  complement, and division truncates.
\<close>

type_synonym int64 = "64 word"

definition quo64 :: "int64 \<Rightarrow> int64 \<Rightarrow> int64" where
  "quo64 a b = word_of_int (sint a sdiv sint b)"

lemma int64_range: "- (2 ^ 63) \<le> sint (n :: int64)" "sint (n :: int64) < 2 ^ 63"
  using sint_greater_eq [of n] sint_less [of n] by simp_all

lemma sint_of_int64: "- (2 ^ 63) \<le> i \<Longrightarrow> i < 2 ^ 63 \<Longrightarrow> sint (word_of_int i :: int64) = i"
  by (simp add: signed_of_int signed_take_bit_int_eq_self)

section \<open>Decimal text\<close>

definition decimal_digits :: string where
  "decimal_digits = ''0123456789''"

fun show_nat :: "nat \<Rightarrow> string" where
  "show_nat n =
     (if n < 10 then [decimal_digits ! n] else show_nat (n div 10) @ [decimal_digits ! (n mod 10)])"

declare show_nat.simps [simp del]

definition FormatInt :: "int64 \<Rightarrow> string" where
  "FormatInt n =
     (if sint n < 0 then CHR ''-'' # show_nat (nat (- sint n)) else show_nat (nat (sint n)))"

definition digit_value :: "char \<Rightarrow> nat option" where
  "digit_value c = map_of (zip decimal_digits [0..<10]) c"

datatype num_error = ErrSyntax | ErrRange

text \<open>
  The loop of \<open>strconv.ParseUint(s, 10, 64)\<close>: an overflow is reported at the digit where it
  happens, with the largest value, even when a later byte is no digit.
\<close>

fun parse_uint_loop :: "nat \<Rightarrow> string \<Rightarrow> nat \<times> num_error option" where
  "parse_uint_loop n [] = (n, None)"
| "parse_uint_loop n (c # s) =
     (case digit_value c of
        None \<Rightarrow> (0, Some ErrSyntax)
      | Some d \<Rightarrow>
          if 2 ^ 64 - 1 < 10 * n + d then (2 ^ 64 - 1, Some ErrRange)
          else parse_uint_loop (10 * n + d) s)"

definition ParseUint :: "string \<Rightarrow> nat \<times> num_error option" where
  "ParseUint s = (if s = [] then (0, Some ErrSyntax) else parse_uint_loop 0 s)"

text \<open>
  \<open>strconv.ParseInt(s, 10, 64)\<close>: a sign, then \<open>ParseUint\<close>; a value outside int64 is an error
  that comes with the nearest int64, a syntax error comes with 0.
\<close>

definition ParseInt :: "string \<Rightarrow> int64 \<times> num_error option" where
  "ParseInt s =
     (if s = [] then (0, Some ErrSyntax)
      else
        let neg = (hd s = CHR ''-'');
            digits = (if hd s = CHR ''+'' \<or> hd s = CHR ''-'' then tl s else s)
        in case ParseUint digits of
             (un, Some ErrSyntax) \<Rightarrow> (0, Some ErrSyntax)
           | (un, _) \<Rightarrow>
               if \<not> neg \<and> 2 ^ 63 \<le> un then (word_of_int (2 ^ 63 - 1), Some ErrRange)
               else if neg \<and> 2 ^ 63 < un then (word_of_int (- (2 ^ 63)), Some ErrRange)
               else (if neg then word_of_int (- int un) else word_of_int (int un), None))"

definition ParseBool :: "string \<Rightarrow> bool" where
  \<comment> \<open>the value; an unknown word is false, with an error every caller drops\<close>
  "ParseBool s = (s \<in> {''1'', ''t'', ''T'', ''true'', ''TRUE'', ''True''})"

section \<open>Printing and reading back\<close>

lemma digit_value_digit: "d < 10 \<Longrightarrow> digit_value (decimal_digits ! d) = Some d"
proof -
  assume "d < 10"
  then have "d \<in> set [0..<10]" by simp
  moreover have "\<forall>d \<in> set [0..<10]. digit_value (decimal_digits ! d) = Some d"
    by code_simp
  ultimately show ?thesis by blast
qed

lemma digit_in: "d < 10 \<Longrightarrow> decimal_digits ! d \<in> set decimal_digits"
  by (rule nth_mem) (simp add: decimal_digits_def)

lemma set_show_nat: "set (show_nat n) \<subseteq> set decimal_digits"
proof (induction n rule: show_nat.induct)
  case (1 n)
  then show ?case
    by (subst show_nat.simps) (auto simp del: nth_mem intro: digit_in)
qed

lemma show_nat_not_Nil [simp]: "show_nat n \<noteq> []"
  by (subst show_nat.simps) simp

lemma parse_uint_loop_append:
  assumes "parse_uint_loop a xs = (b, None)"
  shows "parse_uint_loop a (xs @ ys) = parse_uint_loop b ys"
  using assms by (induction a xs rule: parse_uint_loop.induct) (auto split: option.splits if_splits)

lemma parse_show_nat: "n < 2 ^ 64 \<Longrightarrow> parse_uint_loop 0 (show_nat n) = (n, None)"
proof (induction n rule: show_nat.induct)
  case (1 n)
  show ?case
  proof (cases "n < 10")
    case True
    then show ?thesis by (subst show_nat.simps) (simp add: digit_value_digit)
  next
    case False
    have "n div 10 < 2 ^ 64" using "1.prems" by (rule le_less_trans [OF div_le_dividend])
    with False "1.IH" have "parse_uint_loop 0 (show_nat (n div 10)) = (n div 10, None)" by simp
    with False "1.prems" show ?thesis
      by (subst show_nat.simps) (simp add: parse_uint_loop_append digit_value_digit)
  qed
qed

lemma show_nat_hd: "hd (show_nat n) \<noteq> CHR ''+''" "hd (show_nat n) \<noteq> CHR ''-''"
proof -
  have "hd (show_nat n) \<in> set decimal_digits"
    using set_show_nat [of n] hd_in_set [OF show_nat_not_Nil] by blast
  then show "hd (show_nat n) \<noteq> CHR ''+''" and "hd (show_nat n) \<noteq> CHR ''-''"
    by (auto simp: decimal_digits_def)
qed

lemma ParseUint_show_nat: "n < 2 ^ 64 \<Longrightarrow> ParseUint (show_nat n) = (n, None)"
  by (simp add: ParseUint_def parse_show_nat del: numeral_power_less_of_nat_cancel_iff)

lemma ParseInt_negative:
  "m \<le> 2 ^ 63 \<Longrightarrow> ParseInt (CHR ''-'' # show_nat m) = (word_of_int (- int m), None)"
  using ParseUint_show_nat [of m] by (simp add: ParseInt_def)

lemma ParseInt_nonnegative:
  "m < 2 ^ 63 \<Longrightarrow> ParseInt (show_nat m) = (word_of_int (int m), None)"
  using ParseUint_show_nat [of m] show_nat_hd [of m] by (simp add: ParseInt_def)

lemma ParseInt_FormatInt [simp]: "ParseInt (FormatInt n) = (n, None)"
proof (cases "sint n < 0")
  case True
  then have "nat (- sint n) \<le> 2 ^ 63" using int64_range (1) [of n] by simp
  with True show ?thesis by (simp add: FormatInt_def ParseInt_negative)
next
  case False
  then have "nat (sint n) < 2 ^ 63" using int64_range (2) [of n] by simp
  with False show ?thesis by (simp add: FormatInt_def ParseInt_nonnegative)
qed

lemma set_FormatInt: "set (FormatInt n) \<subseteq> set (CHR ''-'' # decimal_digits)"
  using set_show_nat by (auto simp: FormatInt_def)

lemma FormatInt_not_Nil [simp]: "FormatInt n \<noteq> []"
  by (simp add: FormatInt_def)

lemma trimmed_FormatInt [simp]: "trimmed (FormatInt n)"
proof (rule trimmed_no_space_bytes)
  have "set (CHR ''-'' # decimal_digits) \<inter> space_bytes = {}"
    by code_simp
  then show "set (FormatInt n) \<inter> space_bytes = {}" using set_FormatInt by blast
qed

lemma TrimSpace_FormatInt [simp]: "TrimSpace (FormatInt n) = FormatInt n"
  using trimmed_FormatInt by (rule TrimSpace_trimmed)


section \<open>float64\<close>

text \<open>
  A finite \<open>float64\<close> is \<open>m * 2 ^ e\<close>, written \<open>Float64 m e\<close>. Converting it to \<open>int64\<close> truncates;
  for a value that does not fit, amd64, the architecture the image is built for, gives
  \<open>-2 ^ 63\<close>.
\<close>

datatype float64 = Float64 (significand: int) (exponent: int)

definition trunc_float64 :: "float64 \<Rightarrow> int" where
  "trunc_float64 f =
     (if 0 \<le> exponent f then significand f * 2 ^ nat (exponent f)
      else significand f sdiv 2 ^ nat (- exponent f))"

definition int64_of_float64 :: "float64 \<Rightarrow> int64" where
  "int64_of_float64 f =
     (let i = trunc_float64 f in
      if - (2 ^ 63) \<le> i \<and> i < 2 ^ 63 then word_of_int i else word_of_int (- (2 ^ 63)))"

text \<open>
  Converting \<open>int64\<close> to \<open>float64\<close> rounds to the nearest value with a significand of 53 bits, to
  the even one when two are equally near.
\<close>

fun bit_length :: "nat \<Rightarrow> nat" where
  "bit_length n = (if n = 0 then 0 else Suc (bit_length (n div 2)))"

declare bit_length.simps [simp del]

definition round_half_even :: "int \<Rightarrow> int \<Rightarrow> int" where
  "round_half_even n d =
     (let q = n div d; r = n mod d
      in if 2 * r < d \<or> (2 * r = d \<and> even q) then q else q + 1)"

definition float64_of_int64 :: "int64 \<Rightarrow> float64" where
  "float64_of_int64 n =
     (let e = bit_length (nat \<bar>sint n\<bar>) - 53
      in Float64 (round_half_even (sint n) (2 ^ e)) (int e))"

text \<open>Division by a power of two and \<open>math.Ceil\<close> are exact.\<close>

definition float64_div_pow2 :: "float64 \<Rightarrow> nat \<Rightarrow> float64" where
  "float64_div_pow2 f k = Float64 (significand f) (exponent f - int k)"

definition ceil_float64 :: "float64 \<Rightarrow> float64" where
  "ceil_float64 f =
     (if 0 \<le> exponent f then f
      else Float64 (- ((- significand f) div 2 ^ nat (- exponent f))) 0)"

lemma bit_length_le: "n < 2 ^ k \<Longrightarrow> bit_length n \<le> k"
proof (induction n arbitrary: k rule: bit_length.induct)
  case (1 n)
  show ?case
  proof (cases "n = 0")
    case True
    then show ?thesis by (subst bit_length.simps) simp
  next
    case False
    with "1.prems" obtain k' where k: "k = Suc k'" by (cases k) auto
    with "1.prems" have "n div 2 < 2 ^ k'" by auto
    with False "1.IH" have "bit_length (n div 2) \<le> k'" by blast
    with k show ?thesis by (subst bit_length.simps) simp
  qed
qed

lemma bit_length_large: "2 ^ k \<le> n \<Longrightarrow> Suc k \<le> bit_length n"
proof (induction k arbitrary: n)
  case 0
  then show ?case by (subst bit_length.simps) auto
next
  case (Suc k)
  then have "2 ^ k \<le> n div 2" by auto
  then have "Suc k \<le> bit_length (n div 2)" by (rule Suc.IH)
  moreover from Suc.prems have "n \<noteq> 0" by (intro notI) simp
  ultimately show ?case by (subst bit_length.simps) simp
qed

text \<open>Rounding is off by at most half of the distance between the values.\<close>

lemma round_half_even_error:
  assumes "0 < d" shows "2 * \<bar>round_half_even n d * d - n\<bar> \<le> d"
proof -
  have n: "n div d * d = n - n mod d" by (simp add: minus_mod_eq_div_mult)
  have "0 \<le> n mod d" "n mod d < d" using assms by simp_all
  with n show ?thesis by (auto simp: round_half_even_def Let_def distrib_right)
qed

lemma float64_of_int64_error:
  assumes "float64_of_int64 n = Float64 m (int e)"
  shows "2 * \<bar>m * 2 ^ e - sint n\<bar> \<le> 2 ^ e"
  using assms round_half_even_error [of "2 ^ e" "sint n"] by (auto simp: float64_of_int64_def Let_def)

lemma float64_of_small:
  assumes "\<bar>sint n\<bar> < 2 ^ 53"
  shows "float64_of_int64 n = Float64 (sint n) 0"
proof -
  have "nat \<bar>sint n\<bar> < 2 ^ 53" using assms by simp
  then have "bit_length (nat \<bar>sint n\<bar>) - 53 = 0" using bit_length_le by simp
  then show ?thesis by (simp add: float64_of_int64_def round_half_even_def)
qed

lemma int64_of_Float64_nonneg:
  "0 \<le> m \<Longrightarrow> m < 2 ^ 63 \<Longrightarrow> sint (int64_of_float64 (Float64 m 0)) = m"
  by (simp add: int64_of_float64_def trunc_float64_def sint_of_int64)

end
