(* ===== verification/Morpheus_Types.thy ===== *)
theory Morpheus_Types
  imports Go_Strconv
begin

text \<open>
  The data of the Morpheus client (\<open>internal/morpheus/client.go\<close>) and its pure functions: volume
  handles, \<open>StorageClass\<close> parameters, reading volumes and servers out of decoded JSON, the
  payload of a resize request, and the searches in volume lists.
\<close>

section \<open>Volumes, references and requests\<close>

record StorageVolume =
  vol_ID :: string
  vol_Name :: string
  vol_SizeGiB :: int64
  vol_RootVolume :: bool
  vol_StorageTypeID :: string
  vol_DatastoreID :: string
  vol_ControllerMountPoint :: string
  vol_DevicePath :: string

record VolumeRef =
  ref_ServerID :: string
  ref_VolumeID :: string

record ResizeVolumeRequest =
  rr_Name :: string
  rr_SizeGiB :: int64
  rr_StorageClass :: string_map
  rr_VolumeID :: string

record MoveVolumeRequest =
  mv_VolumeID :: string
  mv_SourceServerID :: string
  mv_TargetServerID :: string
  mv_CandidateServerIDs :: "string list"

record serverState =
  st_ID :: string
  st_Volumes :: "StorageVolume list"

record serverRecord =
  sv_ID :: string
  sv_Name :: string
  sv_Hostname :: string
  sv_ExternalID :: string

text \<open>The errors of the client, one constructor for each message it can return.\<close>

datatype client_error =
    EServerParamRequired
  | EVolumeHandleFormat
  | ENodeNameRequired
  | ENoServerMatched string
  | EMultipleExactServers string
  | EMultipleServers string
  | ERootDelete string
  | ERootMove string
  | ERootResize string
  | EVolumeIDRequired
  | EServerIDRequired
  | ETargetServerRequired
  | EVolumeNotFoundOnCandidates string
  | EVolumeNotFound string string
  | EMoveNotFound string string
  | EResizeNotFound string
  | EShrink string int64 int64
  | ENameOrIDRequired
  | ESizeNotPositive
  | EContextDone
  | ETransport
  | EReadBody
  | EHttpStatus int
  | EUnmarshal
  | EUrlParse
  | EUrlIncomplete
  | ECAFileRead
  | ECAFileNoCertificate string

section \<open>Constants\<close>

definition ParamServerID :: string where "ParamServerID = ''morpheus.serverId''"
definition legacyParamHostID :: string where "legacyParamHostID = ''morpheus.hostId''"
definition legacyParamInstanceID :: string where
  "legacyParamInstanceID = ''morpheus.instanceId''"
definition ParamStorageType :: string where "ParamStorageType = ''morpheus.storageType''"
definition ParamStorageTypeID :: string where "ParamStorageTypeID = ''morpheus.storageTypeId''"
definition ParamDatastoreID :: string where "ParamDatastoreID = ''morpheus.datastoreId''"

definition VolumeContextServerID :: string where
  "VolumeContextServerID = ''morpheus.serverId''"
definition VolumeContextVolumeID :: string where
  "VolumeContextVolumeID = ''morpheus.volumeId''"
definition VolumeContextVolumeName :: string where
  "VolumeContextVolumeName = ''morpheus.volumeName''"
definition VolumeContextDevicePath :: string where
  "VolumeContextDevicePath = ''morpheus.devicePath''"
definition VolumeContextSizeGiB :: string where
  "VolumeContextSizeGiB = ''morpheus.sizeGiB''"

definition defaultStorageType :: string where "defaultStorageType = ''38''"
definition bytesPerGiB :: int64 where "bytesPerGiB = 1024 * 1024 * 1024"
definition postResizeVolumeLookupAttempts :: nat where "postResizeVolumeLookupAttempts = 6"

lemmas param_defs =
  ParamServerID_def legacyParamHostID_def legacyParamInstanceID_def ParamStorageType_def
  ParamStorageTypeID_def ParamDatastoreID_def

lemmas context_key_defs =
  VolumeContextServerID_def VolumeContextVolumeID_def VolumeContextVolumeName_def
  VolumeContextDevicePath_def VolumeContextSizeGiB_def

section \<open>Volume handles\<close>

definition EncodeVolumeID :: "string \<Rightarrow> string \<Rightarrow> string" where
  "EncodeVolumeID serverID volumeID = TrimSpace serverID @ '':'' @ TrimSpace volumeID"

definition DecodeVolumeID :: "string \<Rightarrow> client_error + VolumeRef" where
  "DecodeVolumeID volumeID =
     (case Split_on (CHR '':'') (TrimSpace volumeID) of
        [a, b] \<Rightarrow>
          if TrimSpace a = [] \<or> TrimSpace b = [] then Inl EVolumeHandleFormat
          else Inr \<lparr>ref_ServerID = TrimSpace a, ref_VolumeID = TrimSpace b\<rparr>
      | _ \<Rightarrow> Inl EVolumeHandleFormat)"

definition validateRef :: "VolumeRef \<Rightarrow> client_error + unit" where
  "validateRef ref =
     (if TrimSpace (ref_ServerID ref) = [] then Inl EServerIDRequired
      else if TrimSpace (ref_VolumeID ref) = [] then Inl EVolumeIDRequired
      else Inr ())"

section \<open>StorageClass parameters\<close>

definition StorageClassServerID :: "string_map \<Rightarrow> string" where
  "StorageClassServerID parameters =
     (let serverID = TrimSpace (map_get parameters ParamServerID);
          hostID = TrimSpace (map_get parameters legacyParamHostID)
      in if serverID \<noteq> [] then serverID
         else if hostID \<noteq> [] then hostID
         else TrimSpace (map_get parameters legacyParamInstanceID))"

definition storageClassStorageType :: "string_map \<Rightarrow> string" where
  "storageClassStorageType parameters =
     (let typ = TrimSpace (map_get parameters ParamStorageType);
          typID = TrimSpace (map_get parameters ParamStorageTypeID)
      in if typ \<noteq> [] then typ else if typID \<noteq> [] then typID else defaultStorageType)"

definition ValidateStorageClass :: "string_map \<Rightarrow> client_error + unit" where
  "ValidateStorageClass parameters =
     (if StorageClassServerID parameters = [] then Inl EServerParamRequired else Inr ())"

definition validateResizeRequest :: "ResizeVolumeRequest \<Rightarrow> client_error + unit" where
  "validateResizeRequest req =
     (case ValidateStorageClass (rr_StorageClass req) of
        Inl e \<Rightarrow> Inl e
      | Inr _ \<Rightarrow>
          if TrimSpace (rr_Name req) = [] \<and> TrimSpace (rr_VolumeID req) = []
          then Inl ENameOrIDRequired
          else if sint (rr_SizeGiB req) \<le> 0 then Inl ESizeNotPositive
          else Inr ())"

fun firstNonEmpty :: "string list \<Rightarrow> string" where
  "firstNonEmpty [] = []"
| "firstNonEmpty (value # vs) = (if TrimSpace value \<noteq> [] then value else firstNonEmpty vs)"

definition uniqueNonEmpty :: "string list \<Rightarrow> string list" where
  "uniqueNonEmpty values = unique_loop {} values"

section \<open>Decoded JSON\<close>

text \<open>
  The dynamic types a Go \<open>any\<close> can have in this code. Decoding JSON into \<open>any\<close> yields the first
  six; \<open>json.Number\<close>, \<open>int\<close> and \<open>int64\<close> are the other cases the readers below distinguish, and
  \<open>int64\<close> is also what the resize payload holds. A map is an association list whose keys are
  distinct.
\<close>

datatype any =
    ANil
  | ABool bool
  | AString string
  | AFloat float64
  | ASlice "any list"
  | AMap "(string \<times> any) list"
  | ANumber string
  | AInt int64
  | AInt64 int64

type_synonym any_map = "(string \<times> any) list"

definition any_get :: "any_map \<Rightarrow> string \<Rightarrow> any" where
  "any_get m k = (case map_of m k of None \<Rightarrow> ANil | Some v \<Rightarrow> v)"

fun firstValue :: "any_map \<Rightarrow> string list \<Rightarrow> any" where
  "firstValue m [] = ANil"
| "firstValue m (key # keys) =
     (case map_of m key of Some value \<Rightarrow> value | None \<Rightarrow> firstValue m keys)"

fun asMap :: "any \<Rightarrow> any_map" where
  "asMap (AMap m) = m"
| "asMap _ = []"

fun asSlice :: "any \<Rightarrow> any list" where
  "asSlice (ASlice xs) = xs"
| "asSlice _ = []"

definition firstMap :: "any_map \<Rightarrow> string list \<Rightarrow> any_map" where
  "firstMap m keys = asMap (firstValue m keys)"

fun stringValue :: "any \<Rightarrow> string" where
  "stringValue (AString s) = TrimSpace s"
| "stringValue (AFloat f) = FormatInt (int64_of_float64 f)"
| "stringValue (ANumber s) = s"
| "stringValue (AInt n) = FormatInt n"
| "stringValue (AInt64 n) = FormatInt n"
| "stringValue _ = []"

fun int64Value :: "any \<Rightarrow> int64" where
  "int64Value (AString s) = fst (ParseInt (TrimSpace s))"
| "int64Value (AFloat f) = int64_of_float64 f"
| "int64Value (ANumber s) = fst (ParseInt s)"
| "int64Value (AInt n) = n"
| "int64Value (AInt64 n) = n"
| "int64Value _ = 0"

fun boolValue :: "any \<Rightarrow> bool" where
  "boolValue (ABool b) = b"
| "boolValue (AString s) = ParseBool (TrimSpace s)"
| "boolValue _ = False"

definition storageSizeGiB :: "any_map \<Rightarrow> int64" where
  "storageSizeGiB vals =
     (let gib = int64Value (firstValue vals [''sizeGiB'', ''sizeGB'', ''sizeGb''])
      in if 0 < sint gib then gib
         else
           let value = int64Value (firstValue vals [''maxStorage'', ''size''])
           in if sint bytesPerGiB < sint value
              then quo64 (value + bytesPerGiB - 1) bytesPerGiB
              else value)"

definition device_prefixes :: "string list" where
  "device_prefixes = [''sd'', ''vd'', ''xvd'', ''nvme'']"

definition normalizeDevicePath :: "string \<Rightarrow> string" where
  "normalizeDevicePath v =
     (let value = TrimSpace v
      in if value = [] then []
         else if HasPrefix value ''/dev/'' then value
         else if list_ex (HasPrefix value) device_prefixes then ''/dev/'' @ value
         else value)"

definition jsonID :: "string \<Rightarrow> any" where
  "jsonID value = (case ParseInt value of (i, None) \<Rightarrow> AInt64 i | _ \<Rightarrow> AString value)"

section \<open>Reading volumes and servers\<close>

definition parseVolume :: "any_map \<Rightarrow> StorageVolume option" where
  "parseVolume m =
     (if m = [] then None
      else
        let volID = stringValue (any_get m ''id'');
            typ = stringValue (firstValue m [''storageTypeId'', ''storageType'']);
            ds = stringValue (firstValue m [''datastoreId'']);
            dev = normalizeDevicePath
              (stringValue (firstValue m [''devicePath'', ''deviceName'', ''device'', ''path'']));
            volume =
              \<lparr>vol_ID = volID,
               vol_Name = stringValue (any_get m ''name''),
               vol_SizeGiB = storageSizeGiB m,
               vol_RootVolume = boolValue (firstValue m [''rootVolume'', ''root'', ''isRoot'']),
               vol_StorageTypeID =
                 (if typ = []
                  then stringValue
                    (any_get (asMap (firstValue m [''storageType'', ''type''])) ''id'')
                  else typ),
               vol_DatastoreID =
                 (if ds = []
                  then stringValue (any_get (asMap (firstValue m [''datastore''])) ''id'')
                  else ds),
               vol_ControllerMountPoint = stringValue (any_get m ''controllerMountPoint''),
               vol_DevicePath =
                 (if dev = []
                  then normalizeDevicePath (stringValue
                    (any_get (asMap (firstValue m [''connectionInfo'', ''attachment'', ''mount'']))
                      ''devicePath''))
                  else dev)\<rparr>
        in if volID = [] then None else Some volume)"

fun parse_first_slice :: "(any \<Rightarrow> 'a option) \<Rightarrow> any_map \<Rightarrow> string list \<Rightarrow> 'a list option" where
  \<comment> \<open>the loop over the keys: the first non-empty array is read, items that do not parse dropped\<close>
  "parse_first_slice read m [] = None"
| "parse_first_slice read m (key # keys) =
     (let raw = asSlice (any_get m key)
      in if raw \<noteq> [] then Some (List.map_filter read raw) else parse_first_slice read m keys)"

definition parseVolumeList :: "any_map \<Rightarrow> StorageVolume list" where
  "parseVolumeList server =
     (case parse_first_slice (\<lambda>raw. parseVolume (asMap raw)) server
             [''volumes'', ''storageVolumes'', ''disks''] of
        Some volumes \<Rightarrow> volumes
      | None \<Rightarrow> [])"

definition parseServer :: "any_map \<Rightarrow> serverRecord" where
  "parseServer vals =
     (if vals = [] then \<lparr>sv_ID = [], sv_Name = [], sv_Hostname = [], sv_ExternalID = []\<rparr>
      else
        \<lparr>sv_ID = stringValue (any_get vals ''id''),
         sv_Name = stringValue (any_get vals ''name''),
         sv_Hostname =
           stringValue (firstValue vals [''hostname'', ''hostName'', ''displayName'']),
         sv_ExternalID =
           stringValue (firstValue vals [''externalId'', ''externalID'', ''uuid''])\<rparr>)"

definition parseServerList :: "any_map \<Rightarrow> serverRecord list" where
  "parseServerList response =
     (let read = (\<lambda>raw. let server = parseServer (asMap raw)
                        in if sv_ID server \<noteq> [] then Some server else None)
      in case parse_first_slice read response [''servers'', ''storageServers'', ''data''] of
           Some servers \<Rightarrow> servers
         | None \<Rightarrow>
             let server = parseServer (firstMap response [''server''])
             in if sv_ID server \<noteq> [] then [server] else [])"

definition matchesNodeName :: "(string \<Rightarrow> string \<Rightarrow> bool) \<Rightarrow> serverRecord \<Rightarrow> string \<Rightarrow> bool" where
  "matchesNodeName unicode_fold s nodeName =
     list_ex (\<lambda>candidate. EqualFold unicode_fold (TrimSpace candidate) (TrimSpace nodeName))
       [sv_Name s, sv_Hostname s, sv_ExternalID s]"

section \<open>Searching volume lists\<close>

definition findVolumeByName :: "StorageVolume list \<Rightarrow> string \<Rightarrow> StorageVolume option" where
  "findVolumeByName volumes name = find (\<lambda>v. vol_Name v = name) volumes"

definition findVolumeByID :: "StorageVolume list \<Rightarrow> string \<Rightarrow> StorageVolume option" where
  "findVolumeByID volumes id' = find (\<lambda>v. vol_ID v = id') volumes"

definition is_new_volume ::
  "string set \<Rightarrow> string \<Rightarrow> string \<Rightarrow> ResizeVolumeRequest \<Rightarrow> StorageVolume \<Rightarrow> bool" where
  "is_new_volume existingIDs expectedType expectedDatastore req v \<longleftrightarrow>
     \<not> (vol_ID v = [] \<or> vol_RootVolume v)
   \<and> vol_ID v \<notin> existingIDs
   \<and> \<not> (0 < sint (vol_SizeGiB v) \<and> sint (vol_SizeGiB v) < sint (rr_SizeGiB req))
   \<and> \<not> (expectedType \<noteq> [] \<and> vol_StorageTypeID v \<noteq> [] \<and> vol_StorageTypeID v \<noteq> expectedType)
   \<and> \<not> (expectedDatastore \<noteq> [] \<and> vol_DatastoreID v \<noteq> [] \<and>
        vol_DatastoreID v \<noteq> expectedDatastore)"

definition findNewVolume ::
  "StorageVolume list \<Rightarrow> StorageVolume list \<Rightarrow> ResizeVolumeRequest \<Rightarrow> StorageVolume option" where
  "findNewVolume before after req =
     (let existingIDs = set (filter (\<lambda>i. i \<noteq> []) (map vol_ID before));
          expectedType = storageClassStorageType (rr_StorageClass req);
          expectedDatastore = TrimSpace (map_get (rr_StorageClass req) ParamDatastoreID)
      in find (is_new_volume existingIDs expectedType expectedDatastore req) after)"

definition findResizedVolume ::
  "StorageVolume list \<Rightarrow> StorageVolume list \<Rightarrow> string \<Rightarrow> ResizeVolumeRequest \<Rightarrow>
   StorageVolume option" where
  "findResizedVolume before after volumeID req =
     (if volumeID \<noteq> [] then findVolumeByID after volumeID
      else case findVolumeByName after (rr_Name req) of
             Some volume \<Rightarrow> Some volume
           | None \<Rightarrow> findNewVolume before after req)"

section \<open>The resize payload\<close>

definition resize_item :: "StorageVolume \<Rightarrow> any" where
  "resize_item v =
     AMap
       ([(''name'', AString (vol_Name v)),
         (''size'', AInt64 (vol_SizeGiB v)),
         (''sizeId'', ANil),
         (''rootVolume'', ABool (vol_RootVolume v))]
        @ (if vol_ID v \<noteq> [] then [(''id'', jsonID (vol_ID v))]
           else if \<not> vol_RootVolume v then [(''id'', AInt (- 1))] else [])
        @ (if vol_StorageTypeID v \<noteq> [] then [(''storageType'', jsonID (vol_StorageTypeID v))]
           else [])
        @ (if vol_DatastoreID v \<noteq> [] then [(''datastoreId'', jsonID (vol_DatastoreID v))]
           else [])
        @ (if vol_ControllerMountPoint v \<noteq> []
           then [(''controllerMountPoint'', AString (vol_ControllerMountPoint v))] else []))"

definition resizeVolumesPayload :: "StorageVolume list \<Rightarrow> any" where
  "resizeVolumesPayload volumes = ASlice (map resize_item volumes)"

text \<open>
  The array \<open>resizeVolume\<close> sends: every volume of the server in its place, the one to resize
  rewritten, or a new one at the end.
\<close>

definition rewrite_volume ::
  "string \<Rightarrow> ResizeVolumeRequest \<Rightarrow> StorageVolume \<Rightarrow> StorageVolume" where
  "rewrite_volume volumeID req v =
     (if vol_ID v = volumeID \<or> (volumeID = [] \<and> vol_Name v = rr_Name req)
      then v\<lparr>vol_Name := firstNonEmpty [rr_Name req, vol_Name v],
              vol_SizeGiB := rr_SizeGiB req,
              vol_StorageTypeID :=
                firstNonEmpty [vol_StorageTypeID v, storageClassStorageType (rr_StorageClass req)],
              vol_DatastoreID :=
                firstNonEmpty [vol_DatastoreID v, map_get (rr_StorageClass req) ParamDatastoreID]\<rparr>
      else v)"

definition new_volume :: "ResizeVolumeRequest \<Rightarrow> StorageVolume" where
  "new_volume req =
     \<lparr>vol_ID = [], vol_Name = rr_Name req, vol_SizeGiB = rr_SizeGiB req, vol_RootVolume = False,
      vol_StorageTypeID = storageClassStorageType (rr_StorageClass req),
      vol_DatastoreID = map_get (rr_StorageClass req) ParamDatastoreID,
      vol_ControllerMountPoint = [], vol_DevicePath = []\<rparr>"

definition resize_next ::
  "StorageVolume list \<Rightarrow> string \<Rightarrow> ResizeVolumeRequest \<Rightarrow> StorageVolume list" where
  "resize_next volumes volumeID req =
     (let found = list_ex (\<lambda>v. vol_ID v = volumeID \<or> (volumeID = [] \<and> vol_Name v = rr_Name req)) volumes
      in map (rewrite_volume volumeID req) volumes @ (if found then [] else [new_volume req]))"


section \<open>Properties of handles\<close>

lemma Split_on_pair_iff:
  "(\<exists>x y. Split_on c (a @ c # b) = [x, y]) \<longleftrightarrow> c \<notin> set a \<and> c \<notin> set b"
proof
  assume "\<exists>x y. Split_on c (a @ c # b) = [x, y]"
  then have "count_list (a @ c # b) c = 1"
    using length_Split_on [of c "a @ c # b"] by auto
  then show "c \<notin> set a \<and> c \<notin> set b" by (simp add: count_list_0_iff)
qed simp

text \<open>
  C19: the handle of a volume decodes to the (trimmed) server and volume id it was made of exactly
  when both are non-blank and neither contains a colon; otherwise it does not decode at all.
\<close>

theorem DecodeVolumeID_EncodeVolumeID:
  "DecodeVolumeID (EncodeVolumeID serverID volumeID) =
     (if TrimSpace serverID \<noteq> [] \<and> TrimSpace volumeID \<noteq> []
         \<and> CHR '':'' \<notin> set (TrimSpace serverID) \<and> CHR '':'' \<notin> set (TrimSpace volumeID)
      then Inr \<lparr>ref_ServerID = TrimSpace serverID, ref_VolumeID = TrimSpace volumeID\<rparr>
      else Inl EVolumeHandleFormat)"
proof -
  let ?s = "TrimSpace serverID" and ?v = "TrimSpace volumeID"
  have h: "TrimSpace (EncodeVolumeID serverID volumeID) = ?s @ CHR '':'' # ?v"
    using trimmed_append [of ?s ?v "CHR '':''"] by (simp add: EncodeVolumeID_def trimmed_def)
  show ?thesis
  proof (cases "CHR '':'' \<in> set ?s \<or> CHR '':'' \<in> set ?v")
    case True
    then have "\<nexists>x y. Split_on (CHR '':'') (?s @ CHR '':'' # ?v) = [x, y]"
      by (simp add: Split_on_pair_iff)
    with True show ?thesis by (auto simp: DecodeVolumeID_def h split: list.splits)
  next
    case False
    then show ?thesis by (auto simp: DecodeVolumeID_def h)
  qed
qed

end
