(* ===== verification/Go_Url.thy ===== *)
theory Go_Url
  imports Go_Strings
begin

text \<open>
  Percent-encoding as Go's \<open>net/url\<close> does it: \<open>PathEscape\<close> (which the client applies to the
  identifiers it puts into a path), the escaping \<open>URL.String\<close> applies to \<open>URL.Path\<close>,
  \<open>QueryEscape\<close>, and the decoding a server applies once to the path it receives.
\<close>

definition upper_hex :: string where
  "upper_hex = ''0123456789ABCDEF''"

definition percent :: "char \<Rightarrow> string" where
  "percent c =
     (let n = of_char c :: nat in [CHR ''%'', upper_hex ! (n div 16), upper_hex ! (n mod 16)])"

definition alphanumeric :: string where
  "alphanumeric = ''abcdefghijklmnopqrstuvwxyz'' @ ''ABCDEFGHIJKLMNOPQRSTUVWXYZ'' @ ''0123456789''"

definition escape_with :: "string \<Rightarrow> string \<Rightarrow> string" where
  \<comment> \<open>\<open>keep\<close>: the bytes that stay as they are\<close>
  "escape_with keep s = concat (map (\<lambda>c. if c \<in> set keep then [c] else percent c) s)"

definition unreserved :: string where
  "unreserved = alphanumeric @ ''-_.~''"

definition segment_keep :: string where
  "segment_keep = unreserved @ ''$&+:=@''"

definition path_keep :: string where
  "path_keep = unreserved @ ''$&+,/:;=@''"

definition PathEscape :: "string \<Rightarrow> string" where
  "PathEscape s = escape_with segment_keep s"

definition EscapedPath :: "string \<Rightarrow> string" where
  "EscapedPath path = escape_with path_keep path"

definition QueryEscape :: "string \<Rightarrow> string" where
  "QueryEscape s =
     concat (map (\<lambda>c. if c = CHR '' '' then ''+''
                      else if c \<in> set unreserved then [c] else percent c) s)"

section \<open>Decoding\<close>

definition hex_value :: "char \<Rightarrow> nat option" where
  "hex_value c =
     map_of (zip upper_hex [0..<16] @ zip ''abcdef'' [10..<16]) c"

text \<open>A malformed escape is an error of the decoder, \<open>None\<close>.\<close>

fun unescape :: "string \<Rightarrow> string option" where
  "unescape [] = Some []"
| "unescape (c # s) =
     (if c = CHR ''%'' then
        (case s of
           a # b # t \<Rightarrow>
             (case (hex_value a, hex_value b) of
                (Some x, Some y) \<Rightarrow> map_option ((#) (char_of (16 * x + y))) (unescape t)
              | _ \<Rightarrow> None)
         | _ \<Rightarrow> None)
      else map_option ((#) c) (unescape s))"

lemma escape_with_Nil [simp]: "escape_with keep [] = []"
  by (simp add: escape_with_def)

lemma escape_with_Cons [simp]:
  "escape_with keep (c # s) = (if c \<in> set keep then [c] else percent c) @ escape_with keep s"
  by (simp add: escape_with_def)

lemma escape_with_append [simp]:
  "escape_with keep (s @ t) = escape_with keep s @ escape_with keep t"
  by (simp add: escape_with_def)

lemma escape_with_kept: "set s \<subseteq> set keep \<Longrightarrow> escape_with keep s = s"
  by (induction s) auto

lemma hex_value_digit: "d < 16 \<Longrightarrow> hex_value (upper_hex ! d) = Some d"
proof -
  assume "d < 16"
  then have "d \<in> set [0..<16]" by simp
  moreover have "\<forall>d \<in> set [0..<16]. hex_value (upper_hex ! d) = Some d" by code_simp
  ultimately show ?thesis by blast
qed

lemma unescape_percent: "unescape (percent c @ t) = map_option ((#) c) (unescape t)"
proof -
  let ?n = "of_char c :: nat"
  have n: "?n < 256" by simp
  then have "?n div 16 < 16" and "?n mod 16 < 16" by (auto simp: less_mult_imp_div_less)
  moreover have "16 * (?n div 16) + ?n mod 16 = ?n" by simp
  ultimately show ?thesis
    by (simp add: percent_def Let_def hex_value_digit)
qed

lemma unescape_escape_with:
  "CHR ''%'' \<notin> set keep \<Longrightarrow> unescape (escape_with keep s) = Some s"
  by (induction s) (auto simp: unescape_percent)

lemma percent_not_kept [simp]:
  "CHR ''%'' \<notin> set segment_keep" "CHR ''%'' \<notin> set path_keep" "CHR ''%'' \<notin> set unreserved"
  by (code_simp)+

lemma unescape_PathEscape [simp]: "unescape (PathEscape s) = Some s"
  by (simp add: PathEscape_def unescape_escape_with)

lemma unescape_EscapedPath [simp]: "unescape (EscapedPath s) = Some s"
  by (simp add: EscapedPath_def unescape_escape_with)

lemma PathEscape_inject: "PathEscape s = PathEscape t \<longleftrightarrow> s = t"
  by (metis option.inject unescape_PathEscape)

lemma EscapedPath_inject: "EscapedPath s = EscapedPath t \<longleftrightarrow> s = t"
  by (metis option.inject unescape_EscapedPath)

lemma set_percent: "set (percent c) \<subseteq> set (CHR ''%'' # upper_hex)"
proof -
  let ?n = "of_char c :: nat"
  have "?n < 256" by simp
  then have "?n div 16 < 16" and "?n mod 16 < 16" by (auto simp: less_mult_imp_div_less)
  moreover have "length upper_hex = 16" by (simp add: upper_hex_def)
  ultimately show ?thesis by (auto simp: percent_def Let_def)
qed

lemma set_escape_with: "set (escape_with keep s) \<subseteq> set keep \<union> set (CHR ''%'' # upper_hex)"
  using set_percent by (induction s) auto

lemma slash_not_in_PathEscape [simp]: "CHR ''/'' \<notin> set (PathEscape s)"
proof -
  have "CHR ''/'' \<notin> set (segment_keep @ CHR ''%'' # upper_hex)" by code_simp
  then show ?thesis using set_escape_with [of segment_keep s] by (auto simp: PathEscape_def)
qed

lemma question_not_in_EscapedPath: "CHR ''?'' \<notin> set (EscapedPath s)"
proof -
  have "CHR ''?'' \<notin> set (path_keep @ CHR ''%'' # upper_hex)" by code_simp
  then show ?thesis using set_escape_with [of path_keep s] by (auto simp: EscapedPath_def)
qed

text \<open>An identifier of unreserved bytes (a number, a UUID) is its own escape.\<close>

definition plain_id :: "string \<Rightarrow> bool" where
  "plain_id s \<longleftrightarrow> set s \<subseteq> set segment_keep"

lemma PathEscape_plain: "plain_id s \<Longrightarrow> PathEscape s = s"
  by (simp add: PathEscape_def plain_id_def escape_with_kept)

lemma segment_keep_path_keep: "set segment_keep \<subseteq> set path_keep"
  by code_simp

lemma EscapedPath_plain: "plain_id s \<Longrightarrow> EscapedPath s = s"
  using segment_keep_path_keep by (auto simp: EscapedPath_def plain_id_def intro: escape_with_kept)

lemma EscapedPath_append [simp]: "EscapedPath (s @ t) = EscapedPath s @ EscapedPath t"
  by (simp add: EscapedPath_def)

lemma EscapedPath_Nil [simp]: "EscapedPath [] = []"
  by (simp add: EscapedPath_def)

lemma length_escape_with_ge: "length s \<le> length (escape_with keep s)"
  by (induction s) (auto simp: percent_def Let_def)

lemma length_escape_with_gt: "\<not> set s \<subseteq> set keep \<Longrightarrow> length s < length (escape_with keep s)"
proof (induction s)
  case Nil
  then show ?case by simp
next
  case (Cons c s)
  then show ?case
    using length_escape_with_ge [of s keep] by (auto simp: percent_def Let_def)
qed

lemma PathEscape_eq_plain: "PathEscape s = s \<longleftrightarrow> plain_id s"
  using length_escape_with_gt [of s segment_keep] PathEscape_plain
  by (force simp: PathEscape_def plain_id_def)

end
