(* ===== verification/Go_UrlParse.thy ===== *)
theory Go_UrlParse
  imports Go_Url
begin

text \<open>
  Parsing as Go's \<open>net/url\<close> does it (\<open>Parse\<close> and \<open>ParseRequestURI\<close>), as far as the code uses the
  result: whether the text is accepted, and its scheme, host, path and query. Rejected texts are
  \<open>None\<close>.
\<close>

record parsed_url =
  url_Scheme :: string
  url_Host :: string
  url_Path :: string
  url_ForceQuery :: bool
  url_RawQuery :: string

definition letters :: string where
  "letters = ''abcdefghijklmnopqrstuvwxyz'' @ ''ABCDEFGHIJKLMNOPQRSTUVWXYZ''"

definition Cut :: "char \<Rightarrow> string \<Rightarrow> string \<times> string" where
  "Cut c s = (takeWhile (\<lambda>x. x \<noteq> c) s, drop 1 (dropWhile (\<lambda>x. x \<noteq> c) s))"

definition CutLast :: "char \<Rightarrow> string \<Rightarrow> (string \<times> string) option" where
  "CutLast c s =
     (if c \<in> set s
      then Some (rev (drop 1 (dropWhile (\<lambda>x. x \<noteq> c) (rev s))), rev (takeWhile (\<lambda>x. x \<noteq> c) (rev s)))
      else None)"

section \<open>The scheme\<close>

text \<open>
  \<open>getScheme\<close>: letters, and after the first byte digits and \<open>+-.\<close>, up to a colon; any other byte
  means that there is no scheme, a leading colon is an error.
\<close>

fun getScheme_loop :: "string \<Rightarrow> string \<Rightarrow> string \<Rightarrow> (string \<times> string) option" where
  "getScheme_loop raw acc [] = Some ([], raw)"
| "getScheme_loop raw acc (c # s) =
     (if c \<in> set letters then getScheme_loop raw (acc @ [c]) s
      else if c \<in> set (''0123456789'' @ ''+-.'')
      then if acc = [] then Some ([], raw) else getScheme_loop raw (acc @ [c]) s
      else if c = CHR '':'' then if acc = [] then None else Some (acc, s)
      else Some ([], raw))"

definition getScheme :: "string \<Rightarrow> (string \<times> string) option" where
  "getScheme raw = getScheme_loop raw [] raw"

section \<open>The authority\<close>

definition host_keep :: string where
  "host_keep = alphanumeric @ ''!$&'' @ [CHR 39] @ ''()*+,;=:[]<>'' @ [CHR 34] @ ''-_.~''"

definition is_host_byte :: "char \<Rightarrow> bool" where
  "is_host_byte c \<longleftrightarrow> 128 \<le> (of_char c :: nat) \<or> c \<in> set host_keep"

text \<open>
  \<open>unescape\<close> of a host, where only bytes outside ASCII and \<open>%25\<close> may be escaped, and of a zone,
  where also a space and what needs no escape may be.
\<close>

fun unescape_host :: "bool \<Rightarrow> string \<Rightarrow> string option" where
  "unescape_host zone [] = Some []"
| "unescape_host zone (c # s) =
     (if c = CHR ''%'' then
        (case s of
           a # b # t \<Rightarrow>
             (case (hex_value a, hex_value b) of
                (Some x, Some y) \<Rightarrow>
                  let v = (char_of (16 * x + y) :: char);
                      allowed = (if zone then v = CHR '' '' \<or> v \<in> set host_keep else 8 \<le> x)
                  in if [a, b] = ''25'' \<or> allowed then map_option ((#) v) (unescape_host zone t)
                     else None
              | _ \<Rightarrow> None)
         | _ \<Rightarrow> None)
      else if is_host_byte c then map_option ((#) c) (unescape_host zone s)
      else None)"

definition validOptionalPort :: "string \<Rightarrow> bool" where
  "validOptionalPort port \<longleftrightarrow>
     (case port of [] \<Rightarrow> True | c # ds \<Rightarrow> c = CHR '':'' \<and> set ds \<subseteq> set ''0123456789'')"

definition validUserinfo :: "string \<Rightarrow> bool" where
  "validUserinfo s \<longleftrightarrow> set s \<subseteq> set (alphanumeric @ ''-._:~!$&'' @ [CHR 39] @ ''()*+,;=%@'')"

fun find_zone :: "string \<Rightarrow> (string \<times> string) option" where
  \<comment> \<open>the text before the first \<open>%25\<close> and the text from it on\<close>
  "find_zone [] = None"
| "find_zone (c # s) =
     (if HasPrefix (c # s) ''%25'' then Some ([], c # s)
      else map_option (\<lambda>(a, b). (c # a, b)) (find_zone s))"

definition parseHost :: "string \<Rightarrow> string option" where
  "parseHost host =
     (if HasPrefix host ''['' then
        (case CutLast (CHR '']'') host of
           None \<Rightarrow> None
         | Some (inside, port) \<Rightarrow>
             if \<not> validOptionalPort port then None
             else
               case find_zone inside of
                 None \<Rightarrow> unescape_host False host
               | Some (h, z) \<Rightarrow>
                   (case (unescape_host False h, unescape_host True z,
                          unescape_host False ('']'' @ port)) of
                      (Some h1, Some h2, Some h3) \<Rightarrow> Some (h1 @ h2 @ h3)
                    | _ \<Rightarrow> None))
      else
        (case CutLast (CHR '':'') host of
           None \<Rightarrow> unescape_host False host
         | Some (_, digits) \<Rightarrow>
             if validOptionalPort ('':'' @ digits) then unescape_host False host else None))"

definition parseAuthority :: "string \<Rightarrow> string option" where
  "parseAuthority authority =
     (case CutLast (CHR ''@'') authority of
        None \<Rightarrow> parseHost authority
      | Some (userinfo, host) \<Rightarrow>
          (case parseHost host of
             None \<Rightarrow> None
           | Some h \<Rightarrow>
               if validUserinfo userinfo \<and> unescape userinfo \<noteq> None then Some h else None))"

section \<open>The whole\<close>

definition has_control_byte :: "string \<Rightarrow> bool" where
  "has_control_byte s \<longleftrightarrow> list_ex (\<lambda>c. (of_char c :: nat) < 32 \<or> (of_char c :: nat) = 127) s"

text \<open>A single question mark at the very end is \<open>ForceQuery\<close>, an empty query that is kept.\<close>

definition trailing_query :: "string \<Rightarrow> bool" where
  "trailing_query s \<longleftrightarrow> s \<noteq> [] \<and> last s = CHR ''?'' \<and> count_list s (CHR ''?'') = 1"

definition with_path :: "string \<Rightarrow> string \<Rightarrow> string \<Rightarrow> bool \<Rightarrow> string \<Rightarrow> parsed_url option" where
  "with_path scheme host rest forced query =
     map_option (\<lambda>p. \<lparr>url_Scheme = scheme, url_Host = host, url_Path = p,
       url_ForceQuery = forced, url_RawQuery = query\<rparr>) (unescape rest)"

definition url_parse :: "bool \<Rightarrow> string \<Rightarrow> parsed_url option" where
  "url_parse viaRequest raw =
     (if has_control_byte raw \<or> (raw = [] \<and> viaRequest) then None
      else if raw = ''*'' then 
        Some \<lparr>url_Scheme = [], url_Host = [], url_Path = ''*'', url_ForceQuery = False,
              url_RawQuery = []\<rparr>
      else
        case getScheme raw of
          None \<Rightarrow> None
        | Some (sch, rest0) \<Rightarrow>
            let scheme = map ascii_to_lower sch;
                (rest, query) = Cut (CHR ''?'') rest0;
                forced = trailing_query rest0
            in if \<not> HasPrefix rest ''/'' then
                 if scheme \<noteq> [] then
                   Some \<lparr>url_Scheme = scheme, url_Host = [], url_Path = [], url_ForceQuery = forced,
                         url_RawQuery = query\<rparr>
                 else if viaRequest then None
                 else if CHR '':'' \<in> set (fst (Cut (CHR ''/'') rest)) then None
                 else with_path scheme [] rest forced query
               else if (scheme \<noteq> [] \<or> (\<not> viaRequest \<and> \<not> HasPrefix rest ''///''))
                       \<and> HasPrefix rest ''//'' then
                 let authority = takeWhile (\<lambda>c. c \<noteq> CHR ''/'') (drop 2 rest);
                     path = dropWhile (\<lambda>c. c \<noteq> CHR ''/'') (drop 2 rest)
                 in (case parseAuthority authority of
                       None \<Rightarrow> None
                     | Some host \<Rightarrow> with_path scheme host path forced query)
               else with_path scheme [] rest forced query)"

definition ParseRequestURI :: "string \<Rightarrow> parsed_url option" where
  "ParseRequestURI raw = url_parse True raw"

definition ParseURL :: "string \<Rightarrow> parsed_url option" where
  "ParseURL raw =
     (let (u, fragment) = Cut (CHR ''#'') raw
      in case url_parse False u of
           None \<Rightarrow> None
         | Some url \<Rightarrow> if unescape fragment = None then None else Some url)"

end
