(* ===== verification/Plugin_Config.thy ===== *)
theory Plugin_Config
  imports Go_UrlParse Go_Strconv
begin

text \<open>
  The configuration (\<open>internal/config/config.go\<close>) and how the command builds it from flags and
  environment (\<open>cmd/morpheus-csi/main.go\<close>).
\<close>

section \<open>Configurations\<close>

record Config =
  cfg_Endpoint :: string
  cfg_DriverName :: string
  cfg_Mode :: string
  cfg_NodeID :: string
  cfg_KubeletRootPath :: string
  cfg_LogLevel :: string
  cfg_MorpheusURL :: string
  cfg_MorpheusToken :: string
  cfg_MorpheusCAFile :: string
  cfg_MorpheusInsecureSkipVerify :: bool
  cfg_MorpheusDebug :: bool
  cfg_NodeServerIDLabel :: string

definition ModeAll :: string where "ModeAll = ''all''"
definition ModeController :: string where "ModeController = ''controller''"
definition ModeNode :: string where "ModeNode = ''node''"

lemmas mode_defs = ModeAll_def ModeController_def ModeNode_def

definition Default :: Config where
  "Default =
     \<lparr>cfg_Endpoint = ''unix:///csi/csi.sock'', cfg_DriverName = ''csi.morpheusdata.com'',
      cfg_Mode = ModeAll, cfg_NodeID = [], cfg_KubeletRootPath = ''/var/lib/kubelet'',
      cfg_LogLevel = ''info'', cfg_MorpheusURL = [], cfg_MorpheusToken = [],
      cfg_MorpheusCAFile = [], cfg_MorpheusInsecureSkipVerify = False, cfg_MorpheusDebug = False,
      cfg_NodeServerIDLabel = ''morpheus.csi/server-id''\<rparr>"

datatype config_error =
    EEndpointRequired
  | EDriverNameRequired
  | ELabelRequired
  | EURLRequired
  | EURLInvalid
  | ETokenRequired
  | ENodeIDRequired
  | EUnsupportedMode string

definition Config_Validate :: "Config \<Rightarrow> config_error + unit" where
  "Config_Validate c =
     (if TrimSpace (cfg_Endpoint c) = [] then Inl EEndpointRequired
      else if TrimSpace (cfg_DriverName c) = [] then Inl EDriverNameRequired
      else if cfg_Mode c = ModeAll \<or> cfg_Mode c = ModeController then
        if TrimSpace (cfg_NodeServerIDLabel c) = [] then Inl ELabelRequired
        else if TrimSpace (cfg_MorpheusURL c) = [] then Inl EURLRequired
        else if ParseRequestURI (cfg_MorpheusURL c) = None then Inl EURLInvalid
        else if TrimSpace (cfg_MorpheusToken c) = [] then Inl ETokenRequired
        else Inr ()
      else if cfg_Mode c = ModeNode then
        if TrimSpace (cfg_NodeID c) = [] then Inl ENodeIDRequired else Inr ()
      else Inl (EUnsupportedMode (cfg_Mode c)))"

section \<open>The command line and the environment\<close>

text \<open>
  A flag that has been parsed is its name and its value; \<open>flag.Parse\<close> assigns the values in
  order and stops the program on a name that is not defined (\<open>None\<close>). An environment variable
  that is not set reads as the empty string.
\<close>

fun set_flag :: "string \<times> string \<Rightarrow> Config \<Rightarrow> Config option" where
  "set_flag (name, v) c =
     (if name = ''endpoint'' then Some (c\<lparr>cfg_Endpoint := v\<rparr>)
      else if name = ''driver-name'' then Some (c\<lparr>cfg_DriverName := v\<rparr>)
      else if name = ''mode'' then Some (c\<lparr>cfg_Mode := v\<rparr>)
      else if name = ''node-id'' then Some (c\<lparr>cfg_NodeID := v\<rparr>)
      else if name = ''kubelet-root-path'' then Some (c\<lparr>cfg_KubeletRootPath := v\<rparr>)
      else if name = ''log-level'' then Some (c\<lparr>cfg_LogLevel := v\<rparr>)
      else if name = ''node-server-id-label'' then Some (c\<lparr>cfg_NodeServerIDLabel := v\<rparr>)
      else None)"

fun set_flags :: "(string \<times> string) list \<Rightarrow> Config \<Rightarrow> Config option" where
  "set_flags [] c = Some c"
| "set_flags (f # fs) c = (case set_flag f c of None \<Rightarrow> None | Some c' \<Rightarrow> set_flags fs c')"

definition from_env :: "string_map \<Rightarrow> Config \<Rightarrow> Config" where
  "from_env env c =
     (let label = map_get env ''MORPHEUS_NODE_SERVER_ID_LABEL'';
          c' = c\<lparr>cfg_MorpheusURL := map_get env ''MORPHEUS_URL'',
                 cfg_MorpheusToken := map_get env ''MORPHEUS_TOKEN'',
                 cfg_MorpheusCAFile := map_get env ''MORPHEUS_CA_FILE'',
                 cfg_MorpheusInsecureSkipVerify :=
                   ParseBool (map_get env ''MORPHEUS_INSECURE_SKIP_VERIFY''),
                 cfg_MorpheusDebug := ParseBool (map_get env ''MORPHEUS_DEBUG'')\<rparr>
      in if label \<noteq> [] then c'\<lparr>cfg_NodeServerIDLabel := label\<rparr> else c')"

text \<open>The configuration \<open>main\<close> starts the driver with, or the reason it stops before.\<close>

datatype startup = Usage | BadConfig config_error | Start Config

definition main_startup :: "(string \<times> string) list \<Rightarrow> string_map \<Rightarrow> startup" where
  "main_startup flags env =
     (case set_flags flags Default of
        None \<Rightarrow> Usage
      | Some c \<Rightarrow>
          let cfg = from_env env c
          in (case Config_Validate cfg of Inl e \<Rightarrow> BadConfig e | Inr _ \<Rightarrow> Start cfg))"

section \<open>What starts\<close>

text \<open>What \<open>Validate\<close> accepts.\<close>

lemma Config_Validate_iff:
  "Config_Validate c = Inr () \<longleftrightarrow>
     TrimSpace (cfg_Endpoint c) \<noteq> [] \<and> TrimSpace (cfg_DriverName c) \<noteq> []
   \<and> (cfg_Mode c \<in> {ModeAll, ModeController} \<and> TrimSpace (cfg_NodeServerIDLabel c) \<noteq> []
        \<and> TrimSpace (cfg_MorpheusURL c) \<noteq> [] \<and> ParseRequestURI (cfg_MorpheusURL c) \<noteq> None
        \<and> TrimSpace (cfg_MorpheusToken c) \<noteq> []
      \<or> cfg_Mode c = ModeNode \<and> TrimSpace (cfg_NodeID c) \<noteq> [])"
  by (auto simp: Config_Validate_def mode_defs)

lemma set_flag_Morpheus:
  "set_flag f c = Some c' \<Longrightarrow>
     cfg_MorpheusURL c' = cfg_MorpheusURL c \<and> cfg_MorpheusToken c' = cfg_MorpheusToken c"
  by (cases f) (auto split: if_splits)

lemma from_env_fields [simp]:
  "cfg_MorpheusURL (from_env env c) = map_get env ''MORPHEUS_URL''"
  "cfg_MorpheusToken (from_env env c) = map_get env ''MORPHEUS_TOKEN''"
  "cfg_Endpoint (from_env env c) = cfg_Endpoint c"
  "cfg_DriverName (from_env env c) = cfg_DriverName c"
  "cfg_Mode (from_env env c) = cfg_Mode c"
  "cfg_NodeID (from_env env c) = cfg_NodeID c"
  by (simp_all add: from_env_def Let_def)

text \<open>
  C24: the plugin starts only in one of its three modes and with an endpoint; with the controller
  service it has a label, a URL that parses and a token from the environment, and in node
  mode it has a node id.
\<close>

theorem main_starts_configured:
  assumes "main_startup flags env = Start cfg"
  shows "TrimSpace (cfg_Endpoint cfg) \<noteq> [] \<and> TrimSpace (cfg_DriverName cfg) \<noteq> []
    \<and> (cfg_Mode cfg \<in> {ModeAll, ModeController} \<and> TrimSpace (cfg_NodeServerIDLabel cfg) \<noteq> []
         \<and> ParseRequestURI (map_get env ''MORPHEUS_URL'') \<noteq> None
         \<and> cfg_MorpheusURL cfg = map_get env ''MORPHEUS_URL''
         \<and> TrimSpace (map_get env ''MORPHEUS_TOKEN'') \<noteq> []
       \<or> cfg_Mode cfg = ModeNode \<and> TrimSpace (cfg_NodeID cfg) \<noteq> [])"
proof -
  from assms obtain c where cfg: "cfg = from_env env c" and valid: "Config_Validate cfg = Inr ()"
    by (auto simp: main_startup_def Let_def split: option.splits sum.splits)
  then have "cfg_MorpheusURL cfg = map_get env ''MORPHEUS_URL''"
    "cfg_MorpheusToken cfg = map_get env ''MORPHEUS_TOKEN''" by simp_all
  with valid show ?thesis unfolding Config_Validate_iff by auto
qed

theorem main_starts_configured_witness:
  "\<exists>cfg. main_startup [(''mode'', ''node''), (''node-id'', ''n1'')] (\<lambda>_. None) = Start cfg
     \<and> TrimSpace (cfg_NodeID cfg) \<noteq> []"
proof -
  let ?run = "main_startup [(''mode'', ''node''), (''node-id'', ''n1'')] (\<lambda>_. None)"
  have "case ?run of Start cfg \<Rightarrow> cfg_Mode cfg = ''node'' | _ \<Rightarrow> False" by code_simp
  then obtain cfg where run: "?run = Start cfg" and "cfg_Mode cfg = ''node''"
    by (auto split: startup.splits)
  with main_starts_configured [OF run] show ?thesis by (simp add: mode_defs)
qed

end
