(* ===== verification/Driver_Types.thy ===== *)
theory Driver_Types
  imports Morpheus_Types Plugin_Config
begin

text \<open>
  What the CSI services of \<open>internal/driver\<close> are made of: the messages of the CSI specification
  as far as the code reads them, gRPC errors, the interfaces of the driver (\<open>client.go\<close>,
  \<open>node.go\<close>, \<open>node_resolver.go\<close>) and the driver itself (\<open>driver.go\<close>).
\<close>

section \<open>CSI messages\<close>

text \<open>
  The generated getters return a zero value on a nil message: \<open>None\<close> is a nil message, and an
  absent access mode reads as \<open>UNKNOWN\<close>.
\<close>

datatype access_mode =
    AM_UNKNOWN
  | AM_SINGLE_NODE_WRITER
  | AM_SINGLE_NODE_READER_ONLY
  | AM_MULTI_NODE_READER_ONLY
  | AM_MULTI_NODE_SINGLE_WRITER
  | AM_MULTI_NODE_MULTI_WRITER
  | AM_SINGLE_NODE_SINGLE_WRITER
  | AM_SINGLE_NODE_MULTI_WRITER
  | AM_OTHER int

text \<open>The access type of a capability: not set, a block device, or a mount with a file system type.\<close>

datatype access_type = NoAccessType | BlockVolume | MountVolume string

record VolumeCapability =
  vc_access_type :: access_type
  vc_access_mode :: "access_mode option"

record CapacityRange =
  cr_required_bytes :: int64
  cr_limit_bytes :: int64

record CreateVolumeRequest =
  cv_name :: string
  cv_capacity_range :: "CapacityRange option"
  cv_volume_capabilities :: "VolumeCapability option list"
  cv_parameters :: string_map

record CsiVolume =
  csi_volume_id :: string
  csi_capacity_bytes :: int64
  csi_volume_context :: string_map

record ControllerPublishVolumeRequest =
  cp_volume_id :: string
  cp_node_id :: string
  cp_volume_context :: string_map

record ControllerUnpublishVolumeRequest =
  cu_volume_id :: string
  cu_node_id :: string

record ControllerExpandVolumeRequest =
  ce_volume_id :: string
  ce_capacity_range :: "CapacityRange option"
  ce_volume_capability :: "VolumeCapability option"

record ControllerExpandVolumeResponse =
  cer_capacity_bytes :: int64
  cer_node_expansion_required :: bool

record NodeStageVolumeRequest =
  ns_volume_id :: string
  ns_publish_context :: string_map
  ns_staging_target_path :: string
  ns_volume_capability :: "VolumeCapability option"
  ns_volume_context :: string_map

record NodeUnstageVolumeRequest =
  nu_volume_id :: string
  nu_staging_target_path :: string

record NodePublishVolumeRequest =
  np_volume_id :: string
  np_staging_target_path :: string
  np_target_path :: string
  np_volume_capability :: "VolumeCapability option"
  np_readonly :: bool

record NodeUnpublishVolumeRequest =
  nup_volume_id :: string
  nup_target_path :: string

record NodeExpandVolumeRequest =
  ne_volume_id :: string
  ne_volume_path :: string
  ne_capacity_range :: "CapacityRange option"
  ne_volume_capability :: "VolumeCapability option"

definition GetMount :: "VolumeCapability \<Rightarrow> string option" where
  "GetMount c = (case vc_access_type c of MountVolume fs \<Rightarrow> Some fs | _ \<Rightarrow> None)"

definition GetMode :: "VolumeCapability \<Rightarrow> access_mode" where
  "GetMode c = (case vc_access_mode c of None \<Rightarrow> AM_UNKNOWN | Some m \<Rightarrow> m)"

section \<open>gRPC errors\<close>

datatype rpc_code = InvalidArgument | FailedPrecondition | Internal | Unavailable

text \<open>
  The text of a status error: a fixed message, the message of a handle error, the error an
  interface returned, two of them, or a format with its arguments around another cause.
\<close>

datatype 'e cause =
    Message string
  | HandleError client_error
  | Cause 'e
  | BothFailed 'e 'e
  | Wrapped string "string list" "'e cause"

text \<open>\<open>Panic\<close> is a nil pointer dereference: the handler does not return.\<close>

datatype 'e rpc_error = Status rpc_code "'e cause" | Panic

type_synonym ('s, 'e, 'a) rpc = "('s, 'e rpc_error, 'a) io"

definition deref :: "'a option \<Rightarrow> ('s, 'e, 'a) rpc" where
  "deref p = (case p of None \<Rightarrow> throwE Panic | Some x \<Rightarrow> retE x)"

definition wrap_error :: "('e \<Rightarrow> 'f) \<Rightarrow> ('s, 'e, 'a) io \<Rightarrow> ('s, 'f, 'a) io" where
  "wrap_error f m = (\<lambda>s. case m s of (Inl e, s') \<Rightarrow> (Inl (f e), s') | (Inr x, s') \<Rightarrow> (Inr x, s'))"

text \<open>\<open>if err := m(); err != nil { return nil, status.Errorf(code, format, args, err) }\<close>.\<close>

definition failing ::
  "rpc_code \<Rightarrow> ('e cause \<Rightarrow> 'e cause) \<Rightarrow> ('s, 'e, 'a) io \<Rightarrow> ('s, 'e, 'a) rpc" where
  "failing code f m = wrap_error (\<lambda>e. Status code (f (Cause e))) m"

definition refuse :: "rpc_code \<Rightarrow> string \<Rightarrow> ('s, 'e, 'a) rpc" where
  "refuse code message = throwE (Status code (Message message))"

section \<open>Interfaces\<close>

text \<open>
  A Go interface value is a record of its methods. Methods thread the state \<open>'s\<close> of whatever is
  behind them and fail with an error \<open>'e\<close>; a pointer result is an option. Both interfaces of the
  Morpheus client are also asked whether they can look up nodes (a type assertion), so that
  method is optional.
\<close>

type_synonym ('s, 'e) node_lookup = "string \<Rightarrow> ('s, 'e, string) io"

record ('s, 'e) ServerVolumeClient =
  svc_EnsureVolume :: "ResizeVolumeRequest \<Rightarrow> ('s, 'e, StorageVolume option) io"
  svc_DeleteVolume :: "VolumeRef \<Rightarrow> ('s, 'e, unit) io"
  svc_MoveVolume :: "MoveVolumeRequest \<Rightarrow> ('s, 'e, StorageVolume option) io"
  svc_DetachVolume :: "VolumeRef \<Rightarrow> ('s, 'e, unit) io"
  svc_ExpandVolume :: "ResizeVolumeRequest \<Rightarrow> ('s, 'e, StorageVolume option) io"
  svc_GetVolume :: "VolumeRef \<Rightarrow> ('s, 'e, StorageVolume option) io"
  svc_FindVolume :: "string \<Rightarrow> string list \<Rightarrow> ('s, 'e, VolumeRef \<times> StorageVolume option) io"
  svc_lookup :: "('s, 'e) node_lookup option"

record ('s, 'e) StorageDiscoveryClient =
  sdc_ValidateStorageClass :: "string_map \<Rightarrow> ('s, 'e, unit) io"
  sdc_lookup :: "('s, 'e) node_lookup option"

record ('s, 'e) NodeServerResolver =
  nsr_ServerIDForNode :: "string \<Rightarrow> ('s, 'e, string) io"
  nsr_ServerIDs :: "('s, 'e, string list) io"

record ('n, 'm) Mounter =
  mt_Stage :: "string \<Rightarrow> string \<Rightarrow> string \<Rightarrow> bool \<Rightarrow> ('n, 'm, unit) io"
  mt_BindMount :: "string \<Rightarrow> string \<Rightarrow> bool \<Rightarrow> ('n, 'm, unit) io"
  mt_MountedSource :: "string \<Rightarrow> ('n, 'm, string) io"
  mt_Unmount :: "string \<Rightarrow> ('n, 'm, unit) io"
  mt_ExpandFilesystem :: "string \<Rightarrow> string \<Rightarrow> ('n, 'm, unit) io"
  mt_RescanDevices :: "('n, 'm, unit) io"
  mt_DiscoverDevicePath :: "int64 \<Rightarrow> ('n, 'm, string) io"
  mt_RemoveDevice :: "string \<Rightarrow> ('n, 'm, unit) io"
  mt_RecordStagedDevice :: "string \<Rightarrow> string \<Rightarrow> string \<Rightarrow> ('n, 'm, unit) io"
  mt_StagedDevicePath :: "string \<Rightarrow> ('n, 'm, string) io"
  mt_ForgetStagedDevice :: "string \<Rightarrow> ('n, 'm, unit) io"

section \<open>The driver\<close>

text \<open>
  The controller's interfaces work on a state \<open>'s\<close> with errors \<open>'e\<close>, the mounter on a state \<open>'n\<close>
  with errors \<open>'m\<close>: no handler uses both. \<open>None\<close> is a nil interface.
\<close>

record ('s, 'e, 'n, 'm) Driver =
  dr_cfg :: Config
  dr_volumes :: "('s, 'e) ServerVolumeClient option"
  dr_discovery :: "('s, 'e) StorageDiscoveryClient option"
  dr_mounter :: "('n, 'm) Mounter"
  dr_nodes :: "('s, 'e) NodeServerResolver option"

section \<open>Capacity and capabilities\<close>

definition gibibyte :: int64 where "gibibyte = 1024 * 1024 * 1024"

definition requestedSizeGiB :: "CapacityRange option \<Rightarrow> string + int64" where
  "requestedSizeGiB capacity =
     (case capacity of
        None \<Rightarrow> Inl ''capacity range is required''
      | Some cr \<Rightarrow>
          let required = cr_required_bytes cr; limit = cr_limit_bytes cr
          in if sint required \<le> 0 then Inl ''required capacity must be greater than zero''
             else if 0 < sint limit \<and> sint limit < sint required
             then Inl ''required capacity exceeds limit capacity''
             else Inr (int64_of_float64
                    (ceil_float64 (float64_div_pow2 (float64_of_int64 required) 30))))"

fun validateVolumeCapabilities_loop :: "VolumeCapability option list \<Rightarrow> string + unit" where
  "validateVolumeCapabilities_loop [] = Inr ()"
| "validateVolumeCapabilities_loop (None # rest) = Inl ''volume capability cannot be nil''"
| "validateVolumeCapabilities_loop (Some c # rest) =
     (if vc_access_type c = BlockVolume then Inl ''raw block volumes are not supported''
      else if GetMount c = None then Inl ''mount volume capability is required''
      else if GetMode c \<in> {AM_SINGLE_NODE_WRITER, AM_SINGLE_NODE_SINGLE_WRITER, AM_UNKNOWN}
      then validateVolumeCapabilities_loop rest
      else Inl ''only single-node writer access mode is supported'')"

definition validateVolumeCapabilities :: "VolumeCapability option list \<Rightarrow> string + unit" where
  "validateVolumeCapabilities capabilities =
     (if capabilities = [] then Inl ''at least one volume capability is required''
      else validateVolumeCapabilities_loop capabilities)"

end
