(* ===== verification/Controller.thy ===== *)
theory Controller
  imports Driver_Types
begin

text \<open>
  The controller service (\<open>internal/driver/controller.go\<close>): one definition per handler and helper,
  over the driver's interfaces.
\<close>

section \<open>Helpers\<close>

text \<open>The loop of \<open>uniqueStrings\<close>, over the values seen and the result so far.\<close>

fun uniqueStrings_loop :: "string set \<Rightarrow> string list \<Rightarrow> string list \<Rightarrow> string list" where
  "uniqueStrings_loop seen result [] = result"
| "uniqueStrings_loop seen result (raw # values) =
     (let v = TrimSpace raw in
      if v = [] then uniqueStrings_loop seen result values
      else if v \<in> seen then uniqueStrings_loop seen result values
      else uniqueStrings_loop (insert v seen) (result @ [v]) values)"

definition uniqueStrings :: "string list \<Rightarrow> string list" where
  "uniqueStrings values = uniqueStrings_loop {} [] values"

text \<open>What it means: the trimmed values that are not blank, each at its first occurrence.\<close>

lemma uniqueStrings_loop_eq:
  "uniqueStrings_loop seen result vs =
     result @ first_occurrences (filter (\<lambda>v. v \<notin> seen) (nonblank vs))"
proof (induction seen result vs rule: uniqueStrings_loop.induct)
  case (2 seen result raw "values")
  then show ?case by (auto simp: nonblank_def Let_def first_occurrences_Cons conj_ac)
qed (simp add: nonblank_def)

lemma uniqueStrings_eq: "uniqueStrings vs = first_occurrences (nonblank vs)"
  by (simp add: uniqueStrings_def uniqueStrings_loop_eq)

definition candidateServerIDs ::
  "('s, 'e, 'n, 'm) Driver \<Rightarrow> string list \<Rightarrow> ('s, 'e, string list) rpc" where
  "candidateServerIDs d extra =
     (case dr_nodes d of
        None \<Rightarrow> retE (uniqueStrings extra)
      | Some nodes \<Rightarrow>
          tryE (nsr_ServerIDs nodes)
            (\<lambda>r. case r of
                   Inr serverIDs \<Rightarrow> retE (uniqueStrings (serverIDs @ extra))
                 | Inl _ \<Rightarrow> retE (uniqueStrings extra)))"

definition morpheusNodeLookup :: "('s, 'e, 'n, 'm) Driver \<Rightarrow> ('s, 'e) node_lookup option" where
  "morpheusNodeLookup d =
     (case Option.bind (dr_discovery d) sdc_lookup of
        Some lookup \<Rightarrow> Some lookup
      | None \<Rightarrow> Option.bind (dr_volumes d) svc_lookup)"

definition no_resolver_message :: string where
  "no_resolver_message =
     ''Kubernetes node server resolver and Morpheus node lookup are not configured''"

definition fallback_server ::
  "string \<Rightarrow> 'e cause option \<Rightarrow> ('s, 'e cause, string) io" where
  "fallback_server fallback resolverErr =
     (if TrimSpace fallback \<noteq> [] then retE (TrimSpace fallback)
      else case resolverErr of
             Some e \<Rightarrow> throwE e
           | None \<Rightarrow> throwE (Message no_resolver_message))"

definition lookup_server ::
  "('s, 'e, 'n, 'm) Driver \<Rightarrow> string \<Rightarrow> string \<Rightarrow> 'e option \<Rightarrow> ('s, 'e cause, string) io" where
  "lookup_server d nodeID fallback resolverErr =
     (case morpheusNodeLookup d of
        None \<Rightarrow> fallback_server fallback (map_option Cause resolverErr)
      | Some lookup \<Rightarrow>
          tryE (lookup nodeID)
            (\<lambda>r. case r of
                   Inr serverID \<Rightarrow> retE serverID
                 | Inl e \<Rightarrow>
                     (case resolverErr of
                        Some e0 \<Rightarrow> throwE (BothFailed e0 e)
                      | None \<Rightarrow> fallback_server fallback (Some (Cause e)))))"

definition serverIDForNode ::
  "('s, 'e, 'n, 'm) Driver \<Rightarrow> string \<Rightarrow> string \<Rightarrow> ('s, 'e cause, string) io" where
  "serverIDForNode d nodeID fallback =
     (case dr_nodes d of
        None \<Rightarrow> lookup_server d nodeID fallback None
      | Some nodes \<Rightarrow>
          tryE (nsr_ServerIDForNode nodes nodeID)
            (\<lambda>r. case r of
                   Inr serverID \<Rightarrow> retE serverID
                 | Inl e \<Rightarrow> lookup_server d nodeID fallback (Some e)))"

definition not_configured :: "('s, 'e, 'a) rpc" where
  "not_configured = refuse Unavailable ''Morpheus controller client is not configured''"

definition decode_handle :: "string \<Rightarrow> ('s, 'e, VolumeRef) rpc" where
  "decode_handle volumeID =
     liftE (map_sum (\<lambda>e. Status InvalidArgument (HandleError e)) id (DecodeVolumeID volumeID))"

definition check_text :: "string + 'a \<Rightarrow> ('s, 'e, 'a) rpc" where
  "check_text r = liftE (map_sum (\<lambda>m. Status InvalidArgument (Message m)) id r)"

section \<open>Capabilities\<close>

datatype controller_rpc = CREATE_DELETE_VOLUME | PUBLISH_UNPUBLISH_VOLUME | EXPAND_VOLUME

definition Driver_ControllerGetCapabilities :: "controller_rpc list" where
  "Driver_ControllerGetCapabilities =
     [CREATE_DELETE_VOLUME, PUBLISH_UNPUBLISH_VOLUME, EXPAND_VOLUME]"

section \<open>Handlers\<close>

definition fstype_key :: string where "fstype_key = ''csi.storage.k8s.io/fstype''"

definition create_context :: "string \<Rightarrow> int64 \<Rightarrow> string_map \<Rightarrow> StorageVolume \<Rightarrow> string_map" where
  "create_context serverID sizeGiB parameters volume =
     (let c0 = [VolumeContextServerID \<mapsto> serverID, VolumeContextVolumeID \<mapsto> vol_ID volume,
                VolumeContextVolumeName \<mapsto> vol_Name volume,
                VolumeContextSizeGiB \<mapsto> FormatInt sizeGiB];
          c1 = (if vol_DevicePath volume \<noteq> []
                then c0(VolumeContextDevicePath \<mapsto> vol_DevicePath volume) else c0);
          fsType = map_get parameters fstype_key
      in if fsType \<noteq> [] then c1(fstype_key \<mapsto> fsType) else c1)"

definition Driver_CreateVolume ::
  "('s, 'e, 'n, 'm) Driver \<Rightarrow> CreateVolumeRequest \<Rightarrow> ('s, 'e, CsiVolume) rpc" where
  "Driver_CreateVolume d req =
     (case (dr_volumes d, dr_discovery d) of
        (Some volumes, Some discovery) \<Rightarrow>
          let name = TrimSpace (cv_name req) in
          if name = [] then refuse InvalidArgument ''volume name is required''
          else
            bindE (check_text (validateVolumeCapabilities (cv_volume_capabilities req))) (\<lambda>_.
            bindE (failing InvalidArgument id
                (sdc_ValidateStorageClass discovery (cv_parameters req))) (\<lambda>_.
            bindE (check_text (requestedSizeGiB (cv_capacity_range req))) (\<lambda>sizeGiB.
            bindE (failing Internal (Wrapped ''create Morpheus storage volume: %v'' [])
                (svc_EnsureVolume volumes
                   \<lparr>rr_Name = name, rr_SizeGiB = sizeGiB, rr_StorageClass = cv_parameters req,
                    rr_VolumeID = []\<rparr>)) (\<lambda>result.
            bindE (deref result) (\<lambda>volume.
              let serverID = StorageClassServerID (cv_parameters req) in
              retE \<lparr>csi_volume_id = EncodeVolumeID serverID (vol_ID volume),
                    csi_capacity_bytes = sizeGiB * gibibyte,
                    csi_volume_context =
                      create_context serverID sizeGiB (cv_parameters req) volume\<rparr>)))))
      | _ \<Rightarrow> not_configured)"

text \<open>Where a volume is now: where it is found, or else where its handle says.\<close>

definition current_ref ::
  "('s, 'e, 'n, 'm) Driver \<Rightarrow> ('s, 'e) ServerVolumeClient \<Rightarrow> VolumeRef \<Rightarrow> ('s, 'e, VolumeRef) rpc" where
  "current_ref d volumes ref =
     bindE (candidateServerIDs d [ref_ServerID ref]) (\<lambda>candidates.
       if candidates = [] then retE ref
       else
         tryE (svc_FindVolume volumes (ref_VolumeID ref) candidates)
           (\<lambda>r. case r of Inr (foundRef, _) \<Rightarrow> retE foundRef | Inl _ \<Rightarrow> retE ref))"

definition Driver_DeleteVolume ::
  "('s, 'e, 'n, 'm) Driver \<Rightarrow> string \<Rightarrow> ('s, 'e, unit) rpc" where
  "Driver_DeleteVolume d volumeID =
     (case dr_volumes d of
        None \<Rightarrow> not_configured
      | Some volumes \<Rightarrow>
          bindE (decode_handle volumeID) (\<lambda>ref.
          bindE (current_ref d volumes ref) (\<lambda>currentRef.
            failing Internal (Wrapped ''delete Morpheus server volume: %v'' [])
              (svc_DeleteVolume volumes currentRef))))"

definition node_server ::
  "('s, 'e, 'n, 'm) Driver \<Rightarrow> string \<Rightarrow> VolumeRef \<Rightarrow> ('s, 'e, string) rpc" where
  \<comment> \<open>the node id check and the server lookup the publish handlers share\<close>
  "node_server d nodeID ref =
     (if TrimSpace nodeID = [] then refuse InvalidArgument ''node id is required''
      else wrap_error (Status FailedPrecondition) (serverIDForNode d nodeID (ref_ServerID ref)))"

definition publish_context ::
  "string \<Rightarrow> VolumeRef \<Rightarrow> string_map \<Rightarrow> StorageVolume \<Rightarrow> string_map" where
  "publish_context serverID ref volumeContext volume =
     (let c0 = [VolumeContextServerID \<mapsto> serverID, VolumeContextVolumeID \<mapsto> ref_VolumeID ref,
                VolumeContextVolumeName \<mapsto> vol_Name volume];
          sizeGiB = TrimSpace (map_get volumeContext VolumeContextSizeGiB);
          c1 = (if sizeGiB \<noteq> [] then c0(VolumeContextSizeGiB \<mapsto> sizeGiB) else c0)
      in if vol_DevicePath volume \<noteq> [] then c1(VolumeContextDevicePath \<mapsto> vol_DevicePath volume)
         else c1)"

definition Driver_ControllerPublishVolume ::
  "('s, 'e, 'n, 'm) Driver \<Rightarrow> ControllerPublishVolumeRequest \<Rightarrow> ('s, 'e, string_map) rpc" where
  "Driver_ControllerPublishVolume d req =
     (case dr_volumes d of
        None \<Rightarrow> not_configured
      | Some volumes \<Rightarrow>
          bindE (decode_handle (cp_volume_id req)) (\<lambda>ref.
          bindE (node_server d (cp_node_id req) ref) (\<lambda>targetServerID.
          bindE (candidateServerIDs d [ref_ServerID ref, targetServerID]) (\<lambda>candidates.
          bindE (failing Internal
              (Wrapped ''attach Morpheus server volume to node %q: %v'' [cp_node_id req])
              (svc_MoveVolume volumes
                 \<lparr>mv_VolumeID = ref_VolumeID ref, mv_SourceServerID = ref_ServerID ref,
                  mv_TargetServerID = targetServerID, mv_CandidateServerIDs = candidates\<rparr>))
            (\<lambda>result.
          bindE (deref result) (\<lambda>volume.
            retE (publish_context targetServerID ref (cp_volume_context req) volume)))))))"

definition Driver_ControllerUnpublishVolume ::
  "('s, 'e, 'n, 'm) Driver \<Rightarrow> ControllerUnpublishVolumeRequest \<Rightarrow> ('s, 'e, unit) rpc" where
  "Driver_ControllerUnpublishVolume d req =
     (case dr_volumes d of
        None \<Rightarrow> not_configured
      | Some volumes \<Rightarrow>
          bindE (decode_handle (cu_volume_id req)) (\<lambda>ref.
          bindE (node_server d (cu_node_id req) ref) (\<lambda>serverID.
            failing Internal
              (Wrapped ''detach Morpheus server volume from node %q: %v'' [cu_node_id req])
              (svc_DetachVolume volumes
                 \<lparr>ref_ServerID = serverID, ref_VolumeID = ref_VolumeID ref\<rparr>))))"

definition Driver_ControllerExpandVolume ::
  "('s, 'e, 'n, 'm) Driver \<Rightarrow> ControllerExpandVolumeRequest \<Rightarrow>
   ('s, 'e, ControllerExpandVolumeResponse) rpc" where
  "Driver_ControllerExpandVolume d req =
     (case dr_volumes d of
        None \<Rightarrow> not_configured
      | Some volumes \<Rightarrow>
          bindE (decode_handle (ce_volume_id req)) (\<lambda>ref.
          bindE (case ce_volume_capability req of
                   None \<Rightarrow> retE ()
                 | Some c \<Rightarrow> check_text (validateVolumeCapabilities [Some c])) (\<lambda>_.
          bindE (check_text (requestedSizeGiB (ce_capacity_range req))) (\<lambda>sizeGiB.
          bindE (failing Internal (Wrapped ''expand Morpheus server volume: %v'' [])
              (svc_ExpandVolume volumes
                 \<lparr>rr_Name = [], rr_SizeGiB = sizeGiB,
                  rr_StorageClass = [ParamServerID \<mapsto> ref_ServerID ref],
                  rr_VolumeID = ref_VolumeID ref\<rparr>)) (\<lambda>result.
          bindE (deref result) (\<lambda>volume.
            retE \<lparr>cer_capacity_bytes = vol_SizeGiB volume * gibibyte,
                  cer_node_expansion_required = True\<rparr>))))))"

end
