(* ===== verification/Driver_Interfaces.thy ===== *)
theory Driver_Interfaces
  imports Controller
begin

text \<open>
  What the controller relies on of its interfaces, as locales: the Morpheus client behind
  \<open>ServerVolumeClient\<close> and \<open>StorageDiscoveryClient\<close>, the resolver behind \<open>NodeServerResolver\<close>. The
  lemmas about the handlers are proved here once from these contracts; the theory
  \<open>Controller_Backends\<close> interprets the locales on the models of the client and of the resolver.
\<close>

lemma wrap_error_apply [simp]:
  "m s = (Inl e, s') \<Longrightarrow> wrap_error f m s = (Inl (f e), s')"
  "m s = (Inr x, s') \<Longrightarrow> wrap_error f m s = (Inr x, s')"
  by (simp_all add: wrap_error_def)

lemma wrap_error_Inr: "wrap_error f m s = (Inr x, s') \<longleftrightarrow> m s = (Inr x, s')"
  by (auto simp: wrap_error_def split: prod.splits sum.splits)

lemma wrap_error_Inl: "wrap_error f m s = (Inl e, s') \<longleftrightarrow> (\<exists>e'. m s = (Inl e', s') \<and> e = f e')"
  by (auto simp: wrap_error_def split: prod.splits sum.splits)

lemma failing_Inr: "failing code f m s = (Inr x, s') \<longleftrightarrow> m s = (Inr x, s')"
  by (simp add: failing_def wrap_error_Inr)

lemma failing_Inl:
  "failing code f m s = (Inl e, s') \<longleftrightarrow> (\<exists>e'. m s = (Inl e', s') \<and> e = Status code (f (Cause e')))"
  by (simp add: failing_def wrap_error_Inl)

lemma refuse_apply [simp]: "refuse code m s = (Inl (Status code (Message m)), s)"
  by (simp add: refuse_def)

lemma emits_wrap_error [emits_intros]: "emits P m \<Longrightarrow> emits P (wrap_error f m)"
  unfolding emits_def wrap_error_def by (simp add: case_prod_unfold split: sum.split)

lemma emits_failing [emits_intros]: "emits P m \<Longrightarrow> emits P (failing code f m)"
  unfolding failing_def by (rule emits_wrap_error)

lemma emits_refuse [emits_intros, simp]: "emits P (refuse code m)"
  by (simp add: refuse_def)

lemma deref_simps [simp]: "deref (Some x) = retE x" "deref None = throwE Panic"
  by (simp_all add: deref_def)

lemma check_text_cases:
  assumes "check_text t s = (r, s')"
  obtains (bad) m where "t = Inl m" "r = Inl (Status InvalidArgument (Message m))" "s' = s"
  | (good) x where "t = Inr x" "r = Inr x" "s' = s"
  using assms by (cases t) (auto simp: check_text_def)

lemma check_text_Inr: "check_text t s = (Inr x, s') \<longleftrightarrow> t = Inr x \<and> s' = s"
  by (cases t) (auto simp: check_text_def)

lemma deref_Inr: "deref p s = (Inr x, s') \<longleftrightarrow> p = Some x \<and> s' = s"
  by (cases p) auto

lemma decode_handle_Inr: "decode_handle i s = (Inr ref, s') \<longleftrightarrow> DecodeVolumeID i = Inr ref \<and> s' = s"
  by (cases "DecodeVolumeID i") (auto simp: decode_handle_def)

lemmas step_Inr = check_text_Inr deref_Inr decode_handle_Inr failing_Inr wrap_error_Inr

lemma decode_handle_cases:
  assumes "decode_handle i s = (r, s')"
  obtains (bad) e where "DecodeVolumeID i = Inl e" "r = Inl (Status InvalidArgument (HandleError e))"
      "s' = s"
  | (good) ref where "DecodeVolumeID i = Inr ref" "r = Inr ref" "s' = s"
  using assms by (cases "DecodeVolumeID i") (auto simp: decode_handle_def)

lemma DecodeVolumeID_ok:
  "DecodeVolumeID i = Inr ref \<Longrightarrow>
     ref_ServerID ref \<noteq> [] \<and> ref_VolumeID ref \<noteq> []
   \<and> TrimSpace (ref_ServerID ref) = ref_ServerID ref \<and> TrimSpace (ref_VolumeID ref) = ref_VolumeID ref"
  by (auto simp: DecodeVolumeID_def split: list.splits if_splits)

section \<open>Errors that cannot happen\<close>

text \<open>
  \<open>avoids P m\<close>: \<open>m\<close> never fails with an error in \<open>P\<close>; \<open>no_panic\<close>: it never dereferences nil;
  \<open>no_invalid\<close>: it never refuses its argument.
\<close>

definition avoids :: "('e rpc_error \<Rightarrow> bool) \<Rightarrow> ('s, 'e, 'a) rpc \<Rightarrow> bool" where
  "avoids P m \<longleftrightarrow> (\<forall>s e. fst (m s) = Inl e \<longrightarrow> \<not> P e)"

fun is_panic :: "'e rpc_error \<Rightarrow> bool" where
  "is_panic Panic \<longleftrightarrow> True"
| "is_panic (Status code c) \<longleftrightarrow> False"

fun is_invalid :: "'e rpc_error \<Rightarrow> bool" where
  "is_invalid Panic \<longleftrightarrow> False"
| "is_invalid (Status code c) \<longleftrightarrow> code = InvalidArgument"

abbreviation no_panic :: "('s, 'e, 'a) rpc \<Rightarrow> bool" where "no_panic \<equiv> avoids is_panic"
abbreviation no_invalid :: "('s, 'e, 'a) rpc \<Rightarrow> bool" where "no_invalid \<equiv> avoids is_invalid"

named_theorems avoids_intros

lemma avoidsI: "(\<And>s e s'. m s = (Inl e, s') \<Longrightarrow> \<not> P e) \<Longrightarrow> avoids P m"
  unfolding avoids_def by (metis prod.collapse)

lemma avoidsD: "avoids P m \<Longrightarrow> m s = (Inl e, s') \<Longrightarrow> \<not> P e"
  unfolding avoids_def by (metis fst_conv)

lemma avoids_retE [avoids_intros]: "avoids P (retE x)"
  by (rule avoidsI) simp

lemma avoids_refuse [avoids_intros]: "\<not> P (Status code (Message m)) \<Longrightarrow> avoids P (refuse code m)"
  by (rule avoidsI) auto

lemma avoids_not_configured [avoids_intros]: "no_panic not_configured" "no_invalid not_configured"
  by (simp_all add: not_configured_def avoids_refuse)

lemma avoids_failing [avoids_intros]:
  "(\<And>c. \<not> P (Status code c)) \<Longrightarrow> avoids P (failing code f m)"
  by (rule avoidsI) (auto simp: failing_Inl)

lemma avoids_wrap_Status [avoids_intros]:
  "(\<And>c. \<not> P (Status code c)) \<Longrightarrow> avoids P (wrap_error (Status code) m)"
  by (rule avoidsI) (auto simp: wrap_error_Inl)

lemma no_panic_check_text [avoids_intros]: "no_panic (check_text t)"
  by (rule avoidsI) (auto elim!: check_text_cases)

lemma no_panic_decode_handle [avoids_intros]: "no_panic (decode_handle i)"
  by (rule avoidsI) (auto elim!: decode_handle_cases)

lemma avoids_bindE [avoids_intros]:
  assumes m: "avoids P m" and f: "\<And>x. avoids P (f x)"
  shows "avoids P (bindE m f)"
  by (rule avoidsI) (auto elim!: bindE_cases dest: avoidsD [OF m] avoidsD [OF f])

lemma avoids_tryE [avoids_intros]: "(\<And>x. avoids P (f x)) \<Longrightarrow> avoids P (tryE m f)"
  by (rule avoidsI) (auto elim!: tryE_cases dest: avoidsD)

lemma avoids_if [avoids_intros]: "avoids P m \<Longrightarrow> avoids P n \<Longrightarrow> avoids P (if b then m else n)"
  by simp

text \<open>A result pointer that is never nil on success may be dereferenced.\<close>

lemma avoids_deref_after:
  assumes m: "\<And>s r s'. m s = (Inr r, s') \<Longrightarrow> r \<noteq> None" and f: "\<And>v. avoids P (f v)"
    and code: "\<And>c. \<not> P (Status code c)"
  shows "avoids P (bindE (failing code g m) (\<lambda>r. bindE (deref r) f))"
proof (rule avoidsI)
  fix s e s'
  assume "bindE (failing code g m) (\<lambda>r. bindE (deref r) f) s = (Inl e, s')"
  then show "\<not> P e"
  proof (cases rule: bindE_cases)
    case (fails e')
    then show ?thesis using code by (auto simp: failing_Inl)
  next
    case (goes_on r t)
    then have "r \<noteq> None" using m by (simp only: failing_Inr) blast
    then obtain v where "r = Some v" by blast
    with goes_on f show ?thesis by (auto dest: avoidsD)
  qed
qed

lemma no_panic_deref_after:
  assumes "\<And>s r s'. m s = (Inr r, s') \<Longrightarrow> r \<noteq> None" and "\<And>v. no_panic (f v)"
  shows "no_panic (bindE (failing code g m) (\<lambda>r. bindE (deref r) f))"
  using assms by (rule avoids_deref_after) simp_all

lemma quiet_result:
  assumes "\<And>s r s'. m s = (Inr r, s') \<Longrightarrow> r \<noteq> None" and "code \<noteq> InvalidArgument"
  shows "no_invalid (bindE (failing code g m) (\<lambda>r. bindE (deref r) (\<lambda>v. retE (h v))))"
  using assms by (intro avoids_deref_after avoids_intros) auto

lemma avoids_candidates [avoids_intros]: "avoids P (candidateServerIDs d extra)"
  unfolding candidateServerIDs_def
  by (auto intro!: avoids_intros split: option.split sum.split)

lemma avoids_current_ref [avoids_intros]: "avoids P (current_ref d volumes ref)"
  unfolding current_ref_def
  by (auto intro!: avoids_intros split: option.split sum.split)

lemma no_panic_node_server [avoids_intros]: "no_panic (node_server d n ref)"
  unfolding node_server_def by (auto intro!: avoids_intros)

section \<open>Refusing an argument has no effect\<close>

definition keeps_state :: "('s, 'e, 'a) rpc \<Rightarrow> bool" where
  "keeps_state m \<longleftrightarrow> (\<forall>s. snd (m s) = s)"

definition quiet_refusal :: "('s, 'e, 'a) rpc \<Rightarrow> bool" where
  "quiet_refusal m \<longleftrightarrow> (\<forall>s c s'. m s = (Inl (Status InvalidArgument c), s') \<longrightarrow> s' = s)"

lemma keeps_state_check_text [simp]: "keeps_state (check_text t)"
  by (simp add: keeps_state_def check_text_def)

lemma keeps_state_decode_handle [simp]: "keeps_state (decode_handle i)"
  by (simp add: keeps_state_def decode_handle_def)

lemma quiet_refusal_bindE:
  assumes m: "keeps_state m" and f: "\<And>x. quiet_refusal (f x)"
  shows "quiet_refusal (bindE m f)"
  using f unfolding quiet_refusal_def
  by (auto elim!: bindE_cases) (metis m keeps_state_def snd_conv)+

lemma quiet_refusal_no_invalid: "no_invalid m \<Longrightarrow> quiet_refusal m"
  unfolding quiet_refusal_def by (auto dest: avoidsD)

lemma quiet_refusal_refuse: "quiet_refusal (refuse code m)"
  by (simp add: quiet_refusal_def)

lemma quiet_refusal_if: "quiet_refusal m \<Longrightarrow> quiet_refusal n \<Longrightarrow> quiet_refusal (if b then m else n)"
  by simp

lemma quiet_refusal_not_configured: "quiet_refusal not_configured"
  by (simp add: not_configured_def quiet_refusal_refuse)

lemma no_invalid_wrap_node [avoids_intros]:
  "no_invalid (wrap_error (Status FailedPrecondition) m)"
  by (auto intro!: avoids_intros)

lemma quiet_refusal_node_server:
  assumes "\<And>x. no_invalid (f x)"
  shows "quiet_refusal (bindE (node_server d n ref) f)"
proof (cases "TrimSpace n = []")
  case True
  then show ?thesis
    by (auto simp: node_server_def quiet_refusal_def bindE_eq)
next
  case False
  then show ?thesis using assms
    by (auto simp: node_server_def intro!: quiet_refusal_no_invalid avoids_intros)
qed

section \<open>Contracts\<close>

locale server_volumes =
  fixes svc :: "('s, 'e) ServerVolumeClient"
  assumes ensured: "svc_EnsureVolume svc req s = (Inr r, s') \<Longrightarrow> \<exists>v. r = Some v \<and> vol_ID v \<noteq> []"
    and moved: "svc_MoveVolume svc mv s = (Inr r, s') \<Longrightarrow> r \<noteq> None"
    and expanded: "svc_ExpandVolume svc req s = (Inr r, s') \<Longrightarrow> r \<noteq> None"
    and found: "svc_FindVolume svc i ids s = (Inr (ref, r), s') \<Longrightarrow>
      ref_ServerID ref \<in> set (nonblank ids) \<and> ref_VolumeID ref = TrimSpace i"
begin

lemma publish_no_panic:
  assumes "dr_volumes d = Some svc"
  shows "no_panic (Driver_ControllerPublishVolume d req)"
  unfolding Driver_ControllerPublishVolume_def using assms
  by (auto intro!: avoids_intros no_panic_deref_after dest: moved)

lemma unpublish_no_panic: "no_panic (Driver_ControllerUnpublishVolume d req)"
  unfolding Driver_ControllerUnpublishVolume_def
  by (auto intro!: avoids_intros split: option.split)

lemma expand_no_panic:
  assumes "dr_volumes d = Some svc"
  shows "no_panic (Driver_ControllerExpandVolume d req)"
  unfolding Driver_ControllerExpandVolume_def using assms
  by (auto intro!: avoids_intros no_panic_deref_after dest: expanded split: option.split)

lemma delete_no_panic: "no_panic (Driver_DeleteVolume d i)"
  unfolding Driver_DeleteVolume_def current_ref_def
  by (auto intro!: avoids_intros split: option.split sum.split)

lemma publish_quiet:
  assumes d: "dr_volumes d = Some svc"
  shows "quiet_refusal (Driver_ControllerPublishVolume d req)"
proof -
  have tail: "no_invalid (bindE (failing Internal g (svc_MoveVolume svc mv))
      (\<lambda>r. bindE (deref r) (\<lambda>v. retE (h v))))" for g h mv
    using moved by (rule quiet_result) simp_all
  show ?thesis
    unfolding Driver_ControllerPublishVolume_def d option.case
    by (intro quiet_refusal_bindE quiet_refusal_node_server avoids_bindE [OF avoids_candidates]
        tail keeps_state_decode_handle)
qed

lemma unpublish_quiet: "quiet_refusal (Driver_ControllerUnpublishVolume d req)"
  unfolding Driver_ControllerUnpublishVolume_def
  by (auto intro!: quiet_refusal_not_configured quiet_refusal_bindE [OF keeps_state_decode_handle]
      quiet_refusal_node_server avoids_failing split: option.split)

lemma delete_quiet: "quiet_refusal (Driver_DeleteVolume d i)"
proof (cases "dr_volumes d")
  case None
  then show ?thesis by (simp add: Driver_DeleteVolume_def quiet_refusal_not_configured)
next
  case (Some volumes)
  have "no_invalid (bindE (current_ref d volumes ref) (\<lambda>ref'. failing Internal g (m ref')))"
    for ref g m
    by (intro avoids_bindE avoids_current_ref avoids_failing) simp
  then show ?thesis
    unfolding Driver_DeleteVolume_def Some option.case
    by (intro quiet_refusal_bindE [OF keeps_state_decode_handle] quiet_refusal_no_invalid)
qed

lemma expand_quiet:
  assumes d: "dr_volumes d = Some svc"
  shows "quiet_refusal (Driver_ControllerExpandVolume d req)"
proof -
  have check: "keeps_state (case ce_volume_capability req of None \<Rightarrow> retE ()
      | Some cap \<Rightarrow> check_text (validateVolumeCapabilities [Some cap]))"
    by (auto simp: keeps_state_def check_text_def split: option.split)
  have tail: "no_invalid (bindE (failing Internal g (svc_ExpandVolume svc rq))
      (\<lambda>r. bindE (deref r) (\<lambda>v. retE (h v))))" for g h rq
    using expanded by (rule quiet_result) simp_all
  show ?thesis
    unfolding Driver_ControllerExpandVolume_def d option.case
    by (intro quiet_refusal_bindE keeps_state_decode_handle check keeps_state_check_text
        quiet_refusal_no_invalid [OF tail])
qed

text \<open>A delete works on the volume of its handle, on a server it was found on or its own.\<close>

lemma current_ref_volume:
  assumes "current_ref d svc ref s = (Inr ref', s')" and "TrimSpace (ref_VolumeID ref) = ref_VolumeID ref"
  shows "ref_VolumeID ref' = ref_VolumeID ref"
  using assms(1) [unfolded current_ref_def]
proof (cases rule: bindE_Inr_cases)
  case (1 candidates t)
  show ?thesis
  proof (cases "svc_FindVolume svc (ref_VolumeID ref) candidates t")
    case (Pair r u)
    with 1(2) found assms(2) show ?thesis
      by (cases r) (fastforce split: if_splits)+
  qed
qed

end

locale storage_discovery =
  fixes sdc :: "('s, 'e) StorageDiscoveryClient"
  assumes validated: "sdc_ValidateStorageClass sdc p s = (r, s') \<Longrightarrow>
    s' = s \<and> (isl r \<longleftrightarrow> StorageClassServerID p = [])"

locale morpheus_backend = server_volumes svc + storage_discovery sdc
  for svc :: "('s, 'e) ServerVolumeClient" and sdc :: "('s, 'e) StorageDiscoveryClient"
begin

lemma create_no_panic:
  assumes "dr_volumes d = Some svc"
  shows "no_panic (Driver_CreateVolume d req)"
  unfolding Driver_CreateVolume_def Let_def using assms
  by (auto intro!: avoids_intros no_panic_deref_after dest: ensured split: option.split)

lemma create_quiet:
  assumes d: "dr_volumes d = Some svc" "dr_discovery d = Some sdc"
  shows "quiet_refusal (Driver_CreateVolume d req)"
proof -
  have check: "keeps_state (failing InvalidArgument id (sdc_ValidateStorageClass sdc p))" for p
    using validated unfolding keeps_state_def failing_def wrap_error_def
    by (auto split: prod.split sum.split)
  have tail: "no_invalid (bindE (failing Internal g (svc_EnsureVolume svc rq))
      (\<lambda>r. bindE (deref r) (\<lambda>v. retE (h v))))" for g h rq
    by (rule quiet_result) (auto dest: ensured)
  show ?thesis
    unfolding Driver_CreateVolume_def Let_def d option.case prod.case
    by (intro quiet_refusal_if quiet_refusal_refuse quiet_refusal_bindE keeps_state_check_text
        check quiet_refusal_no_invalid [OF tail])
qed

text \<open>What a successful create has checked, asked for and answers.\<close>

lemma create_result:
  assumes run: "Driver_CreateVolume d req s = (Inr resp, s')"
    and d: "dr_volumes d = Some svc" "dr_discovery d = Some sdc"
  obtains n v where "TrimSpace (cv_name req) \<noteq> []"
    and "validateVolumeCapabilities (cv_volume_capabilities req) = Inr ()"
    and "StorageClassServerID (cv_parameters req) \<noteq> []"
    and "requestedSizeGiB (cv_capacity_range req) = Inr n"
    and "svc_EnsureVolume svc \<lparr>rr_Name = TrimSpace (cv_name req), rr_SizeGiB = n,
           rr_StorageClass = cv_parameters req, rr_VolumeID = []\<rparr> s = (Inr (Some v), s')"
    and "vol_ID v \<noteq> []"
    and "resp = \<lparr>csi_volume_id = EncodeVolumeID (StorageClassServerID (cv_parameters req)) (vol_ID v),
           csi_capacity_bytes = n * gibibyte,
           csi_volume_context =
             create_context (StorageClassServerID (cv_parameters req)) n (cv_parameters req) v\<rparr>"
proof -
  from run d have name: "TrimSpace (cv_name req) \<noteq> []"
    by (auto simp: Driver_CreateVolume_def Let_def split: if_splits)
  let ?ask = "\<lambda>n. \<lparr>rr_Name = TrimSpace (cv_name req), rr_SizeGiB = n,
    rr_StorageClass = cv_parameters req, rr_VolumeID = []\<rparr>"
  from name run d obtain n v where
    valid: "validateVolumeCapabilities (cv_volume_capabilities req) = Inr ()"
      "StorageClassServerID (cv_parameters req) \<noteq> []"
      "requestedSizeGiB (cv_capacity_range req) = Inr n"
    and v: "svc_EnsureVolume svc (?ask n) s = (Inr (Some v), s')"
    and resp: "resp = \<lparr>csi_volume_id = EncodeVolumeID (StorageClassServerID (cv_parameters req)) (vol_ID v),
           csi_capacity_bytes = n * gibibyte,
           csi_volume_context =
             create_context (StorageClassServerID (cv_parameters req)) n (cv_parameters req) v\<rparr>"
    by (auto simp: Driver_CreateVolume_def Let_def step_Inr elim!: bindE_Inr_cases dest!: validated)
  from ensured [OF v] that [OF name valid v _ resp] show ?thesis by simp
qed

end

locale node_servers =
  fixes nsr :: "('s, 'e) NodeServerResolver"
  assumes node_server: "nsr_ServerIDForNode nsr n s = (Inr i, s') \<Longrightarrow> i \<noteq> [] \<and> TrimSpace i = i"
    and servers: "nsr_ServerIDs nsr s = (Inr ids, s') \<Longrightarrow>
      distinct ids \<and> (\<forall>i \<in> set ids. i \<noteq> [] \<and> TrimSpace i = i)"

end
