(* ===== verification/Morpheus_Client.thy ===== *)
theory Morpheus_Client
  imports Morpheus_Types Go_UrlParse
begin

text \<open>
  The Morpheus client of \<open>internal/morpheus/client.go\<close>: HTTP requests, the state of a server, and
  the operations on volumes. What answers the requests (the HTTP client and the Morpheus API
  behind it) is a field of the client, as in the code; every request and its answer, every wait
  between two lookups, and the taking and releasing of a server's lock go to the trace.
\<close>

section \<open>Requests and answers\<close>

datatype http_method = GET | PUT

text \<open>\<open>rq_target\<close> is the request target on the wire: escaped path and query.\<close>

record http_request =
  rq_method :: http_method
  rq_target :: string
  rq_headers :: "(string \<times> string) list"
  rq_body :: "any option"

text \<open>
  The body of an answer as \<open>encoding/json\<close> sees it: empty, a JSON value, or something that is no
  JSON.
\<close>

datatype http_body = NoBody | JsonBody any | OtherBody string

datatype http_result =
    TransportError
  | ReadError
  | Response int http_body

text \<open>
  The events of the controller side; \<open>KubeNet\<close> is a request of the node resolver to the Kubernetes
  API, which goes to the same trace.
\<close>

datatype net_event =
    Net http_request http_result
  | KubeNet http_request http_result
  | Waited bool
  | Locked string
  | Unlocked string

text \<open>
  \<open>cl_httpDo\<close> is the HTTP client together with what it talks to; \<open>cl_ctxWait\<close> is
  \<open>select\<close> between \<open>ctx.Done()\<close> and \<open>time.After\<close> (true: the context was done first);
  \<open>cl_unicodeFold\<close> is Unicode case folding.
\<close>

record 'w Client =
  cl_basePath :: string
  cl_forceQuery :: bool
  cl_token :: string
  cl_httpDo :: "http_request \<Rightarrow> 'w \<Rightarrow> http_result \<times> 'w"
  cl_ctxWait :: "'w \<Rightarrow> bool \<times> 'w"
  cl_unicodeFold :: "string \<Rightarrow> string \<Rightarrow> bool"

type_synonym ('w, 'a) client_io = "(('w, net_event) world, client_error, 'a) io"

section \<open>Constructors\<close>

definition NewClientWithHTTPClient ::
  "(http_request \<Rightarrow> 'w \<Rightarrow> http_result \<times> 'w) \<Rightarrow> ('w \<Rightarrow> bool \<times> 'w) \<Rightarrow>
   (string \<Rightarrow> string \<Rightarrow> bool) \<Rightarrow> string \<Rightarrow> string \<Rightarrow> client_error + 'w Client" where
  "NewClientWithHTTPClient httpDo ctxWait unicodeFold rawURL token =
     (case ParseURL (TrimRight_slash rawURL) of
        None \<Rightarrow> Inl EUrlParse
      | Some parsed \<Rightarrow>
          if url_Scheme parsed = [] \<or> url_Host parsed = [] then Inl EUrlIncomplete
          else Inr \<lparr>cl_basePath = url_Path parsed, cl_forceQuery = url_ForceQuery parsed,
                    cl_token = token, cl_httpDo = httpDo, cl_ctxWait = ctxWait,
                    cl_unicodeFold = unicodeFold\<rparr>)"

text \<open>
  What reading a CA file can give; the certificate pool and the transport are part of the HTTP
  side, \<open>httpDo\<close>.
\<close>

datatype ca_file = CAUnreadable | CANoCertificate | CACertificates

definition NewClientWithTLS ::
  "(http_request \<Rightarrow> 'w \<Rightarrow> http_result \<times> 'w) \<Rightarrow> ('w \<Rightarrow> bool \<times> 'w) \<Rightarrow>
   (string \<Rightarrow> string \<Rightarrow> bool) \<Rightarrow> (string \<Rightarrow> ca_file) \<Rightarrow> string \<Rightarrow> string \<Rightarrow> string \<Rightarrow>
   client_error + 'w Client" where
  "NewClientWithTLS httpDo ctxWait unicodeFold readCA rawURL token caFile =
     (if TrimSpace caFile \<noteq> [] \<and> readCA caFile = CAUnreadable then Inl ECAFileRead
      else if TrimSpace caFile \<noteq> [] \<and> readCA caFile = CANoCertificate
      then Inl (ECAFileNoCertificate caFile)
      else NewClientWithHTTPClient httpDo ctxWait unicodeFold rawURL token)"

section \<open>do\<close>

definition client_headers :: "'w Client \<Rightarrow> any option \<Rightarrow> (string \<times> string) list" where
  "client_headers c body =
     [(''Accept'', ''application/json'')]
     @ (if body \<noteq> None then [(''Content-Type'', ''application/json'')] else [])
     @ (if TrimSpace (cl_token c) \<noteq> []
        then [(''Authorization'', ''Bearer '' @ cl_token c)] else [])"

definition request_target :: "'w Client \<Rightarrow> string \<Rightarrow> string \<Rightarrow> string" where
  \<comment> \<open>\<open>URL.String\<close> escapes the whole path, the parts the caller has escaped already included\<close>
  "request_target c path query =
     EscapedPath (TrimRight_slash (cl_basePath c) @ path)
     @ (if cl_forceQuery c \<or> query \<noteq> [] then ''?'' @ query else [])"

definition client_request ::
  "'w Client \<Rightarrow> http_method \<Rightarrow> string \<Rightarrow> string \<Rightarrow> any option \<Rightarrow> http_request" where
  "client_request c method path query body =
     \<lparr>rq_method = method, rq_target = request_target c path query,
      rq_headers = client_headers c body, rq_body = body\<rparr>"

text \<open>
  What \<open>do\<close> makes of the answer; \<open>out\<close> says whether the caller passes a map to decode into.
  Decoding \<open>null\<close> leaves the map nil; any other value that is no object is an error.
\<close>

definition read_answer :: "bool \<Rightarrow> http_result \<Rightarrow> client_error + any_map" where
  "read_answer out res =
     (case res of
        TransportError \<Rightarrow> Inl ETransport
      | ReadError \<Rightarrow> Inl EReadBody
      | Response status body \<Rightarrow>
          if status < 200 \<or> 299 < status then Inl (EHttpStatus status)
          else if \<not> out then Inr []
          else case body of
                 NoBody \<Rightarrow> Inr []
               | JsonBody (AMap m) \<Rightarrow> Inr m
               | JsonBody ANil \<Rightarrow> Inr []
               | _ \<Rightarrow> Inl EUnmarshal)"

definition Client_do ::
  "'w Client \<Rightarrow> http_method \<Rightarrow> string \<Rightarrow> string \<Rightarrow> any option \<Rightarrow> bool \<Rightarrow> ('w, any_map) client_io" where
  "Client_do c method path query body out =
     (\<lambda>s. let req = client_request c method path query body;
              (res, w) = cl_httpDo c req (ext s)
          in (read_answer out res, log_event (Net req res) (s\<lparr>ext := w\<rparr>)))"

definition ctx_wait :: "'w Client \<Rightarrow> ('w, unit) client_io" where
  "ctx_wait c =
     (\<lambda>s. let (done, w) = cl_ctxWait c (ext s)
          in (if done then Inl EContextDone else Inr (), log_event (Waited done) (s\<lparr>ext := w\<rparr>)))"

text \<open>
  \<open>defer c.lockServer(serverID)()\<close>: the body runs between the two events. What the lock excludes
  is the subject of the theory \<open>Server_Locks\<close>.
\<close>

definition with_lockServer :: "string \<Rightarrow> ('w, 'a) client_io \<Rightarrow> ('w, 'a) client_io" where
  "with_lockServer serverID body =
     (\<lambda>s. let key = TrimSpace serverID; (r, s') = body (log_event (Locked key) s)
          in (r, log_event (Unlocked key) s'))"

section \<open>The state of a server\<close>

definition servers_path :: "string \<Rightarrow> string" where
  "servers_path serverID = ''/api/servers/'' @ PathEscape serverID"

definition volume_path :: "VolumeRef \<Rightarrow> string" where
  "volume_path ref =
     servers_path (ref_ServerID ref) @ ''/volumes/'' @ PathEscape (ref_VolumeID ref)"

definition serverState_of :: "string \<Rightarrow> any_map \<Rightarrow> serverState" where
  "serverState_of serverID response =
     (let server = (if firstMap response [''server''] = [] then response
                    else firstMap response [''server''])
      in \<lparr>st_ID = firstNonEmpty [stringValue (any_get server ''id''), serverID],
          st_Volumes = parseVolumeList server\<rparr>)"

definition getServerState :: "'w Client \<Rightarrow> string \<Rightarrow> ('w, serverState) client_io" where
  "getServerState c serverID =
     bindE (Client_do c GET (servers_path serverID) ''details=true'' None True)
       (\<lambda>response. retE (serverState_of serverID response))"

definition getServerVolumes :: "'w Client \<Rightarrow> string \<Rightarrow> ('w, StorageVolume list) client_io" where
  "getServerVolumes c serverID =
     bindE (getServerState c serverID) (\<lambda>state. retE (st_Volumes state))"

definition resize_body :: "StorageVolume list \<Rightarrow> any" where
  "resize_body volumes = AMap [(''volumes'', resizeVolumesPayload volumes)]"

definition resizeServer :: "'w Client \<Rightarrow> string \<Rightarrow> StorageVolume list \<Rightarrow> ('w, unit) client_io" where
  "resizeServer c serverID volumes =
     bindE (Client_do c PUT (servers_path serverID @ ''/resize'') [] (Some (resize_body volumes)) False)
       (\<lambda>_. retE ())"

section \<open>Resizing a volume\<close>

text \<open>The lookups after a resize: at most six, with a wait before all but the first.\<close>

function poll_resized ::
  "'w Client \<Rightarrow> serverState \<Rightarrow> string \<Rightarrow> ResizeVolumeRequest \<Rightarrow> nat \<Rightarrow>
   ('w, StorageVolume option) client_io" where
  "poll_resized c state volumeID req attempt =
     (if attempt < postResizeVolumeLookupAttempts then
        bindE (if 0 < attempt then ctx_wait c else retE ())
          (\<lambda>_. bindE (getServerVolumes c (st_ID state))
            (\<lambda>refreshed.
               case findResizedVolume (st_Volumes state) refreshed volumeID req of
                 Some volume \<Rightarrow> retE (Some volume)
               | None \<Rightarrow> poll_resized c state volumeID req (attempt + 1)))
      else throwE (EResizeNotFound (rr_Name req)))"
  by pat_completeness auto
termination
  by (relation "measure (\<lambda>(c, state, volumeID, req, attempt).
        postResizeVolumeLookupAttempts - attempt)") auto

declare poll_resized.simps [simp del]

definition Client_resizeVolume ::
  "'w Client \<Rightarrow> serverState \<Rightarrow> string \<Rightarrow> ResizeVolumeRequest \<Rightarrow>
   ('w, StorageVolume option) client_io" where
  "Client_resizeVolume c state volumeID req =
     bindE (resizeServer c (st_ID state) (resize_next (st_Volumes state) volumeID req))
       (\<lambda>_. poll_resized c state volumeID req 0)"

section \<open>The operations\<close>

definition Client_EnsureVolume ::
  "'w Client \<Rightarrow> ResizeVolumeRequest \<Rightarrow> ('w, StorageVolume option) client_io" where
  "Client_EnsureVolume c req =
     bindE (liftE (validateResizeRequest req)) (\<lambda>_.
       let serverID = StorageClassServerID (rr_StorageClass req) in
       with_lockServer serverID
         (bindE (getServerState c serverID) (\<lambda>state.
            case findVolumeByName (st_Volumes state) (rr_Name req) of
              Some existing \<Rightarrow>
                if sint (rr_SizeGiB req) \<le> sint (vol_SizeGiB existing) then retE (Some existing)
                else Client_resizeVolume c state (vol_ID existing) req
            | None \<Rightarrow> Client_resizeVolume c state [] req)))"

definition Client_DeleteVolume :: "'w Client \<Rightarrow> VolumeRef \<Rightarrow> ('w, unit) client_io" where
  "Client_DeleteVolume c ref =
     bindE (liftE (validateRef ref)) (\<lambda>_.
       with_lockServer (ref_ServerID ref)
         (bindE (getServerState c (ref_ServerID ref)) (\<lambda>state.
            case findVolumeByID (st_Volumes state) (ref_VolumeID ref) of
              None \<Rightarrow> retE ()
            | Some target \<Rightarrow>
                if vol_RootVolume target then throwE (ERootDelete (ref_VolumeID ref))
                else resizeServer c (st_ID state)
                       (filter (\<lambda>v. vol_ID v \<noteq> ref_VolumeID ref) (st_Volumes state)))))"

definition Client_ExpandVolume ::
  "'w Client \<Rightarrow> ResizeVolumeRequest \<Rightarrow> ('w, StorageVolume option) client_io" where
  "Client_ExpandVolume c req =
     bindE (liftE (validateResizeRequest req)) (\<lambda>_.
       if TrimSpace (rr_VolumeID req) = [] then throwE EVolumeIDRequired
       else
         let serverID = StorageClassServerID (rr_StorageClass req) in
         with_lockServer serverID
           (bindE (getServerState c serverID) (\<lambda>state.
              case findVolumeByID (st_Volumes state) (rr_VolumeID req) of
                None \<Rightarrow> throwE (EVolumeNotFound (rr_VolumeID req) serverID)
              | Some existing \<Rightarrow>
                  if vol_RootVolume existing then throwE (ERootResize (rr_VolumeID req))
                  else if sint (rr_SizeGiB req) < sint (vol_SizeGiB existing)
                  then throwE (EShrink (rr_VolumeID req) (vol_SizeGiB existing) (rr_SizeGiB req))
                  else if vol_SizeGiB existing = rr_SizeGiB req then retE (Some existing)
                  else Client_resizeVolume c state (rr_VolumeID req) req)))"

definition Client_GetVolume ::
  "'w Client \<Rightarrow> VolumeRef \<Rightarrow> ('w, StorageVolume option) client_io" where
  "Client_GetVolume c ref =
     bindE (liftE (validateRef ref)) (\<lambda>_.
       bindE (getServerVolumes c (ref_ServerID ref)) (\<lambda>volumes.
         case findVolumeByID volumes (ref_VolumeID ref) of
           None \<Rightarrow> throwE (EVolumeNotFound (ref_VolumeID ref) (ref_ServerID ref))
         | Some volume \<Rightarrow> retE (Some volume)))"

fun find_on_servers ::
  "'w Client \<Rightarrow> string \<Rightarrow> string list \<Rightarrow> ('w, VolumeRef \<times> StorageVolume option) client_io" where
  "find_on_servers c volumeID [] = throwE (EVolumeNotFoundOnCandidates volumeID)"
| "find_on_servers c volumeID (serverID # rest) =
     bindE (getServerVolumes c serverID) (\<lambda>volumes.
       case findVolumeByID volumes volumeID of
         Some volume \<Rightarrow>
           retE (\<lparr>ref_ServerID = serverID, ref_VolumeID = volumeID\<rparr>, Some volume)
       | None \<Rightarrow> find_on_servers c volumeID rest)"

definition Client_FindVolume ::
  "'w Client \<Rightarrow> string \<Rightarrow> string list \<Rightarrow> ('w, VolumeRef \<times> StorageVolume option) client_io" where
  "Client_FindVolume c volumeID serverIDs =
     (if TrimSpace volumeID = [] then throwE EVolumeIDRequired
      else find_on_servers c (TrimSpace volumeID) (uniqueNonEmpty serverIDs))"

definition Client_DetachVolume :: "'w Client \<Rightarrow> VolumeRef \<Rightarrow> ('w, unit) client_io" where
  "Client_DetachVolume c ref =
     bindE (liftE (validateRef ref)) (\<lambda>_.
       bindE (Client_do c PUT (volume_path ref @ ''/detach'') [] None False) (\<lambda>_. retE ()))"

definition attachVolume :: "'w Client \<Rightarrow> VolumeRef \<Rightarrow> ('w, unit) client_io" where
  "attachVolume c ref =
     bindE (liftE (validateRef ref)) (\<lambda>_.
       bindE (Client_do c PUT (volume_path ref @ ''/attach'') [] None False) (\<lambda>_. retE ()))"

text \<open>The lookups after an attach: a failing one counts as not found yet.\<close>

function poll_attached ::
  "'w Client \<Rightarrow> VolumeRef \<Rightarrow> MoveVolumeRequest \<Rightarrow> nat \<Rightarrow>
   ('w, StorageVolume option) client_io" where
  "poll_attached c targetRef req attempt =
     (if attempt < postResizeVolumeLookupAttempts then
        bindE (if 0 < attempt then ctx_wait c else retE ())
          (\<lambda>_. tryE (Client_GetVolume c targetRef)
            (\<lambda>r. case r of
                   Inr moved \<Rightarrow> retE moved
                 | Inl _ \<Rightarrow> poll_attached c targetRef req (attempt + 1)))
      else throwE (EMoveNotFound (mv_VolumeID req) (mv_TargetServerID req)))"
  by pat_completeness auto
termination
  by (relation "measure (\<lambda>(c, targetRef, req, attempt).
        postResizeVolumeLookupAttempts - attempt)") auto

declare poll_attached.simps [simp del]

text \<open>Reading a field through a nil volume pointer would panic; \<open>FindVolume\<close> never returns one.\<close>

definition Client_MoveVolume ::
  "'w Client \<Rightarrow> MoveVolumeRequest \<Rightarrow> ('w, StorageVolume option) client_io" where
  "Client_MoveVolume c req =
     (if TrimSpace (mv_TargetServerID req) = [] then throwE ETargetServerRequired
      else
        bindE (Client_FindVolume c (mv_VolumeID req)
            (mv_CandidateServerIDs req @ [mv_SourceServerID req, mv_TargetServerID req]))
          (\<lambda>(sourceRef, volume).
             if ref_ServerID sourceRef = mv_TargetServerID req then retE volume
             else if (case volume of Some v \<Rightarrow> vol_RootVolume v | None \<Rightarrow> False)
             then throwE (ERootMove (mv_VolumeID req))
             else
               let targetRef = \<lparr>ref_ServerID = mv_TargetServerID req, ref_VolumeID = mv_VolumeID req\<rparr>
               in bindE (Client_DetachVolume c sourceRef)
                    (\<lambda>_. bindE (attachVolume c targetRef)
                      (\<lambda>_. poll_attached c targetRef req 0))))"

definition Client_ResolveServerIDByNodeName :: "'w Client \<Rightarrow> string \<Rightarrow> ('w, string) client_io" where
  "Client_ResolveServerIDByNodeName c name =
     (let nodeName = TrimSpace name in
      if nodeName = [] then throwE ENodeNameRequired
      else
        bindE (Client_do c GET ''/api/servers'' (''phrase='' @ QueryEscape nodeName) None True)
          (\<lambda>response.
             let servers = parseServerList response;
                 exactMatches = filter (\<lambda>s. matchesNodeName (cl_unicodeFold c) s nodeName) servers
             in if servers = [] then throwE (ENoServerMatched nodeName)
                else if length exactMatches = 1 then retE (sv_ID (hd exactMatches))
                else if 1 < length exactMatches then throwE (EMultipleExactServers nodeName)
                else if length servers = 1 then retE (sv_ID (hd servers))
                else throwE (EMultipleServers nodeName)))"

end
