(* ===== verification/Client_Runs.thy ===== *)
theory Client_Runs
  imports Morpheus_Client
begin

text \<open>
  The operations of the client with their state argument written out, as code equations: a
  run on a concrete HTTP side is then evaluated one call after the other.
\<close>

lemma Client_do_run_eq [code]:
  "Client_do c method path query body out s =
     (let req = client_request c method path query body
      in case cl_httpDo c req (ext s) of
           (res, w) \<Rightarrow> (read_answer out res, log_event (Net req res) (s\<lparr>ext := w\<rparr>)))"
  by (simp add: Client_do_def Let_def)

lemma ctx_wait_run_eq [code]:
  "ctx_wait c s =
     (case cl_ctxWait c (ext s) of
        (d, w) \<Rightarrow> (if d then Inl EContextDone else Inr (), log_event (Waited d) (s\<lparr>ext := w\<rparr>)))"
  by (simp add: ctx_wait_def)

lemma getServerState_run_eq [code]:
  "getServerState c k s =
     (case Client_do c GET (servers_path k) ''details=true'' None True s of
        (Inl e, s') \<Rightarrow> (Inl e, s')
      | (Inr response, s') \<Rightarrow> (Inr (serverState_of k response), s'))"
  by (simp add: getServerState_def bindE_eq split: prod.splits sum.splits)

lemma getServerVolumes_run_eq [code]:
  "getServerVolumes c k s =
     (case getServerState c k s of
        (Inl e, s') \<Rightarrow> (Inl e, s')
      | (Inr state, s') \<Rightarrow> (Inr (st_Volumes state), s'))"
  by (simp add: getServerVolumes_def bindE_eq split: prod.splits sum.splits)

lemma resizeServer_run_eq [code]:
  "resizeServer c k volumes s =
     (case Client_do c PUT (servers_path k @ ''/resize'') [] (Some (resize_body volumes)) False s of
        (Inl e, s') \<Rightarrow> (Inl e, s')
      | (Inr _, s') \<Rightarrow> (Inr (), s'))"
  by (simp add: resizeServer_def bindE_eq split: prod.splits sum.splits)

lemma poll_resized_run_eq [code]:
  "poll_resized c state volumeID req attempt s =
     (if attempt < postResizeVolumeLookupAttempts then
        (case (if 0 < attempt then ctx_wait c s else (Inr (), s)) of
           (Inl e, s1) \<Rightarrow> (Inl e, s1)
         | (Inr _, s1) \<Rightarrow>
             (case getServerVolumes c (st_ID state) s1 of
                (Inl e, s2) \<Rightarrow> (Inl e, s2)
              | (Inr refreshed, s2) \<Rightarrow>
                  (case findResizedVolume (st_Volumes state) refreshed volumeID req of
                     Some volume \<Rightarrow> (Inr (Some volume), s2)
                   | None \<Rightarrow> poll_resized c state volumeID req (attempt + 1) s2)))
      else (Inl (EResizeNotFound (rr_Name req)), s))"
  by (subst poll_resized.simps)
    (auto simp: bindE_eq split: prod.splits sum.splits option.splits)

lemma Client_resizeVolume_run_eq [code]:
  "Client_resizeVolume c state volumeID req s =
     (case resizeServer c (st_ID state) (resize_next (st_Volumes state) volumeID req) s of
        (Inl e, s') \<Rightarrow> (Inl e, s')
      | (Inr _, s') \<Rightarrow> poll_resized c state volumeID req 0 s')"
  by (simp add: Client_resizeVolume_def bindE_eq)

lemma Client_EnsureVolume_run_eq [code]:
  "Client_EnsureVolume c req s =
     (case validateResizeRequest req of
        Inl e \<Rightarrow> (Inl e, s)
      | Inr _ \<Rightarrow>
          let k = StorageClassServerID (rr_StorageClass req); key = TrimSpace k
          in (case getServerState c k (log_event (Locked key) s) of
                (Inl e, s1) \<Rightarrow> (Inl e, log_event (Unlocked key) s1)
              | (Inr state, s1) \<Rightarrow>
                  (case (case findVolumeByName (st_Volumes state) (rr_Name req) of
                           Some existing \<Rightarrow>
                             if sint (rr_SizeGiB req) \<le> sint (vol_SizeGiB existing)
                             then (Inr (Some existing), s1)
                             else Client_resizeVolume c state (vol_ID existing) req s1
                         | None \<Rightarrow> Client_resizeVolume c state [] req s1) of
                     (r, s2) \<Rightarrow> (r, log_event (Unlocked key) s2))))"
  by (auto simp: Client_EnsureVolume_def with_lockServer_def Let_def bindE_eq
      split: prod.splits sum.splits option.splits)

lemma Client_DeleteVolume_run_eq [code]:
  "Client_DeleteVolume c ref s =
     (case validateRef ref of
        Inl e \<Rightarrow> (Inl e, s)
      | Inr _ \<Rightarrow>
          let key = TrimSpace (ref_ServerID ref)
          in (case getServerState c (ref_ServerID ref) (log_event (Locked key) s) of
                (Inl e, s1) \<Rightarrow> (Inl e, log_event (Unlocked key) s1)
              | (Inr state, s1) \<Rightarrow>
                  (case (case findVolumeByID (st_Volumes state) (ref_VolumeID ref) of
                           None \<Rightarrow> (Inr (), s1)
                         | Some target \<Rightarrow>
                             if vol_RootVolume target
                             then (Inl (ERootDelete (ref_VolumeID ref)), s1)
                             else resizeServer c (st_ID state)
                                    (filter (\<lambda>v. vol_ID v \<noteq> ref_VolumeID ref)
                                      (st_Volumes state)) s1) of
                     (r, s2) \<Rightarrow> (r, log_event (Unlocked key) s2))))"
  by (auto simp: Client_DeleteVolume_def with_lockServer_def Let_def bindE_eq
      split: prod.splits sum.splits option.splits)

lemma Client_ExpandVolume_run_eq [code]:
  "Client_ExpandVolume c req s =
     (case validateResizeRequest req of
        Inl e \<Rightarrow> (Inl e, s)
      | Inr _ \<Rightarrow>
          if TrimSpace (rr_VolumeID req) = [] then (Inl EVolumeIDRequired, s)
          else
            let k = StorageClassServerID (rr_StorageClass req); key = TrimSpace k
            in (case getServerState c k (log_event (Locked key) s) of
                  (Inl e, s1) \<Rightarrow> (Inl e, log_event (Unlocked key) s1)
                | (Inr state, s1) \<Rightarrow>
                    (case (case findVolumeByID (st_Volumes state) (rr_VolumeID req) of
                             None \<Rightarrow> (Inl (EVolumeNotFound (rr_VolumeID req) k), s1)
                           | Some existing \<Rightarrow>
                               if vol_RootVolume existing
                               then (Inl (ERootResize (rr_VolumeID req)), s1)
                               else if sint (rr_SizeGiB req) < sint (vol_SizeGiB existing)
                               then (Inl (EShrink (rr_VolumeID req) (vol_SizeGiB existing)
                                       (rr_SizeGiB req)), s1)
                               else if vol_SizeGiB existing = rr_SizeGiB req
                               then (Inr (Some existing), s1)
                               else Client_resizeVolume c state (rr_VolumeID req) req s1) of
                       (r, s2) \<Rightarrow> (r, log_event (Unlocked key) s2))))"
  by (auto simp: Client_ExpandVolume_def with_lockServer_def Let_def bindE_eq
      split: prod.splits sum.splits option.splits)

lemma Client_GetVolume_run_eq [code]:
  "Client_GetVolume c ref s =
     (case validateRef ref of
        Inl e \<Rightarrow> (Inl e, s)
      | Inr _ \<Rightarrow>
          (case getServerVolumes c (ref_ServerID ref) s of
             (Inl e, s') \<Rightarrow> (Inl e, s')
           | (Inr volumes, s') \<Rightarrow>
               (case findVolumeByID volumes (ref_VolumeID ref) of
                  None \<Rightarrow> (Inl (EVolumeNotFound (ref_VolumeID ref) (ref_ServerID ref)), s')
                | Some volume \<Rightarrow> (Inr (Some volume), s'))))"
  by (auto simp: Client_GetVolume_def bindE_eq split: prod.splits sum.splits option.splits)

lemma find_on_servers_run_eq [code]:
  "find_on_servers c volumeID [] s = (Inl (EVolumeNotFoundOnCandidates volumeID), s)"
  "find_on_servers c volumeID (serverID # rest) s =
     (case getServerVolumes c serverID s of
        (Inl e, s') \<Rightarrow> (Inl e, s')
      | (Inr volumes, s') \<Rightarrow>
          (case findVolumeByID volumes volumeID of
             Some volume \<Rightarrow>
               (Inr (\<lparr>ref_ServerID = serverID, ref_VolumeID = volumeID\<rparr>, Some volume), s')
           | None \<Rightarrow> find_on_servers c volumeID rest s'))"
  by (auto simp: bindE_eq split: prod.splits sum.splits option.splits)

lemma Client_FindVolume_run_eq [code]:
  "Client_FindVolume c volumeID ids s =
     (if TrimSpace volumeID = [] then (Inl EVolumeIDRequired, s)
      else find_on_servers c (TrimSpace volumeID) (uniqueNonEmpty ids) s)"
  by (simp add: Client_FindVolume_def)

lemma Client_DetachVolume_run_eq [code]:
  "Client_DetachVolume c ref s =
     (case validateRef ref of
        Inl e \<Rightarrow> (Inl e, s)
      | Inr _ \<Rightarrow>
          (case Client_do c PUT (volume_path ref @ ''/detach'') [] None False s of
             (Inl e, s') \<Rightarrow> (Inl e, s')
           | (Inr _, s') \<Rightarrow> (Inr (), s')))"
  by (auto simp: Client_DetachVolume_def bindE_eq split: prod.splits sum.splits)

lemma attachVolume_run_eq [code]:
  "attachVolume c ref s =
     (case validateRef ref of
        Inl e \<Rightarrow> (Inl e, s)
      | Inr _ \<Rightarrow>
          (case Client_do c PUT (volume_path ref @ ''/attach'') [] None False s of
             (Inl e, s') \<Rightarrow> (Inl e, s')
           | (Inr _, s') \<Rightarrow> (Inr (), s')))"
  by (auto simp: attachVolume_def bindE_eq split: prod.splits sum.splits)

lemma poll_attached_run_eq [code]:
  "poll_attached c ref req attempt s =
     (if attempt < postResizeVolumeLookupAttempts then
        (case (if 0 < attempt then ctx_wait c s else (Inr (), s)) of
           (Inl e, s1) \<Rightarrow> (Inl e, s1)
         | (Inr _, s1) \<Rightarrow>
             (case Client_GetVolume c ref s1 of
                (Inr moved, s2) \<Rightarrow> (Inr moved, s2)
              | (Inl _, s2) \<Rightarrow> poll_attached c ref req (attempt + 1) s2))
      else (Inl (EMoveNotFound (mv_VolumeID req) (mv_TargetServerID req)), s))"
  by (subst poll_attached.simps)
    (auto simp: bindE_eq tryE_eq split: prod.splits sum.splits)

lemma Client_MoveVolume_run_eq [code]:
  "Client_MoveVolume c req s =
     (if TrimSpace (mv_TargetServerID req) = [] then (Inl ETargetServerRequired, s)
      else
        case Client_FindVolume c (mv_VolumeID req)
            (mv_CandidateServerIDs req @ [mv_SourceServerID req, mv_TargetServerID req]) s of
          (Inl e, s1) \<Rightarrow> (Inl e, s1)
        | (Inr (sourceRef, volume), s1) \<Rightarrow>
            if ref_ServerID sourceRef = mv_TargetServerID req then (Inr volume, s1)
            else if (case volume of Some v \<Rightarrow> vol_RootVolume v | None \<Rightarrow> False)
            then (Inl (ERootMove (mv_VolumeID req)), s1)
            else
              let targetRef = \<lparr>ref_ServerID = mv_TargetServerID req, ref_VolumeID = mv_VolumeID req\<rparr>
              in case Client_DetachVolume c sourceRef s1 of
                   (Inl e, s2) \<Rightarrow> (Inl e, s2)
                 | (Inr _, s2) \<Rightarrow>
                     (case attachVolume c targetRef s2 of
                        (Inl e, s3) \<Rightarrow> (Inl e, s3)
                      | (Inr _, s3) \<Rightarrow> poll_attached c targetRef req 0 s3))"
  by (auto simp: Client_MoveVolume_def Let_def bindE_eq split: prod.splits sum.splits)

lemma Client_ResolveServerIDByNodeName_run_eq [code]:
  "Client_ResolveServerIDByNodeName c name s =
     (let nodeName = TrimSpace name in
      if nodeName = [] then (Inl ENodeNameRequired, s)
      else
        case Client_do c GET ''/api/servers'' (''phrase='' @ QueryEscape nodeName) None True s of
          (Inl e, s') \<Rightarrow> (Inl e, s')
        | (Inr response, s') \<Rightarrow>
            let servers = parseServerList response;
                exactMatches = filter (\<lambda>sv. matchesNodeName (cl_unicodeFold c) sv nodeName) servers
            in (if servers = [] then Inl (ENoServerMatched nodeName)
                else if length exactMatches = 1 then Inr (sv_ID (hd exactMatches))
                else if 1 < length exactMatches then Inl (EMultipleExactServers nodeName)
                else if length servers = 1 then Inr (sv_ID (hd servers))
                else Inl (EMultipleServers nodeName), s'))"
  by (auto simp: Client_ResolveServerIDByNodeName_def Let_def bindE_eq
      split: prod.splits sum.splits)

end
