(* ===== verification/Client_Facts.thy ===== *)
theory Client_Facts
  imports Client_Runs
begin

text \<open>
  Facts about the client for any HTTP side: what is read out of an answer, which requests an
  operation can send, and what they carry.
\<close>

section \<open>What is read out of an answer\<close>

definition server_request :: "'w Client \<Rightarrow> string \<Rightarrow> http_request" where
  "server_request c serverID = client_request c GET (servers_path serverID) ''details=true'' None"

definition resize_request :: "'w Client \<Rightarrow> string \<Rightarrow> StorageVolume list \<Rightarrow> http_request" where
  "resize_request c serverID volumes =
     client_request c PUT (servers_path serverID @ ''/resize'') [] (Some (resize_body volumes))"

definition detach_request :: "'w Client \<Rightarrow> VolumeRef \<Rightarrow> http_request" where
  "detach_request c ref = client_request c PUT (volume_path ref @ ''/detach'') [] None"

definition attach_request :: "'w Client \<Rightarrow> VolumeRef \<Rightarrow> http_request" where
  "attach_request c ref = client_request c PUT (volume_path ref @ ''/attach'') [] None"

lemma request_simps [simp]:
  "rq_method (server_request c i) = GET"
  "rq_method (resize_request c i vs) = PUT"
  "rq_method (detach_request c ref) = PUT"
  "rq_method (attach_request c ref) = PUT"
  "rq_body (resize_request c i vs) = Some (resize_body vs)"
  by (simp_all add: server_request_def resize_request_def detach_request_def attach_request_def
      client_request_def)

lemma Client_do_run:
  assumes "cl_httpDo c (client_request c method path query body) (ext s) = (res, w)"
  shows "Client_do c method path query body out s =
    (read_answer out res,
     log_event (Net (client_request c method path query body) res) (s\<lparr>ext := w\<rparr>))"
  using assms by (simp add: Client_do_def)

definition state_answer :: "string \<Rightarrow> http_result \<Rightarrow> client_error + serverState" where
  "state_answer serverID res = map_sum id (serverState_of serverID) (read_answer True res)"

lemma getServerState_run:
  assumes "cl_httpDo c (server_request c serverID) (ext s) = (res, w)"
  shows "getServerState c serverID s =
    (state_answer serverID res, log_event (Net (server_request c serverID) res) (s\<lparr>ext := w\<rparr>))"
  using assms
  by (simp add: getServerState_def server_request_def Client_do_run bindE_eq state_answer_def
      split: sum.splits)

lemma getServerState_cases:
  assumes "getServerState c serverID s = (r, s')"
  obtains res where
    "r = state_answer serverID res"
    "trace s' = trace s @ [Net (server_request c serverID) res]"
    "cl_httpDo c (server_request c serverID) (ext s) = (res, ext s')"
  using assms getServerState_run [of c serverID s]
  by (cases "cl_httpDo c (server_request c serverID) (ext s)") (auto intro: that)

lemma resizeServer_cases:
  assumes "resizeServer c serverID volumes s = (r, s')"
  obtains res where
    "r = map_sum id (\<lambda>_. ()) (read_answer False res)"
    "trace s' = trace s @ [Net (resize_request c serverID volumes) res]"
    "cl_httpDo c (resize_request c serverID volumes) (ext s) = (res, ext s')"
proof -
  obtain res w where "cl_httpDo c (resize_request c serverID volumes) (ext s) = (res, w)"
    by fastforce
  then show ?thesis
    using assms
    by (intro that [of res])
      (auto simp: resizeServer_def resize_request_def Client_do_run bindE_eq split: sum.splits)
qed

definition accepted :: "http_result \<Rightarrow> bool" where
  "accepted res \<longleftrightarrow> (case res of Response status _ \<Rightarrow> 200 \<le> status \<and> status \<le> 299 | _ \<Rightarrow> False)"

lemma accepted_read_answer: "accepted res \<longleftrightarrow> (\<exists>m. read_answer False res = Inr m)"
  by (auto simp: accepted_def read_answer_def split: http_result.splits if_splits)

lemma read_answer_unit:
  "map_sum id (\<lambda>_. ()) (read_answer False res) = Inr () \<longleftrightarrow> accepted res"
  "map_sum id (\<lambda>_. ()) (read_answer False res) = Inl e \<longleftrightarrow> read_answer False res = Inl e"
  by (auto simp: accepted_read_answer map_sum_def split: sum.splits)

lemma map_filter_all: "(\<And>x y. f x = Some y \<Longrightarrow> P y) \<Longrightarrow> \<forall>y \<in> set (List.map_filter f xs). P y"
  by (induction xs) (auto simp: List.map_filter_simps split: option.splits)

lemma parse_first_slice_all:
  assumes "\<And>x y. read x = Some y \<Longrightarrow> P y" and "parse_first_slice read m keys = Some ys"
  shows "\<forall>y \<in> set ys. P y"
  using assms(2)
proof (induction keys)
  case Nil
  then show ?case by simp
next
  case (Cons key keys)
  have "\<forall>y \<in> set (List.map_filter read raw). P y" for raw
    using assms(1) by (rule map_filter_all)
  with Cons show ?case by (auto simp: Let_def split: if_splits)
qed

lemma parseVolume_ID: "parseVolume m = Some v \<Longrightarrow> vol_ID v \<noteq> []"
  by (auto simp: parseVolume_def Let_def split: if_splits)

lemma parseVolumeList_ID: "v \<in> set (parseVolumeList m) \<Longrightarrow> vol_ID v \<noteq> []"
  using parse_first_slice_all [of "\<lambda>raw. parseVolume (asMap raw)" "\<lambda>v. vol_ID v \<noteq> []" m]
  by (cases "parse_first_slice (\<lambda>raw. parseVolume (asMap raw)) m
        [''volumes'', ''storageVolumes'', ''disks'']")
    (auto simp: parseVolumeList_def parseVolume_ID simp del: parse_first_slice.simps)

lemma serverState_of_ID: "v \<in> set (st_Volumes (serverState_of i m)) \<Longrightarrow> vol_ID v \<noteq> []"
  by (auto simp: serverState_of_def Let_def dest: parseVolumeList_ID split: if_splits)

lemma state_answer_ID:
  "state_answer i res = Inr st \<Longrightarrow> v \<in> set (st_Volumes st) \<Longrightarrow> vol_ID v \<noteq> []"
  by (auto simp: state_answer_def serverState_of_ID map_sum_def split: sum.splits)

lemma findVolumeByID_Some:
  "findVolumeByID volumes i = Some v \<Longrightarrow> v \<in> set volumes \<and> vol_ID v = i"
  by (auto simp: findVolumeByID_def dest: find_SomeD)

lemma findVolumeByID_None: "findVolumeByID volumes i = None \<longleftrightarrow> (\<forall>v \<in> set volumes. vol_ID v \<noteq> i)"
  by (auto simp: findVolumeByID_def find_None_iff_all)

lemma findVolumeByName_Some:
  "findVolumeByName volumes n = Some v \<Longrightarrow> v \<in> set volumes \<and> vol_Name v = n"
  by (auto simp: findVolumeByName_def dest: find_SomeD)

lemma findVolumeByName_None:
  "findVolumeByName volumes n = None \<longleftrightarrow> (\<forall>v \<in> set volumes. vol_Name v \<noteq> n)"
  by (auto simp: findVolumeByName_def find_None_iff_all)

lemma findNewVolume_Some:
  "findNewVolume before after req = Some v \<Longrightarrow>
     v \<in> set after \<and> \<not> vol_RootVolume v \<and> vol_ID v \<notin> vol_ID ` set before"
  by (auto simp: findNewVolume_def is_new_volume_def Let_def dest!: find_SomeD)

lemma findResizedVolume_in:
  "findResizedVolume before after volumeID req = Some v \<Longrightarrow> v \<in> set after"
  by (auto simp: findResizedVolume_def dest: findVolumeByID_Some findVolumeByName_Some
      findNewVolume_Some split: if_splits option.splits)

section \<open>Lookups only read\<close>

text \<open>A lookup sends GET requests and waits, nothing else.\<close>

fun only_reads :: "net_event \<Rightarrow> bool" where
  "only_reads (Net rq res) \<longleftrightarrow> rq_method rq = GET"
| "only_reads (Waited d) \<longleftrightarrow> True"
| "only_reads _ \<longleftrightarrow> False"

lemma emits_getServerState [emits_intros]: "emits only_reads (getServerState c i)"
  by (rule emitsI) (auto elim!: getServerState_cases)

lemma emits_getServerVolumes [emits_intros]: "emits only_reads (getServerVolumes c i)"
  unfolding getServerVolumes_def by (intro emits_intros)

lemma emits_ctx_wait [emits_intros]: "emits only_reads (ctx_wait c)"
  by (auto simp: emits_def ctx_wait_def split: prod.splits)

lemma emits_poll_resized [emits_intros]:
  "emits only_reads (poll_resized c state volumeID req attempt)"
proof (induction c state volumeID req attempt rule: poll_resized.induct)
  case (1 c state volumeID req attempt)
  then show ?case
    by (subst poll_resized.simps) (auto intro!: emits_intros split: option.splits)
qed

lemma emits_GetVolume [emits_intros]: "emits only_reads (Client_GetVolume c ref)"
  unfolding Client_GetVolume_def by (auto intro!: emits_intros split: option.splits)

lemma emits_find_on_servers [emits_intros]: "emits only_reads (find_on_servers c volumeID ids)"
  by (induction ids) (auto intro!: emits_intros split: option.splits)

lemma emits_FindVolume [emits_intros]: "emits only_reads (Client_FindVolume c volumeID ids)"
  unfolding Client_FindVolume_def by (intro emits_intros)

lemma emits_poll_attached [emits_intros]:
  "emits only_reads (poll_attached c ref req attempt)"
proof (induction c ref req attempt rule: poll_attached.induct)
  case (1 c ref req attempt)
  then show ?case
    by (subst poll_attached.simps) (auto intro!: emits_intros split: sum.splits)
qed

text \<open>One round of the lookups after a resize.\<close>

lemma poll_resized_round:
  assumes "poll_resized c state volumeID req attempt s = (Inr r, s')"
  obtains t vols u where
    "getServerVolumes c (st_ID state) t = (Inr vols, u)"
    "(\<exists>v. findResizedVolume (st_Volumes state) vols volumeID req = Some v \<and> r = Some v) \<or>
     (findResizedVolume (st_Volumes state) vols volumeID req = None \<and>
      poll_resized c state volumeID req (attempt + 1) u = (Inr r, s'))"
    "attempt < postResizeVolumeLookupAttempts"
proof -
  let ?found = "\<lambda>vols. findResizedVolume (st_Volumes state) vols volumeID req"
  have lt: "attempt < postResizeVolumeLookupAttempts"
    using assms by (subst (asm) poll_resized.simps) (simp split: if_splits)
  with assms obtain t where
    "bindE (getServerVolumes c (st_ID state))
       (\<lambda>vols. case ?found vols of
          Some volume \<Rightarrow> retE (Some volume)
        | None \<Rightarrow> poll_resized c state volumeID req (attempt + 1)) t = (Inr r, s')"
    unfolding poll_resized.simps [of c state volumeID req attempt]
    by (auto elim: bindE_Inr_cases)
  then obtain vols u where g: "getServerVolumes c (st_ID state) t = (Inr vols, u)"
    and k: "(case ?found vols of
          Some volume \<Rightarrow> retE (Some volume)
        | None \<Rightarrow> poll_resized c state volumeID req (attempt + 1)) u = (Inr r, s')"
    by (rule bindE_Inr_cases)
  show ?thesis
    using that [OF g _ lt] k by (cases "?found vols") auto
qed

lemma getServerVolumes_ID:
  "getServerVolumes c i s = (Inr vols, s') \<Longrightarrow> v \<in> set vols \<Longrightarrow> vol_ID v \<noteq> []"
  by (auto simp: getServerVolumes_def elim!: bindE_Inr_cases getServerState_cases
      dest!: sym [of "Inr _"] dest: state_answer_ID)

lemma poll_resized_Some:
  "poll_resized c state volumeID req attempt s = (Inr r, s') \<Longrightarrow>
     \<exists>v. r = Some v \<and> vol_ID v \<noteq> []"
proof (induction c state volumeID req attempt arbitrary: s rule: poll_resized.induct)
  case (1 c state volumeID req attempt)
  from "1.prems" show ?case
  proof (cases rule: poll_resized_round)
    case (1 t vols u)
    then show ?thesis
      by (auto dest: "1.IH" getServerVolumes_ID findResizedVolume_in)
  qed
qed

end
