(* ===== verification/Client_Sessions.thy ===== *)
theory Client_Sessions
  imports Client_Facts
begin

text \<open>
  The three operations that rewrite a server's volume array (ensure, delete, expand) have one
  shape: lock, read the server, decide, perhaps send one resize request and look the result
  up, unlock. The decision is a pure function of what was read, its \<open>plan\<close>; this theory
  shows the shape and what the plans send, whatever the HTTP side answers.
\<close>

section \<open>Plans\<close>

datatype 'a plan =
    Finish "client_error + 'a"
  | Send "StorageVolume list"

definition ensure_plan ::
  "ResizeVolumeRequest \<Rightarrow> StorageVolume list \<Rightarrow> StorageVolume option plan" where
  "ensure_plan req volumes =
     (case findVolumeByName volumes (rr_Name req) of
        Some existing \<Rightarrow>
          if sint (rr_SizeGiB req) \<le> sint (vol_SizeGiB existing) then Finish (Inr (Some existing))
          else Send (resize_next volumes (vol_ID existing) req)
      | None \<Rightarrow> Send (resize_next volumes [] req))"

definition delete_plan :: "VolumeRef \<Rightarrow> StorageVolume list \<Rightarrow> unit plan" where
  "delete_plan ref volumes =
     (case findVolumeByID volumes (ref_VolumeID ref) of
        None \<Rightarrow> Finish (Inr ())
      | Some target \<Rightarrow>
          if vol_RootVolume target then Finish (Inl (ERootDelete (ref_VolumeID ref)))
          else Send (filter (\<lambda>v. vol_ID v \<noteq> ref_VolumeID ref) volumes))"

definition expand_plan ::
  "ResizeVolumeRequest \<Rightarrow> StorageVolume list \<Rightarrow> StorageVolume option plan" where
  "expand_plan req volumes =
     (case findVolumeByID volumes (rr_VolumeID req) of
        None \<Rightarrow>
          Finish (Inl (EVolumeNotFound (rr_VolumeID req)
            (StorageClassServerID (rr_StorageClass req))))
      | Some existing \<Rightarrow>
          if vol_RootVolume existing then Finish (Inl (ERootResize (rr_VolumeID req)))
          else if sint (rr_SizeGiB req) < sint (vol_SizeGiB existing)
          then Finish (Inl (EShrink (rr_VolumeID req) (vol_SizeGiB existing) (rr_SizeGiB req)))
          else if vol_SizeGiB existing = rr_SizeGiB req then Finish (Inr (Some existing))
          else Send (resize_next volumes (rr_VolumeID req) req))"

lemmas plan_defs = ensure_plan_def delete_plan_def expand_plan_def

section \<open>Sessions\<close>

text \<open>
  The events of one operation on server \<open>k\<close>: between the lock's two events the answer that was
  read, then, when the plan is to send, one resize request with that array and after it only
  lookups.
\<close>

definition resize_session ::
  "'w Client \<Rightarrow> string \<Rightarrow> StorageVolume list \<Rightarrow> net_event list \<Rightarrow> bool" where
  "resize_session c serverID volumes evs \<longleftrightarrow>
     (\<exists>res polls. evs = Net (resize_request c serverID volumes) res # polls
        \<and> (\<forall>ev \<in> set polls. only_reads ev))"

definition plan_session ::
  "'w Client \<Rightarrow> string \<Rightarrow> (StorageVolume list \<Rightarrow> 'a plan) \<Rightarrow> client_error + 'a \<Rightarrow>
   net_event list \<Rightarrow> bool" where
  "plan_session c serverID plan r evs \<longleftrightarrow>
     (\<exists>res mid. evs = Locked (TrimSpace serverID) # Net (server_request c serverID) res
                        # mid @ [Unlocked (TrimSpace serverID)]
        \<and> (case state_answer serverID res of
             Inl e \<Rightarrow> mid = [] \<and> r = Inl e
           | Inr st \<Rightarrow>
               (case plan (st_Volumes st) of
                  Finish x \<Rightarrow> mid = [] \<and> r = x
                | Send volumes \<Rightarrow> resize_session c (st_ID st) volumes mid)))"

lemma Client_resizeVolume_session:
  assumes "Client_resizeVolume c state volumeID req s = (r, s')"
  obtains evs where "trace s' = trace s @ evs"
    and "resize_session c (st_ID state) (resize_next (st_Volumes state) volumeID req) evs"
proof -
  let ?next = "resize_next (st_Volumes state) volumeID req"
  from assms consider
    (failed) e where "resizeServer c (st_ID state) ?next s = (Inl e, s')"
  | (sent) t where "resizeServer c (st_ID state) ?next s = (Inr (), t)"
      and "poll_resized c state volumeID req 0 t = (r, s')"
    unfolding Client_resizeVolume_def by (auto elim: bindE_cases)
  then show ?thesis
  proof cases
    case failed
    then show ?thesis
      by (auto elim!: resizeServer_cases intro!: that simp: resize_session_def)
  next
    case sent
    obtain polls where "trace s' = trace t @ polls" "\<forall>ev \<in> set polls. only_reads ev"
      using emits_poll_resized sent(2) by (rule emitsD)
    with sent(1) show ?thesis
      by (auto elim!: resizeServer_cases intro!: that simp: resize_session_def)
  qed
qed

lemma resizeServer_session:
  assumes "resizeServer c serverID volumes s = (r, s')"
  obtains evs where "trace s' = trace s @ evs" and "resize_session c serverID volumes evs"
  using assms by (auto elim!: resizeServer_cases intro: that simp: resize_session_def)

lemma locked_plan_session:
  assumes run: "with_lockServer k (bindE (getServerState c k) act) s = (r, s')"
    and finish: "\<And>st x t. plan (st_Volumes st) = Finish x \<Longrightarrow> act st t = (x, t)"
    and send: "\<And>st volumes t r' t'. plan (st_Volumes st) = Send volumes \<Longrightarrow> act st t = (r', t') \<Longrightarrow>
      \<exists>evs. trace t' = trace t @ evs \<and> resize_session c (st_ID st) volumes evs"
  shows "\<exists>evs. trace s' = trace s @ evs \<and> plan_session c k plan r evs"
proof -
  let ?s = "log_event (Locked (TrimSpace k)) s"
  obtain u where u: "bindE (getServerState c k) act ?s = (r, u)"
    and s': "s' = log_event (Unlocked (TrimSpace k)) u"
    using run by (auto simp: with_lockServer_def Let_def split: prod.splits)
  from u show ?thesis
  proof (cases rule: bindE_cases)
    case (fails e)
    then obtain res where "state_answer k res = Inl e"
      and "trace u = trace ?s @ [Net (server_request c k) res]"
      by (auto elim!: getServerState_cases)
    with fails s' show ?thesis by (auto simp: plan_session_def)
  next
    case (goes_on st t)
    then obtain res where res: "state_answer k res = Inr st"
      and t: "trace t = trace ?s @ [Net (server_request c k) res]"
      by (auto elim!: getServerState_cases)
    show ?thesis
    proof (cases "plan (st_Volumes st)")
      case (Finish x)
      then have "act st t = (x, t)" by (rule finish)
      with goes_on res t Finish s' show ?thesis by (auto simp: plan_session_def)
    next
      case (Send volumes)
      with send goes_on obtain evs where "trace u = trace t @ evs"
        and "resize_session c (st_ID st) volumes evs" by blast
      with res t Send s' show ?thesis by (auto simp: plan_session_def)
    qed
  qed
qed

lemma EnsureVolume_session:
  assumes "Client_EnsureVolume c req s = (r, s')" and "validateResizeRequest req = Inr ()"
  shows "\<exists>evs. trace s' = trace s @ evs \<and>
     plan_session c (StorageClassServerID (rr_StorageClass req)) (ensure_plan req) r evs"
  using assms unfolding Client_EnsureVolume_def Let_def
  by (auto intro!: locked_plan_session simp: ensure_plan_def split: option.splits if_splits
      elim!: Client_resizeVolume_session)

lemma DeleteVolume_session:
  assumes "Client_DeleteVolume c ref s = (r, s')" and "validateRef ref = Inr ()"
  shows "\<exists>evs. trace s' = trace s @ evs \<and>
     plan_session c (ref_ServerID ref) (delete_plan ref) r evs"
  using assms unfolding Client_DeleteVolume_def Let_def
  by (auto intro!: locked_plan_session simp: delete_plan_def split: option.splits if_splits
      elim!: resizeServer_session)

lemma ExpandVolume_session:
  assumes "Client_ExpandVolume c req s = (r, s')" and "validateResizeRequest req = Inr ()"
    and "TrimSpace (rr_VolumeID req) \<noteq> []"
  shows "\<exists>evs. trace s' = trace s @ evs \<and>
     plan_session c (StorageClassServerID (rr_StorageClass req)) (expand_plan req) r evs"
  using assms unfolding Client_ExpandVolume_def Let_def
  by (auto intro!: locked_plan_session simp: expand_plan_def split: option.splits if_splits
      elim!: Client_resizeVolume_session)

end
