(* ===== verification/Simulated_Morpheus.thy ===== *)
theory Simulated_Morpheus
  imports Client_Runs "HOL-Library.Code_Target_Nat"
begin

text \<open>
  A concrete Morpheus API to run the client against, after the stateful fake servers of
  \<open>client_test.go\<close>: it keeps the JSON objects of each server's volumes and of the volumes that are
  attached nowhere, answers the server lookup, replaces the whole array on a resize (giving
  an id to the items sent with \<open>-1\<close>), and moves a volume on detach and attach. It serves as the
  concrete HTTP side in witnesses; no property is stated about it.
\<close>

record sim =
  sim_servers :: "(string \<times> any_map list) list"
  sim_loose :: "any_map list"
  sim_next :: nat

definition sim_volumes :: "sim \<Rightarrow> string \<Rightarrow> any_map list" where
  "sim_volumes w i = (case map_of (sim_servers w) i of None \<Rightarrow> [] | Some vs \<Rightarrow> vs)"

fun sim_put :: "string \<Rightarrow> 'a \<Rightarrow> (string \<times> 'a) list \<Rightarrow> (string \<times> 'a) list" where
  "sim_put k v [] = [(k, v)]"
| "sim_put k v ((k', v') # xs) = (if k' = k then (k, v) # xs else (k', v') # sim_put k v xs)"

definition sim_set :: "sim \<Rightarrow> string \<Rightarrow> any_map list \<Rightarrow> sim" where
  "sim_set w i vs = w\<lparr>sim_servers := sim_put i vs (sim_servers w)\<rparr>"

definition sim_has_id :: "string \<Rightarrow> any_map \<Rightarrow> bool" where
  "sim_has_id i m \<longleftrightarrow> stringValue (any_get m ''id'') = i"

fun sim_store :: "nat \<Rightarrow> any list \<Rightarrow> any_map list" where
  "sim_store n [] = []"
| "sim_store n (item # items) =
     (let m = asMap item in
      (if sim_has_id ''-1'' m
       then (''id'', AString (''vol-'' @ show_nat n)) # filter (\<lambda>(k, v). k \<noteq> ''id'') m
       else m) # sim_store (Suc n) items)"

definition sim_path :: "http_request \<Rightarrow> string list" where
  "sim_path req = Split_on (CHR ''/'') (takeWhile (\<lambda>ch. ch \<noteq> CHR ''?'') (rq_target req))"

definition sim_ok :: http_result where
  "sim_ok = Response 200 NoBody"

definition sim_get :: "string \<Rightarrow> sim \<Rightarrow> http_result" where
  "sim_get i w =
     (case map_of (sim_servers w) i of
        None \<Rightarrow> Response 404 NoBody
      | Some vs \<Rightarrow>
          Response 200 (JsonBody (AMap [(''server'',
            AMap [(''id'', AString i), (''volumes'', ASlice (map AMap vs))])])))"

definition sim_resize :: "string \<Rightarrow> any option \<Rightarrow> sim \<Rightarrow> http_result \<times> sim" where
  "sim_resize i body w =
     (case body of
        Some (AMap m) \<Rightarrow>
          let items = asSlice (any_get m ''volumes'')
          in (sim_ok, (sim_set w i (sim_store (sim_next w) items))
                        \<lparr>sim_next := sim_next w + length items\<rparr>)
      | _ \<Rightarrow> (Response 400 NoBody, w))"

definition sim_detach :: "string \<Rightarrow> string \<Rightarrow> sim \<Rightarrow> http_result \<times> sim" where
  "sim_detach i vid w =
     (let vs = sim_volumes w i
      in (sim_ok, (sim_set w i (filter (\<lambda>m. \<not> sim_has_id vid m) vs))
                    \<lparr>sim_loose := sim_loose w @ filter (sim_has_id vid) vs\<rparr>))"

definition sim_attach :: "string \<Rightarrow> string \<Rightarrow> sim \<Rightarrow> http_result \<times> sim" where
  "sim_attach i vid w =
     (let vs = sim_volumes w i
      in (sim_ok, (sim_set w i (vs @ filter (sim_has_id vid) (sim_loose w)))
                    \<lparr>sim_loose := filter (\<lambda>m. \<not> sim_has_id vid m) (sim_loose w)\<rparr>))"

definition sim_search :: "sim \<Rightarrow> http_result" where
  "sim_search w =
     Response 200 (JsonBody (AMap [(''servers'',
       ASlice (map (\<lambda>(i, _). AMap [(''id'', AString i), (''name'', AString i)]) (sim_servers w)))]))"

definition sim_http :: "http_request \<Rightarrow> sim \<Rightarrow> http_result \<times> sim" where
  "sim_http req w =
     (case (rq_method req, sim_path req) of
        (GET, [_, _, _]) \<Rightarrow> (sim_search w, w)
      | (GET, [_, _, _, i]) \<Rightarrow> (sim_get i w, w)
      | (PUT, [_, _, _, i, _]) \<Rightarrow> sim_resize i (rq_body req) w
      | (PUT, [_, _, _, i, _, vid, action]) \<Rightarrow>
          if action = ''detach'' then sim_detach i vid w else sim_attach i vid w
      | _ \<Rightarrow> (Response 404 NoBody, w))"

definition sim_client :: "sim Client" where
  "sim_client =
     \<lparr>cl_basePath = [], cl_forceQuery = False, cl_token = ''token'', cl_httpDo = sim_http,
      cl_ctxWait = (\<lambda>w. (False, w)), cl_unicodeFold = (\<lambda>a b. a = b)\<rparr>"

definition sim_world :: "(string \<times> any_map list) list \<Rightarrow> (sim, net_event) world" where
  "sim_world servers =
     \<lparr>ext = \<lparr>sim_servers = servers, sim_loose = [], sim_next = 0\<rparr>, trace = []\<rparr>"

text \<open>A server with a root disk and one volume, and one with a root disk only.\<close>

definition sim_root :: any_map where
  "sim_root =
     [(''id'', AString ''root''), (''name'', AString ''root''), (''sizeGiB'', AFloat (Float64 20 0)),
      (''rootVolume'', ABool True)]"

definition sim_pvc :: any_map where
  "sim_pvc =
     [(''id'', AString ''77''), (''name'', AString ''pvc-1''), (''sizeGiB'', AFloat (Float64 10 0)),
      (''rootVolume'', ABool False)]"

definition sim_two :: "(sim, net_event) world" where
  "sim_two = sim_world [(''12'', [sim_root, sim_pvc]), (''13'', [sim_root])]"

definition sim_request :: "string \<Rightarrow> string \<Rightarrow> int64 \<Rightarrow> ResizeVolumeRequest" where
  "sim_request name volumeID gib =
     \<lparr>rr_Name = name, rr_SizeGiB = gib, rr_StorageClass = [ParamServerID \<mapsto> ''12''],
      rr_VolumeID = volumeID\<rparr>"

text \<open>Runs that write, shared by the witnesses.\<close>

definition puts :: "net_event list \<Rightarrow> http_request list" where
  "puts evs =
     List.map_filter
       (\<lambda>ev. case ev of Net rq _ \<Rightarrow> if rq_method rq = PUT then Some rq else None | _ \<Rightarrow> None) evs"

lemma puts_in: "rq \<in> set (puts evs) \<Longrightarrow> \<exists>res. Net rq res \<in> set evs \<and> rq_method rq = PUT"
  by (induction evs)
    (auto simp: puts_def List.map_filter_simps split: option.splits net_event.splits if_splits)

lemma puts_run:
  assumes "puts (trace (snd run)) \<noteq> []"
  obtains rq res where "Net rq res \<in> set (trace (snd run))" and "rq_method rq = PUT"
  using assms puts_in by (metis list.set_intros(1) neq_Nil_conv)

lemma sim_server_id [simp]: "StorageClassServerID (rr_StorageClass (sim_request n i g)) = ''12''"
  by (simp add: sim_request_def) code_simp

definition sim_ref :: VolumeRef where
  "sim_ref = \<lparr>ref_ServerID = ''12'', ref_VolumeID = ''77''\<rparr>"

lemma sim_ref_IDs [simp]: "ref_ServerID sim_ref = ''12''" "ref_VolumeID sim_ref = ''77''"
  by (simp_all add: sim_ref_def)

lemma sim_request_VolumeID [simp]: "rr_VolumeID (sim_request n i g) = i"
  by (simp add: sim_request_def)

lemma sim_two_trace [simp]: "trace sim_two = []"
  by (simp add: sim_two_def sim_world_def)

lemma sim_ensure_puts:
  "puts (trace (snd (Client_EnsureVolume sim_client (sim_request ''pvc-2'' [] 5) sim_two))) \<noteq> []"
  by code_simp

lemma sim_delete_puts: "puts (trace (snd (Client_DeleteVolume sim_client sim_ref sim_two))) \<noteq> []"
  by code_simp

lemma sim_expand_puts:
  "puts (trace (snd (Client_ExpandVolume sim_client (sim_request [] ''77'' 20) sim_two))) \<noteq> []"
  by code_simp

end
