(* ===== verification/Client_Moves.thy ===== *)
theory Client_Moves
  imports Client_Facts Simulated_Morpheus
begin

text \<open>
  Finding a volume on the candidate servers, moving it between servers, and finding the server
  of a node, whatever the HTTP side answers.
\<close>

section \<open>FindVolume\<close>

definition reads_of :: "'w Client \<Rightarrow> string list \<Rightarrow> http_result list \<Rightarrow> net_event list" where
  "reads_of c ids answers = map2 (\<lambda>i a. Net (server_request c i) a) ids answers"

definition lacks :: "string \<Rightarrow> string \<Rightarrow> http_result \<Rightarrow> bool" where
  "lacks volumeID serverID answer \<longleftrightarrow>
     (case state_answer serverID answer of
        Inl _ \<Rightarrow> False
      | Inr st \<Rightarrow> findVolumeByID (st_Volumes st) volumeID = None)"

text \<open>
  The candidates \<open>before\<close> were read in order, each without an error and without the volume, and then
  server \<open>i\<close> was read and has it.
\<close>

definition found_first ::
  "'w Client \<Rightarrow> string \<Rightarrow> string list \<Rightarrow> string \<Rightarrow> StorageVolume \<Rightarrow> net_event list \<Rightarrow> bool" where
  "found_first c volumeID ids i v evs \<longleftrightarrow>
     (\<exists>before after answers a st. ids = before @ i # after
        \<and> evs = reads_of c before answers @ [Net (server_request c i) a]
        \<and> list_all2 (lacks volumeID) before answers
        \<and> state_answer i a = Inr st \<and> findVolumeByID (st_Volumes st) volumeID = Some v)"

lemma getServerVolumes_cases:
  assumes "getServerVolumes c i s = (r, s')"
  obtains a where "trace s' = trace s @ [Net (server_request c i) a]"
    and "r = map_sum id st_Volumes (state_answer i a)"
  using assms unfolding getServerVolumes_def
  by (elim bindE_cases getServerState_cases) (auto intro!: that dest!: sym [of "Inl _"] sym [of "Inr _"])

lemma found_first_here:
  assumes "state_answer k a = Inr st" and "findVolumeByID (st_Volumes st) volumeID = Some v"
  shows "found_first c volumeID (k # ids) k v [Net (server_request c k) a]"
  unfolding found_first_def using assms
  by (intro exI [of _ "[]"] exI [of _ ids] exI [of _ a] exI [of _ st]) (simp add: reads_of_def)

lemma found_first_Cons:
  assumes "lacks volumeID k a" and "found_first c volumeID ids i v evs"
  shows "found_first c volumeID (k # ids) i v (Net (server_request c k) a # evs)"
proof -
  from assms(2) obtain before after answers b st where "ids = before @ i # after"
    "evs = reads_of c before answers @ [Net (server_request c i) b]"
    "list_all2 (lacks volumeID) before answers"
    "state_answer i b = Inr st" "findVolumeByID (st_Volumes st) volumeID = Some v"
    by (auto simp: found_first_def)
  with assms(1) show ?thesis
    unfolding found_first_def
    by (intro exI [of _ "k # before"] exI [of _ after] exI [of _ "a # answers"] exI [of _ b]
        exI [of _ st]) (simp add: reads_of_def)
qed

lemma find_on_servers_Inr:
  "find_on_servers c volumeID ids s = (Inr (ref, found), s') \<Longrightarrow>
     \<exists>i v evs. ref = \<lparr>ref_ServerID = i, ref_VolumeID = volumeID\<rparr> \<and> found = Some v
        \<and> trace s' = trace s @ evs \<and> found_first c volumeID ids i v evs"
proof (induction ids arbitrary: s)
  case Nil
  then show ?case by simp
next
  case (Cons k ids)
  from Cons.prems obtain vols t where g: "getServerVolumes c k s = (Inr vols, t)"
    and rest: "(case findVolumeByID vols volumeID of
        Some volume \<Rightarrow> retE (\<lparr>ref_ServerID = k, ref_VolumeID = volumeID\<rparr>, Some volume)
      | None \<Rightarrow> find_on_servers c volumeID ids) t = (Inr (ref, found), s')"
    by (auto elim: bindE_Inr_cases)
  from g obtain a st where t: "trace t = trace s @ [Net (server_request c k) a]"
    and st: "state_answer k a = Inr st" "vols = st_Volumes st"
    by (elim getServerVolumes_cases) (auto simp: map_sum_def split: sum.splits)
  show ?case
  proof (cases "findVolumeByID vols volumeID")
    case (Some v)
    with rest have "ref = \<lparr>ref_ServerID = k, ref_VolumeID = volumeID\<rparr>" "found = Some v" "s' = t"
      by auto
    with t found_first_here [OF st(1), of volumeID v] Some st(2) show ?thesis by auto
  next
    case None
    then have "lacks volumeID k a" using st by (simp add: lacks_def)
    with None rest Cons.IH t show ?thesis
      by (fastforce dest: found_first_Cons)
  qed
qed

lemma FindVolume_found_first:
  assumes "Client_FindVolume c volumeID serverIDs s = (Inr (ref, found), s')"
  shows "\<exists>i v evs. ref = \<lparr>ref_ServerID = i, ref_VolumeID = TrimSpace volumeID\<rparr> \<and> found = Some v
     \<and> trace s' = trace s @ evs
     \<and> found_first c (TrimSpace volumeID) (first_occurrences (nonblank serverIDs)) i v evs"
  using assms find_on_servers_Inr
  by (auto simp: Client_FindVolume_def uniqueNonEmpty_def unique_loop_eq split: if_splits)

text \<open>
  C17: when FindVolume succeeds it returns the first candidate (blank and repeated ones left out)
  that has the volume: the candidates before it were all read, in order, and do not have it.
\<close>

theorem FindVolume_first_holder:
  assumes "Client_FindVolume c volumeID serverIDs s = (Inr (ref, found), s')"
  shows "\<exists>i v evs. ref = \<lparr>ref_ServerID = i, ref_VolumeID = TrimSpace volumeID\<rparr> \<and> found = Some v
     \<and> trace s' = trace s @ evs
     \<and> found_first c (TrimSpace volumeID) (first_occurrences (nonblank serverIDs)) i v evs"
  using assms by (rule FindVolume_found_first)

lemma sim_find_result: "\<not> isl (fst (Client_FindVolume sim_client ''77'' ['' 13'', ''12''] sim_two))"
  by code_simp

theorem FindVolume_first_holder_witness:
  "\<exists>i v evs. trace (snd (Client_FindVolume sim_client ''77'' ['' 13'', ''12''] sim_two)) = evs
     \<and> found_first sim_client ''77'' [''13'', ''12''] i v evs"
proof -
  let ?run = "Client_FindVolume sim_client ''77'' ['' 13'', ''12''] sim_two"
  obtain ref found where "?run = (Inr (ref, found), snd ?run)"
    using sim_find_result by (metis isl_def old.sum.exhaust prod.collapse)
  from FindVolume_first_holder [OF this]
  have "\<exists>i v evs. trace (snd ?run) = evs \<and> found_first sim_client (TrimSpace ''77'')
      (first_occurrences (nonblank ['' 13'', ''12''])) i v evs" by auto
  moreover have "first_occurrences (nonblank ['' 13'', ''12'']) = [''13'', ''12'']" by code_simp
  moreover have "TrimSpace ''77'' = ''77''" by code_simp
  ultimately show ?thesis by simp
qed

section \<open>MoveVolume\<close>

lemma DetachVolume_run:
  assumes "Client_DetachVolume c ref s = (r, s')" and "validateRef ref = Inr ()"
  obtains a where "trace s' = trace s @ [Net (detach_request c ref) a]"
    and "r = map_sum id (\<lambda>_. ()) (read_answer False a)"
proof -
  obtain a w where "cl_httpDo c (detach_request c ref) (ext s) = (a, w)" by fastforce
  then show ?thesis
    using assms
    by (intro that [of a])
      (auto simp: Client_DetachVolume_def detach_request_def Client_do_run bindE_eq split: sum.splits)
qed

lemma attachVolume_run:
  assumes "attachVolume c ref s = (r, s')" and "validateRef ref = Inr ()"
  obtains a where "trace s' = trace s @ [Net (attach_request c ref) a]"
    and "r = map_sum id (\<lambda>_. ()) (read_answer False a)"
proof -
  obtain a w where "cl_httpDo c (attach_request c ref) (ext s) = (a, w)" by fastforce
  then show ?thesis
    using assms
    by (intro that [of a])
      (auto simp: attachVolume_def attach_request_def Client_do_run bindE_eq split: sum.splits)
qed

text \<open>
  What a move that writes does: find the volume, detach it there, and only if that was accepted
  attach it to the target, and only if that was accepted look it up there.
\<close>

definition move_target :: "MoveVolumeRequest \<Rightarrow> VolumeRef" where
  "move_target req = \<lparr>ref_ServerID = mv_TargetServerID req, ref_VolumeID = mv_VolumeID req\<rparr>"

definition attach_events :: "'w Client \<Rightarrow> MoveVolumeRequest \<Rightarrow> net_event list \<Rightarrow> bool" where
  "attach_events c req evs \<longleftrightarrow>
     (\<exists>a polls. evs = Net (attach_request c (move_target req)) a # polls
        \<and> (if accepted a then \<forall>ev \<in> set polls. only_reads ev else polls = []))"

definition move_events ::
  "'w Client \<Rightarrow> MoveVolumeRequest \<Rightarrow> string \<Rightarrow> net_event list \<Rightarrow> bool" where
  "move_events c req source evs \<longleftrightarrow>
     (\<exists>d rest. evs = Net (detach_request c
          \<lparr>ref_ServerID = source, ref_VolumeID = TrimSpace (mv_VolumeID req)\<rparr>) d # rest
        \<and> (if accepted d then attach_events c req rest else rest = []))"

lemma attach_then_poll:
  assumes run: "bindE (attachVolume c (move_target req)) (\<lambda>_. poll_attached c (move_target req) req 0) s
      = (r, s')"
    and valid: "validateRef (move_target req) = Inr ()"
  obtains evs where "trace s' = trace s @ evs" and "attach_events c req evs"
  using run
proof (cases rule: bindE_cases)
  case (fails e)
  then obtain a where "trace s' = trace s @ [Net (attach_request c (move_target req)) a]"
    and "\<not> accepted a"
    using attachVolume_run [OF fails(1) valid] by (metis read_answer_unit(1) sum.distinct(1))
  then show ?thesis by (intro that) (auto simp: attach_events_def)
next
  case (goes_on x t)
  then obtain a where t: "trace t = trace s @ [Net (attach_request c (move_target req)) a]"
    and a: "accepted a"
    using attachVolume_run [OF goes_on(1) valid] by (metis read_answer_unit(1) old.unit.exhaust)
  obtain polls where "trace s' = trace t @ polls" "\<forall>ev \<in> set polls. only_reads ev"
    using emits_poll_attached goes_on(2) by (rule emitsD)
  with t a show ?thesis by (intro that) (auto simp: attach_events_def)
qed

lemma validateRef_iff [simp]:
  "validateRef ref = Inr () \<longleftrightarrow> TrimSpace (ref_ServerID ref) \<noteq> [] \<and> TrimSpace (ref_VolumeID ref) \<noteq> []"
  by (simp add: validateRef_def)

lemma detach_then_attach:
  fixes source :: string and req :: MoveVolumeRequest
  defines "src \<equiv> \<lparr>ref_ServerID = source, ref_VolumeID = TrimSpace (mv_VolumeID req)\<rparr>"
  assumes run: "bindE (Client_DetachVolume c src)
      (\<lambda>_. bindE (attachVolume c (move_target req))
        (\<lambda>_. poll_attached c (move_target req) req 0)) s = (r, s')"
    and valid: "validateRef src = Inr ()" "validateRef (move_target req) = Inr ()"
  obtains evs where "trace s' = trace s @ evs" and "move_events c req source evs"
  using run
proof (cases rule: bindE_cases)
  case (fails e)
  then obtain a where "trace s' = trace s @ [Net (detach_request c src) a]" and "\<not> accepted a"
    using DetachVolume_run [OF fails(1) valid(1)] by (metis read_answer_unit(1) sum.distinct(1))
  then show ?thesis by (intro that) (auto simp: move_events_def src_def)
next
  case (goes_on x t)
  then obtain a where t: "trace t = trace s @ [Net (detach_request c src) a]" and a: "accepted a"
    using DetachVolume_run [OF goes_on(1) valid(1)] by (metis read_answer_unit(1) old.unit.exhaust)
  from goes_on(2) valid(2) obtain rest where "trace s' = trace t @ rest" "attach_events c req rest"
    by (rule attach_then_poll)
  with t a show ?thesis by (intro that) (auto simp: move_events_def src_def)
qed

lemma found_first_in: "found_first c volumeID ids i v evs \<Longrightarrow> i \<in> set ids"
  by (auto simp: found_first_def)

lemma found_first_reads: "found_first c volumeID ids i v evs \<Longrightarrow> ev \<in> set evs \<Longrightarrow> only_reads ev"
  by (auto simp: found_first_def reads_of_def set_zip)

lemma MoveVolume_run:
  assumes run: "Client_MoveVolume c req s = (r, s')"
  shows "\<exists>evs. trace s' = trace s @ evs \<and>
    ((\<forall>ev \<in> set evs. only_reads ev) \<or>
     (\<exists>reads source v writes. evs = reads @ writes
        \<and> found_first c (TrimSpace (mv_VolumeID req)) (first_occurrences (nonblank
             (mv_CandidateServerIDs req @ [mv_SourceServerID req, mv_TargetServerID req])))
             source v reads
        \<and> source \<noteq> mv_TargetServerID req \<and> \<not> vol_RootVolume v
        \<and> move_events c req source writes))"
proof -
  let ?ids = "mv_CandidateServerIDs req @ [mv_SourceServerID req, mv_TargetServerID req]"
  show ?thesis
  proof (cases "TrimSpace (mv_TargetServerID req) = []")
    case True
    then show ?thesis using run by (simp add: Client_MoveVolume_def)
  next
    case target: False
    let ?move = "\<lambda>sourceRef. bindE (Client_DetachVolume c sourceRef)
      (\<lambda>_. bindE (attachVolume c (move_target req)) (\<lambda>_. poll_attached c (move_target req) req 0))"
    have "bindE (Client_FindVolume c (mv_VolumeID req) ?ids)
        (\<lambda>(sourceRef, volume).
           if ref_ServerID sourceRef = mv_TargetServerID req then retE volume
           else if (case volume of Some v \<Rightarrow> vol_RootVolume v | None \<Rightarrow> False)
           then throwE (ERootMove (mv_VolumeID req))
           else ?move sourceRef) s = (r, s')"
      using run target unfolding Client_MoveVolume_def move_target_def Let_def by simp
    then show ?thesis
    proof (cases rule: bindE_cases)
      case (fails e)
      with emits_FindVolume show ?thesis by (metis emitsD)
    next
      case (goes_on x t)
      obtain ref found where x: "x = (ref, found)" by (cases x)
      from FindVolume_found_first [OF goes_on(1) [unfolded x]] obtain i v evs where
        ref: "ref = \<lparr>ref_ServerID = i, ref_VolumeID = TrimSpace (mv_VolumeID req)\<rparr>"
        and found: "found = Some v" and t: "trace t = trace s @ evs"
        and first: "found_first c (TrimSpace (mv_VolumeID req))
          (first_occurrences (nonblank ?ids)) i v evs" by blast
      show ?thesis
      proof (cases "i = mv_TargetServerID req \<or> vol_RootVolume v")
        case True
        then have "s' = t" using goes_on(2) x ref found by (auto split: if_splits)
        with t first found_first_reads show ?thesis by blast
      next
        case False
        then have move: "?move ref t = (r, s')" using goes_on(2) x ref found by auto
        have "i \<in> set (nonblank ?ids)" using first found_first_in by fastforce
        then have "TrimSpace i \<noteq> []" by (auto simp: set_nonblank)
        moreover have "TrimSpace (mv_VolumeID req) \<noteq> []"
          using goes_on(1) by (auto simp: Client_FindVolume_def split: if_splits)
        ultimately obtain writes where "trace s' = trace t @ writes"
          and "move_events c req i writes"
          using move target unfolding ref
          by (elim detach_then_attach) (auto simp: move_target_def)
        with False t first show ?thesis by (intro exI [of _ "evs @ writes"]) auto
      qed
    qed
  qed
qed

text \<open>
  C6: a MoveVolume call either only reads, or finds the volume first on a server other than the
  target, where it is no root disk, detaches it there, and then attaches it to the target only
  if Morpheus accepted the detach; after that it only reads.
\<close>

theorem MoveVolume_events:
  "\<exists>evs. trace (snd (Client_MoveVolume c req s)) = trace s @ evs \<and>
    (list_all only_reads evs \<or>
     (\<exists>reads source v writes. evs = reads @ writes
        \<and> found_first c (TrimSpace (mv_VolumeID req)) (first_occurrences (nonblank
             (mv_CandidateServerIDs req @ [mv_SourceServerID req, mv_TargetServerID req])))
             source v reads
        \<and> source \<noteq> mv_TargetServerID req \<and> \<not> vol_RootVolume v
        \<and> move_events c req source writes))"
  using MoveVolume_run [OF prod.collapse [symmetric]] by (simp add: list_all_iff)

section \<open>ResolveServerIDByNodeName\<close>

text \<open>The request of the lookup, and the answer it stands for: exactly one of the servers.\<close>

definition search_request :: "'w Client \<Rightarrow> string \<Rightarrow> http_request" where
  "search_request c nodeName =
     client_request c GET ''/api/servers'' (''phrase='' @ QueryEscape nodeName) None"

definition only_match :: "('a \<Rightarrow> bool) \<Rightarrow> 'a list \<Rightarrow> 'a \<Rightarrow> bool" where
  "only_match P xs x \<longleftrightarrow>
     (\<exists>before after. xs = before @ x # after \<and> P x \<and> list_all (\<lambda>y. \<not> P y) (before @ after))"

lemma filter_single: "filter P xs = [x] \<longleftrightarrow> only_match P xs x"
proof
  assume "filter P xs = [x]"
  then obtain us vs where xs: "xs = us @ x # vs" and "\<forall>u \<in> set us. \<not> P u" "P x" "filter P vs = []"
    unfolding filter_eq_Cons_iff by metis
  then have "list_all (\<lambda>y. \<not> P y) (us @ vs)" by (auto simp: list_all_iff filter_empty_conv)
  with xs \<open>P x\<close> show "only_match P xs x" unfolding only_match_def by blast
next
  assume "only_match P xs x"
  then obtain us vs where "xs = us @ x # vs" "P x" "list_all (\<lambda>y. \<not> P y) (us @ vs)"
    unfolding only_match_def by blast
  then show "filter P xs = [x]"
    by (simp add: list_all_iff filter_empty_conv)
qed

text \<open>What the operation makes of the servers of an answer.\<close>

definition resolve_answer ::
  "(string \<Rightarrow> string \<Rightarrow> bool) \<Rightarrow> string \<Rightarrow> serverRecord list \<Rightarrow> client_error + string" where
  "resolve_answer unicode_fold nodeName servers =
     (let exact = filter (\<lambda>sv. matchesNodeName unicode_fold sv nodeName) servers
      in if servers = [] then Inl (ENoServerMatched nodeName)
         else if length exact = 1 then Inr (sv_ID (hd exact))
         else if 1 < length exact then Inl (EMultipleExactServers nodeName)
         else if length servers = 1 then Inr (sv_ID (hd servers))
         else Inl (EMultipleServers nodeName))"

lemma resolve_answer_Inr:
  "resolve_answer unicode_fold nodeName servers = Inr i \<longleftrightarrow>
     (\<exists>server. i = sv_ID server \<and>
        (only_match (\<lambda>sv. matchesNodeName unicode_fold sv nodeName) servers server
         \<or> servers = [server]))"
    (is "?lhs \<longleftrightarrow> ?rhs")
proof -
  let ?P = "\<lambda>sv. matchesNodeName unicode_fold sv nodeName"
  consider (none) "filter ?P servers = []" | (one) x where "filter ?P servers = [x]"
    | (many) x y zs where "filter ?P servers = x # y # zs"
    by (metis list.exhaust)
  then show ?thesis
  proof cases
    case none
    then have "\<not> only_match ?P servers sv" for sv by (simp add: filter_single [symmetric])
    with none show ?thesis
      by (cases servers) (auto simp: resolve_answer_def Let_def)
  next
    case one
    then have only: "only_match ?P servers sv \<longleftrightarrow> sv = x" for sv
      by (auto simp: filter_single [symmetric])
    moreover have "servers \<noteq> []" using one by auto
    moreover have "sv = x" if "servers = [sv]" for sv
      using one that by (simp split: if_splits)
    ultimately show ?thesis using one by (auto simp: resolve_answer_def Let_def)
  next
    case many
    then have "\<not> only_match ?P servers sv" for sv by (simp add: filter_single [symmetric])
    moreover have "servers \<noteq> [sv]" for sv using many by (auto split: if_splits)
    moreover have "servers \<noteq> []" using many by auto
    ultimately show ?thesis using many by (auto simp: resolve_answer_def Let_def)
  qed
qed

text \<open>
  C18: a node name is resolved with one search; the result is a server id exactly when one server
  of the answer has that name (or host name or external id), or none has it and the answer has
  only one server.
\<close>

theorem ResolveServerID_unique:
  "\<exists>evs. trace (snd (Client_ResolveServerIDByNodeName c name s)) = trace s @ evs
     \<and> (fst (Client_ResolveServerIDByNodeName c name s) = Inr i
        \<longleftrightarrow> (\<exists>a m server. evs = [Net (search_request c (TrimSpace name)) a]
              \<and> TrimSpace name \<noteq> [] \<and> read_answer True a = Inr m \<and> i = sv_ID server
              \<and> (only_match (\<lambda>sv. matchesNodeName (cl_unicodeFold c) sv (TrimSpace name))
                   (parseServerList m) server
                 \<or> parseServerList m = [server])))"
proof (cases "TrimSpace name = []")
  case True
  then show ?thesis by (simp add: Client_ResolveServerIDByNodeName_def)
next
  case name: False
  let ?P = "\<lambda>sv. matchesNodeName (cl_unicodeFold c) sv (TrimSpace name)"
  obtain a w where http: "cl_httpDo c (search_request c (TrimSpace name)) (ext s) = (a, w)"
    by fastforce
  let ?ev = "Net (search_request c (TrimSpace name)) a"
  have run: "Client_ResolveServerIDByNodeName c name s =
      (case read_answer True a of Inl e \<Rightarrow> Inl e
       | Inr m \<Rightarrow> resolve_answer (cl_unicodeFold c) (TrimSpace name) (parseServerList m),
       log_event ?ev (s\<lparr>ext := w\<rparr>))"
    using name http
    by (simp add: Client_ResolveServerIDByNodeName_def Let_def bindE_eq search_request_def
        Client_do_run resolve_answer_def split: sum.splits)
  show ?thesis
    by (rule exI [of _ "[?ev]"])
      (auto simp: run name resolve_answer_Inr split: sum.splits)
qed

end
