(* ===== verification/Node_Resolver.thy ===== *)
theory Node_Resolver
  imports Morpheus_Client
begin

text \<open>
  The resolver of node names to Morpheus servers by a label of the Kubernetes nodes
  (\<open>internal/driver/node_resolver.go\<close>).
\<close>

section \<open>The resolver\<close>

datatype resolver_error =
    EKubeServiceEnv
  | EKubeURL
  | EKubeURLIncomplete
  | ELabelKeyRequired
  | EKubeNodeName
  | EKubeToken
  | EKubeTransport
  | EKubeBody
  | EKubeStatus int
  | EKubeJson
  | EMissingLabel string string
  | ENoLabeledNodes string

text \<open>
  Of the base URL the path matters and, with its question mark, the query, which every request
  keeps. \<open>kr_readToken\<close> reads the service account token file, \<open>None\<close> when that fails.
\<close>

record 'w kubernetesNodeServerResolver =
  kr_basePath :: string
  kr_baseQuery :: string
  kr_tokenPath :: string
  kr_labelKey :: string
  kr_httpDo :: "http_request \<Rightarrow> 'w \<Rightarrow> http_result \<times> 'w"
  kr_readToken :: "string \<Rightarrow> 'w \<Rightarrow> string option"
  kr_unicodeFold :: "string \<Rightarrow> string \<Rightarrow> bool"

type_synonym ('w, 'a) resolver_io = "(('w, net_event) world, resolver_error, 'a) io"

definition serviceAccountTokenPath :: string where
  "serviceAccountTokenPath = ''/var/run/secrets/kubernetes.io/serviceaccount/token''"

fun firstNonEmptyString :: "string list \<Rightarrow> string" where
  "firstNonEmptyString [] = []"
| "firstNonEmptyString (v # vs) = (if TrimSpace v \<noteq> [] then TrimSpace v else firstNonEmptyString vs)"

definition newKubernetesNodeServerResolverWithHTTPClient ::
  "(http_request \<Rightarrow> 'w \<Rightarrow> http_result \<times> 'w) \<Rightarrow> (string \<Rightarrow> 'w \<Rightarrow> string option) \<Rightarrow>
   (string \<Rightarrow> string \<Rightarrow> bool) \<Rightarrow> string \<Rightarrow> string \<Rightarrow> string \<Rightarrow>
   resolver_error + 'w kubernetesNodeServerResolver" where
  "newKubernetesNodeServerResolverWithHTTPClient httpDo readToken ufold rawURL tokenPath labelKey =
     (case ParseURL (TrimRight_slash rawURL) of
        None \<Rightarrow> Inl EKubeURL
      | Some parsed \<Rightarrow>
          if url_Scheme parsed = [] \<or> url_Host parsed = [] then Inl EKubeURLIncomplete
          else if TrimSpace labelKey = [] then Inl ELabelKeyRequired
          else Inr \<lparr>kr_basePath = url_Path parsed,
                    kr_baseQuery = (if url_ForceQuery parsed \<or> url_RawQuery parsed \<noteq> []
                      then ''?'' @ url_RawQuery parsed else []),
                    kr_tokenPath = tokenPath,
                    kr_labelKey = TrimSpace labelKey, kr_httpDo = httpDo,
                    kr_readToken = readToken, kr_unicodeFold = ufold\<rparr>)"

text \<open>The environment as a map; the certificate pool belongs to the HTTP side.\<close>

definition newKubernetesNodeServerResolver ::
  "(http_request \<Rightarrow> 'w \<Rightarrow> http_result \<times> 'w) \<Rightarrow> (string \<Rightarrow> 'w \<Rightarrow> string option) \<Rightarrow>
   (string \<Rightarrow> string \<Rightarrow> bool) \<Rightarrow> string_map \<Rightarrow> string \<Rightarrow>
   resolver_error + 'w kubernetesNodeServerResolver" where
  "newKubernetesNodeServerResolver httpDo readToken ufold env labelKey =
     (let host = TrimSpace (map_get env ''KUBERNETES_SERVICE_HOST'');
          port = firstNonEmptyString
            [map_get env ''KUBERNETES_SERVICE_PORT_HTTPS'', map_get env ''KUBERNETES_SERVICE_PORT'']
      in if host = [] \<or> port = [] then Inl EKubeServiceEnv
         else newKubernetesNodeServerResolverWithHTTPClient httpDo readToken ufold
                (''https://'' @ host @ '':'' @ port) serviceAccountTokenPath labelKey)"

section \<open>Requests\<close>

definition kube_request :: "'w kubernetesNodeServerResolver \<Rightarrow> string \<Rightarrow> string \<Rightarrow> http_request" where
  "kube_request k token path =
     \<lparr>rq_method = GET,
      rq_target = EscapedPath (TrimRight_slash (kr_basePath k) @ path) @ kr_baseQuery k,
      rq_headers = [(''Accept'', ''application/json''),
                    (''Authorization'', ''Bearer '' @ TrimSpace token)],
      rq_body = None\<rparr>"

text \<open>The body as a JSON value; the code reads at most a MiB of it, so a longer one is no JSON.\<close>

definition kube_answer :: "http_result \<Rightarrow> resolver_error + any" where
  "kube_answer res =
     (case res of
        TransportError \<Rightarrow> Inl EKubeTransport
      | ReadError \<Rightarrow> Inl EKubeBody
      | Response status body \<Rightarrow>
          if status < 200 \<or> 299 < status then Inl (EKubeStatus status)
          else case body of JsonBody v \<Rightarrow> Inr v | _ \<Rightarrow> Inl EKubeJson)"

definition kube_do ::
  "'w kubernetesNodeServerResolver \<Rightarrow> string \<Rightarrow> (any \<Rightarrow> 'a option) \<Rightarrow> ('w, 'a) resolver_io" where
  "kube_do k path decode =
     (\<lambda>s. case kr_readToken k (kr_tokenPath k) (ext s) of
            None \<Rightarrow> (Inl EKubeToken, s)
          | Some token \<Rightarrow>
              let req = kube_request k token path;
                  (res, w) = kr_httpDo k req (ext s);
                  s' = log_event (KubeNet req res) (s\<lparr>ext := w\<rparr>)
              in (case kube_answer res of
                    Inl e \<Rightarrow> (Inl e, s')
                  | Inr v \<Rightarrow>
                      (case decode v of None \<Rightarrow> (Inl EKubeJson, s') | Some x \<Rightarrow> (Inr x, s'))))"

section \<open>Decoding nodes\<close>

text \<open>
  \<open>json.Unmarshal\<close> into \<open>kubernetesNode\<close> and \<open>kubernetesNodeList\<close>, of which only the labels are
  kept: object keys match field names up to case, \<open>null\<close> leaves a struct as it is and makes a
  map or slice nil, a value of another type is an error (\<open>None\<close>).
\<close>

fun decode_label_entries :: "any_map \<Rightarrow> string_map \<Rightarrow> string_map option" where
  "decode_label_entries [] labels = Some labels"
| "decode_label_entries ((k, v) # rest) labels =
     (case v of
        AString s \<Rightarrow> decode_label_entries rest (labels(k \<mapsto> s))
      | ANil \<Rightarrow> decode_label_entries rest (labels(k \<mapsto> []))
      | _ \<Rightarrow> None)"

fun decode_labels :: "any \<Rightarrow> string_map \<Rightarrow> string_map option" where
  "decode_labels ANil labels = Some Map.empty"
| "decode_labels (AMap m) labels = decode_label_entries m labels"
| "decode_labels _ labels = None"

fun decode_fields ::
  "(string \<Rightarrow> bool) \<Rightarrow> (any \<Rightarrow> 'a \<Rightarrow> 'a option) \<Rightarrow> any_map \<Rightarrow> 'a \<Rightarrow> 'a option" where
  \<comment> \<open>an object into a struct with one field of interest\<close>
  "decode_fields is_field decode [] x = Some x"
| "decode_fields is_field decode ((k, v) # rest) x =
     (if is_field k
      then (case decode v x of None \<Rightarrow> None | Some y \<Rightarrow> decode_fields is_field decode rest y)
      else decode_fields is_field decode rest x)"

definition decode_struct ::
  "(string \<Rightarrow> bool) \<Rightarrow> (any \<Rightarrow> 'a \<Rightarrow> 'a option) \<Rightarrow> any \<Rightarrow> 'a \<Rightarrow> 'a option" where
  "decode_struct is_field decode v x =
     (case v of ANil \<Rightarrow> Some x | AMap m \<Rightarrow> decode_fields is_field decode m x | _ \<Rightarrow> None)"

definition decode_node :: "(string \<Rightarrow> string \<Rightarrow> bool) \<Rightarrow> any \<Rightarrow> string_map option" where
  "decode_node ufold v =
     decode_struct (EqualFold ufold ''metadata'')
       (decode_struct (EqualFold ufold ''labels'') decode_labels) v Map.empty"

fun decode_nodes :: "(string \<Rightarrow> string \<Rightarrow> bool) \<Rightarrow> any list \<Rightarrow> string_map list option" where
  "decode_nodes ufold [] = Some []"
| "decode_nodes ufold (v # vs) =
     (case (decode_node ufold v, decode_nodes ufold vs) of
        (Some n, Some ns) \<Rightarrow> Some (n # ns)
      | _ \<Rightarrow> None)"

definition decode_items ::
  "(string \<Rightarrow> string \<Rightarrow> bool) \<Rightarrow> any \<Rightarrow> string_map list \<Rightarrow> string_map list option" where
  "decode_items ufold v items =
     (case v of ANil \<Rightarrow> Some [] | ASlice vs \<Rightarrow> decode_nodes ufold vs | _ \<Rightarrow> None)"

definition decode_node_list :: "(string \<Rightarrow> string \<Rightarrow> bool) \<Rightarrow> any \<Rightarrow> string_map list option" where
  "decode_node_list ufold v = decode_struct (EqualFold ufold ''items'') (decode_items ufold) v []"

section \<open>Operations\<close>

definition Resolver_ServerIDForNode ::
  "'w kubernetesNodeServerResolver \<Rightarrow> string \<Rightarrow> ('w, string) resolver_io" where
  "Resolver_ServerIDForNode k name =
     (let nodeName = TrimSpace name in
      if nodeName = [] then throwE EKubeNodeName
      else
        bindE (kube_do k (''/api/v1/nodes/'' @ PathEscape nodeName) (decode_node (kr_unicodeFold k)))
          (\<lambda>labels.
             let serverID = TrimSpace (map_get labels (kr_labelKey k))
             in if serverID = [] then throwE (EMissingLabel nodeName (kr_labelKey k))
                else retE serverID))"

definition Resolver_ServerIDs ::
  "'w kubernetesNodeServerResolver \<Rightarrow> ('w, string list) resolver_io" where
  "Resolver_ServerIDs k =
     bindE (kube_do k ''/api/v1/nodes'' (decode_node_list (kr_unicodeFold k)))
       (\<lambda>nodes.
          let ids = unique_loop {} (map (\<lambda>labels. map_get labels (kr_labelKey k)) nodes)
          in if ids = [] then throwE (ENoLabeledNodes (kr_labelKey k)) else retE ids)"

section \<open>What the resolver promises\<close>

lemma kube_do_cases:
  assumes "kube_do k path decode s = (r, s')"
  obtains (no_token) "r = Inl EKubeToken" "s' = s"
  | (asked) token res where "kr_readToken k (kr_tokenPath k) (ext s) = Some token"
      and "trace s' = trace s @ [KubeNet (kube_request k token path) res]"
      and "r = (case kube_answer res of Inl e \<Rightarrow> Inl e
                | Inr v \<Rightarrow> (case decode v of None \<Rightarrow> Inl EKubeJson | Some x \<Rightarrow> Inr x))"
proof (cases "kr_readToken k (kr_tokenPath k) (ext s)")
  case None
  then show ?thesis using assms no_token by (simp add: kube_do_def)
next
  case (Some token)
  obtain res w where http: "kr_httpDo k (kube_request k token path) (ext s) = (res, w)" by fastforce
  let ?s = "log_event (KubeNet (kube_request k token path) res) (s\<lparr>ext := w\<rparr>)"
  let ?r = "case kube_answer res of Inl e \<Rightarrow> Inl e
      | Inr v \<Rightarrow> (case decode v of None \<Rightarrow> Inl EKubeJson | Some x \<Rightarrow> Inr x)"
  have "kube_do k path decode s = (?r, ?s)"
    using Some http by (simp add: kube_do_def split: option.split sum.split)
  then show ?thesis using assms asked [OF Some, of res] by simp
qed

lemma Resolver_ServerIDForNode_ok:
  "Resolver_ServerIDForNode k name s = (Inr i, s') \<Longrightarrow> i \<noteq> [] \<and> TrimSpace i = i"
  by (auto simp: Resolver_ServerIDForNode_def Let_def split: if_splits elim!: bindE_Inr_cases)

lemma unique_loop_ok:
  "distinct (unique_loop {} vs) \<and> (\<forall>i \<in> set (unique_loop {} vs). i \<noteq> [] \<and> TrimSpace i = i)"
  by (simp add: unique_loop_eq) (blast dest: nonblank_trimmed)

lemma Resolver_ServerIDs_ok:
  assumes "Resolver_ServerIDs k s = (Inr ids, s')"
  shows "ids \<noteq> [] \<and> distinct ids \<and> (\<forall>i \<in> set ids. i \<noteq> [] \<and> TrimSpace i = i)"
proof -
  from assms obtain nodes where "ids = unique_loop {} (map (\<lambda>labels. map_get labels (kr_labelKey k)) nodes)"
    and "ids \<noteq> []"
    by (auto simp: Resolver_ServerIDs_def Let_def split: if_splits elim!: bindE_Inr_cases)
  then show ?thesis using unique_loop_ok by blast
qed

end
