(* ===== verification/Controller_Backends.thy ===== *)
theory Controller_Backends
  imports Driver_Interfaces Client_Sessions Client_Moves Node_Resolver
begin

text \<open>
  The controller's interfaces on the models of the Morpheus client and of the Kubernetes
  resolver, which satisfy the contracts of \<open>Driver_Interfaces\<close>.
\<close>

section \<open>The client and the resolver as interface values\<close>

datatype controller_error = FromMorpheus client_error | FromKubernetes resolver_error

type_synonym 'w controller_state = "('w, net_event) world"

definition client_lookup :: "'w Client \<Rightarrow> ('w controller_state, controller_error) node_lookup" where
  "client_lookup c = (\<lambda>n. wrap_error FromMorpheus (Client_ResolveServerIDByNodeName c n))"

definition client_volumes ::
  "'w Client \<Rightarrow> ('w controller_state, controller_error) ServerVolumeClient" where
  "client_volumes c =
     \<lparr>svc_EnsureVolume = (\<lambda>req. wrap_error FromMorpheus (Client_EnsureVolume c req)),
      svc_DeleteVolume = (\<lambda>ref. wrap_error FromMorpheus (Client_DeleteVolume c ref)),
      svc_MoveVolume = (\<lambda>req. wrap_error FromMorpheus (Client_MoveVolume c req)),
      svc_DetachVolume = (\<lambda>ref. wrap_error FromMorpheus (Client_DetachVolume c ref)),
      svc_ExpandVolume = (\<lambda>req. wrap_error FromMorpheus (Client_ExpandVolume c req)),
      svc_GetVolume = (\<lambda>ref. wrap_error FromMorpheus (Client_GetVolume c ref)),
      svc_FindVolume = (\<lambda>i ids. wrap_error FromMorpheus (Client_FindVolume c i ids)),
      svc_lookup = Some (client_lookup c)\<rparr>"

definition client_discovery ::
  "'w Client \<Rightarrow> ('w controller_state, controller_error) StorageDiscoveryClient" where
  "client_discovery c =
     \<lparr>sdc_ValidateStorageClass =
        (\<lambda>parameters. wrap_error FromMorpheus (liftE (ValidateStorageClass parameters))),
      sdc_lookup = Some (client_lookup c)\<rparr>"

definition resolver_nodes ::
  "'w kubernetesNodeServerResolver \<Rightarrow> ('w controller_state, controller_error) NodeServerResolver" where
  "resolver_nodes k =
     \<lparr>nsr_ServerIDForNode = (\<lambda>n. wrap_error FromKubernetes (Resolver_ServerIDForNode k n)),
      nsr_ServerIDs = wrap_error FromKubernetes (Resolver_ServerIDs k)\<rparr>"

section \<open>The client never returns nil\<close>

lemma Client_resizeVolume_Some:
  "Client_resizeVolume c st i req s = (Inr r, s') \<Longrightarrow> \<exists>v. r = Some v \<and> vol_ID v \<noteq> []"
  unfolding Client_resizeVolume_def by (auto elim!: bindE_Inr_cases dest: poll_resized_Some)

lemma with_lockServer_Inr:
  assumes "with_lockServer k m s = (Inr r, s')"
  obtains t where "m (log_event (Locked (TrimSpace k)) s) = (Inr r, t)"
    and "s' = log_event (Unlocked (TrimSpace k)) t"
  using assms by (auto simp: with_lockServer_def Let_def split: prod.splits)

lemma getServerState_ID:
  "getServerState c i s = (Inr st, s') \<Longrightarrow> v \<in> set (st_Volumes st) \<Longrightarrow> vol_ID v \<noteq> []"
  by (metis getServerState_cases state_answer_ID)

lemma Client_EnsureVolume_Some:
  assumes "Client_EnsureVolume c req s = (Inr r, s')"
  shows "\<exists>v. r = Some v \<and> vol_ID v \<noteq> []"
proof -
  let ?k = "StorageClassServerID (rr_StorageClass req)"
  from assms obtain st t u w where st: "getServerState c ?k t = (Inr st, u)"
    and rest: "(case findVolumeByName (st_Volumes st) (rr_Name req) of
         Some existing \<Rightarrow>
           if sint (rr_SizeGiB req) \<le> sint (vol_SizeGiB existing) then retE (Some existing)
           else Client_resizeVolume c st (vol_ID existing) req
       | None \<Rightarrow> Client_resizeVolume c st [] req) u = (Inr r, w)"
    unfolding Client_EnsureVolume_def Let_def
    by (auto elim!: bindE_Inr_cases with_lockServer_Inr)
  show ?thesis
  proof (cases "findVolumeByName (st_Volumes st) (rr_Name req)")
    case None
    with rest show ?thesis by (simp add: Client_resizeVolume_Some)
  next
    case (Some existing)
    with st have "vol_ID existing \<noteq> []" by (auto dest: findVolumeByName_Some getServerState_ID)
    with rest show ?thesis
      unfolding Some by (auto split: if_splits dest: Client_resizeVolume_Some)
  qed
qed

lemma Client_ExpandVolume_Some:
  assumes "Client_ExpandVolume c req s = (Inr r, s')"
  shows "r \<noteq> None"
proof -
  let ?k = "StorageClassServerID (rr_StorageClass req)"
  from assms obtain st t u where
    rest: "(case findVolumeByID (st_Volumes st) (rr_VolumeID req) of
         None \<Rightarrow> throwE (EVolumeNotFound (rr_VolumeID req) ?k)
       | Some existing \<Rightarrow>
           if vol_RootVolume existing then throwE (ERootResize (rr_VolumeID req))
           else if sint (rr_SizeGiB req) < sint (vol_SizeGiB existing)
           then throwE (EShrink (rr_VolumeID req) (vol_SizeGiB existing) (rr_SizeGiB req))
           else if vol_SizeGiB existing = rr_SizeGiB req then retE (Some existing)
           else Client_resizeVolume c st (rr_VolumeID req) req) t = (Inr r, u)"
    unfolding Client_ExpandVolume_def Let_def
    by (fastforce elim!: bindE_Inr_cases with_lockServer_Inr split: if_splits)
  show ?thesis
  proof (cases "findVolumeByID (st_Volumes st) (rr_VolumeID req)")
    case None
    with rest show ?thesis by simp
  next
    case (Some existing)
    from rest show ?thesis
      unfolding Some by (auto split: if_splits dest: Client_resizeVolume_Some)
  qed
qed

lemma Client_GetVolume_Some:
  assumes "Client_GetVolume c ref s = (Inr r, s')"
  shows "r \<noteq> None"
proof -
  from assms obtain vols t where
    rest: "(case findVolumeByID vols (ref_VolumeID ref) of
        None \<Rightarrow> throwE (EVolumeNotFound (ref_VolumeID ref) (ref_ServerID ref))
      | Some volume \<Rightarrow> retE (Some volume)) t = (Inr r, s')"
    unfolding Client_GetVolume_def by (auto elim!: bindE_Inr_cases)
  show ?thesis
  proof (cases "findVolumeByID vols (ref_VolumeID ref)")
    case (Some v)
    from rest show ?thesis unfolding Some by auto
  qed (use rest in simp)
qed

lemma poll_attached_Some: "poll_attached c ref req n s = (Inr r, s') \<Longrightarrow> r \<noteq> None"
proof (induction c ref req n arbitrary: s rule: poll_attached.induct)
  case (1 c ref req n)
  from "1.prems" have n: "n < postResizeVolumeLookupAttempts"
    by (subst (asm) poll_attached.simps) (simp split: if_splits)
  with "1.prems" obtain v where
    "tryE (Client_GetVolume c ref)
       (\<lambda>r. case r of Inr moved \<Rightarrow> retE moved | Inl _ \<Rightarrow> poll_attached c ref req (n + 1)) v = (Inr r, s')"
    unfolding poll_attached.simps [of c ref req n]
    by (simp only: if_True) (erule bindE_Inr_cases, blast)
  then obtain x u where get: "Client_GetVolume c ref v = (x, u)"
    and rest: "(case x of Inr moved \<Rightarrow> retE moved
                 | Inl _ \<Rightarrow> poll_attached c ref req (n + 1)) u = (Inr r, s')"
    by (rule tryE_cases)
  show ?case
  proof (cases x)
    case (Inl e)
    with "1.IH" [OF n] rest show ?thesis by simp
  next
    case (Inr moved)
    with get rest Client_GetVolume_Some show ?thesis by auto
  qed
qed

lemma Client_MoveVolume_Some:
  assumes "Client_MoveVolume c req s = (Inr r, s')"
  shows "r \<noteq> None"
proof -
  let ?ids = "mv_CandidateServerIDs req @ [mv_SourceServerID req, mv_TargetServerID req]"
  from assms obtain ref found t where
    "Client_FindVolume c (mv_VolumeID req) ?ids s = (Inr (ref, found), t)"
    and rest: "(if ref_ServerID ref = mv_TargetServerID req then retE found
             else if (case found of Some v \<Rightarrow> vol_RootVolume v | None \<Rightarrow> False)
             then throwE (ERootMove (mv_VolumeID req))
             else bindE (Client_DetachVolume c ref)
                    (\<lambda>_. bindE (attachVolume c (move_target req))
                      (\<lambda>_. poll_attached c (move_target req) req 0))) t = (Inr r, s')"
    unfolding Client_MoveVolume_def Let_def move_target_def
    by (auto elim!: bindE_Inr_cases split: if_splits)
  then show ?thesis
    by (auto dest: FindVolume_found_first poll_attached_Some elim!: bindE_Inr_cases
        split: if_splits)
qed

lemma Client_FindVolume_found:
  assumes "Client_FindVolume c i ids s = (Inr (ref, r), s')"
  shows "ref_ServerID ref \<in> set (nonblank ids) \<and> ref_VolumeID ref = TrimSpace i"
  using FindVolume_found_first [OF assms] by (auto dest: found_first_in)

section \<open>Interpretations\<close>

interpretation morpheus: server_volumes "client_volumes c"
  for c :: "'w Client"
proof
  show "svc_EnsureVolume (client_volumes c) req s = (Inr r, s') \<Longrightarrow> \<exists>v. r = Some v \<and> vol_ID v \<noteq> []"
    for req s r s'
    by (auto simp: client_volumes_def wrap_error_Inr dest: Client_EnsureVolume_Some)
  show "svc_MoveVolume (client_volumes c) mv s = (Inr r, s') \<Longrightarrow> r \<noteq> None" for mv s r s'
    by (auto simp: client_volumes_def wrap_error_Inr dest: Client_MoveVolume_Some)
  show "svc_ExpandVolume (client_volumes c) req s = (Inr r, s') \<Longrightarrow> r \<noteq> None" for req s r s'
    by (auto simp: client_volumes_def wrap_error_Inr dest: Client_ExpandVolume_Some)
  show "svc_FindVolume (client_volumes c) i ids s = (Inr (ref, r), s') \<Longrightarrow>
      ref_ServerID ref \<in> set (nonblank ids) \<and> ref_VolumeID ref = TrimSpace i" for i ids s ref r s'
    by (auto simp: client_volumes_def wrap_error_Inr dest: Client_FindVolume_found)
qed

interpretation discovery: storage_discovery "client_discovery c"
  for c :: "'w Client"
  by unfold_locales
    (auto simp: client_discovery_def wrap_error_def ValidateStorageClass_def split: sum.splits if_splits)

interpretation backend: morpheus_backend "client_volumes c" "client_discovery c"
  for c :: "'w Client"
  by unfold_locales

interpretation kubernetes: node_servers "resolver_nodes k"
  for k :: "'w kubernetesNodeServerResolver"
proof
  show "nsr_ServerIDForNode (resolver_nodes k) n s = (Inr i, s') \<Longrightarrow> i \<noteq> [] \<and> TrimSpace i = i"
    for n s i s'
    by (simp add: resolver_nodes_def wrap_error_Inr) (rule Resolver_ServerIDForNode_ok)
  show "nsr_ServerIDs (resolver_nodes k) s = (Inr ids, s') \<Longrightarrow>
      distinct ids \<and> (\<forall>i \<in> set ids. i \<noteq> [] \<and> TrimSpace i = i)" for s ids s'
    by (simp add: resolver_nodes_def wrap_error_Inr) (blast dest: Resolver_ServerIDs_ok)
qed

end
