(* ===== verification/Client_Safety.thy ===== *)
theory Client_Safety
  imports Client_Sessions Simulated_Morpheus
begin

text \<open>
  What the client can send, for any HTTP side: which volumes a resize request keeps, that
  root disks are neither deleted nor moved nor resized on expansion, that a move detaches
  before it attaches.
\<close>

section \<open>What the resize array keeps\<close>

text \<open>
  \<open>sent\<close> holds every volume of \<open>before\<close> at its place, with its id and its root flag; a volume is
  changed only if it has the id of the target. At the end there is at most one more item, a
  new data volume.
\<close>

definition same_volume :: "StorageVolume \<Rightarrow> StorageVolume \<Rightarrow> bool" where
  "same_volume v w \<longleftrightarrow>
     vol_ID w = vol_ID v \<and> vol_RootVolume w = vol_RootVolume v
   \<and> vol_ControllerMountPoint w = vol_ControllerMountPoint v \<and> vol_DevicePath w = vol_DevicePath v"

definition keeps_volumes ::
  "string \<Rightarrow> ResizeVolumeRequest \<Rightarrow> StorageVolume list \<Rightarrow> StorageVolume list \<Rightarrow> bool" where
  "keeps_volumes target req before sent \<longleftrightarrow>
     (\<exists>kept extra. sent = kept @ extra
        \<and> list_all2 (\<lambda>v w. same_volume v w \<and> (w = v \<or> vol_ID v = target \<and> vol_SizeGiB w = rr_SizeGiB req))
            before kept
        \<and> (extra = [] \<or> extra = [new_volume req] \<and> (\<forall>v \<in> set before. vol_ID v \<noteq> target)))"

lemma rewrite_volume_target:
  "volumeID \<noteq> [] \<Longrightarrow> same_volume v (rewrite_volume volumeID req v) \<and>
     (rewrite_volume volumeID req v = v \<or>
      vol_ID v = volumeID \<and> vol_SizeGiB (rewrite_volume volumeID req v) = rr_SizeGiB req)"
  by (simp add: rewrite_volume_def same_volume_def)

lemma resize_next_target:
  assumes "volumeID \<noteq> []" and "\<exists>v \<in> set volumes. vol_ID v = volumeID"
  shows "resize_next volumes volumeID req = map (rewrite_volume volumeID req) volumes"
  using assms by (auto simp: resize_next_def list_ex_iff)

lemma resize_next_keeps:
  assumes "volumeID \<noteq> []" and "\<exists>v \<in> set volumes. vol_ID v = volumeID"
  shows "keeps_volumes volumeID req volumes (resize_next volumes volumeID req)"
  unfolding keeps_volumes_def resize_next_target [OF assms]
  using rewrite_volume_target [OF assms(1)]
  by (intro exI [of _ "map (rewrite_volume volumeID req) volumes"] exI [of _ "[]"])
    (auto simp: list_all2_conv_all_nth)

lemma resize_next_new:
  assumes "\<forall>v \<in> set volumes. vol_ID v \<noteq> []" and "\<forall>v \<in> set volumes. vol_Name v \<noteq> rr_Name req"
  shows "resize_next volumes [] req = volumes @ [new_volume req]"
proof -
  have "map (rewrite_volume [] req) volumes = volumes"
    using assms by (intro map_idI) (auto simp: rewrite_volume_def)
  moreover have "\<not> list_ex (\<lambda>v. vol_ID v = [] \<or> ([] = [] \<and> vol_Name v = rr_Name req)) volumes"
    using assms by (auto simp: list_ex_iff)
  ultimately show ?thesis by (simp add: resize_next_def)
qed

lemma resize_next_new_keeps:
  assumes "\<forall>v \<in> set volumes. vol_ID v \<noteq> []" and "\<forall>v \<in> set volumes. vol_Name v \<noteq> rr_Name req"
  shows "keeps_volumes [] req volumes (resize_next volumes [] req)"
  unfolding keeps_volumes_def resize_next_new [OF assms] using assms(1)
  by (intro exI [of _ volumes] exI [of _ "[new_volume req]"])
    (auto simp: list_all2_conv_all_nth same_volume_def)

text \<open>Sizes never go down when the ids are distinct and the target is smaller than asked for.\<close>

definition never_shrinks :: "StorageVolume list \<Rightarrow> StorageVolume list \<Rightarrow> bool" where
  "never_shrinks before sent \<longleftrightarrow>
     (\<forall>i < length before. sint (vol_SizeGiB (before ! i)) \<le> sint (vol_SizeGiB (sent ! i)))"

lemma distinct_ID_eq:
  "distinct (map vol_ID vs) \<Longrightarrow> v \<in> set vs \<Longrightarrow> w \<in> set vs \<Longrightarrow> vol_ID v = vol_ID w \<Longrightarrow> v = w"
  by (auto simp: distinct_map inj_on_def)

lemma keeps_never_shrinks:
  assumes keeps: "keeps_volumes target req before sent" and d: "distinct (map vol_ID before)"
    and t: "\<And>t. t \<in> set before \<Longrightarrow> vol_ID t = target \<Longrightarrow> sint (vol_SizeGiB t) \<le> sint (rr_SizeGiB req)"
  shows "never_shrinks before sent"
  using keeps t unfolding keeps_volumes_def never_shrinks_def
  by (auto simp: list_all2_conv_all_nth nth_append)

section \<open>Ensure\<close>

lemma ensure_plan_Send:
  assumes ids: "\<forall>v \<in> set volumes. vol_ID v \<noteq> []" and plan: "ensure_plan req volumes = Send sent"
  obtains target where "keeps_volumes target req volumes sent"
    and "\<And>t. t \<in> set volumes \<Longrightarrow> distinct (map vol_ID volumes) \<Longrightarrow> vol_ID t = target \<Longrightarrow>
      vol_Name t = rr_Name req \<and> sint (vol_SizeGiB t) < sint (rr_SizeGiB req)"
proof (cases "findVolumeByName volumes (rr_Name req)")
  case None
  then have "sent = resize_next volumes [] req" using plan by (simp add: ensure_plan_def)
  moreover have "\<forall>v \<in> set volumes. vol_Name v \<noteq> rr_Name req"
    using None by (simp add: findVolumeByName_None)
  ultimately have "keeps_volumes [] req volumes sent"
    using ids resize_next_new_keeps by blast
  then show ?thesis using ids that [of "[]"] by blast
next
  case (Some existing)
  then have e: "existing \<in> set volumes" "vol_Name existing = rr_Name req"
    by (auto dest: findVolumeByName_Some)
  from Some plan have small: "sint (vol_SizeGiB existing) < sint (rr_SizeGiB req)"
    and sent: "sent = resize_next volumes (vol_ID existing) req"
    by (auto simp: ensure_plan_def split: if_splits)
  have "keeps_volumes (vol_ID existing) req volumes sent"
    unfolding sent using e ids by (intro resize_next_keeps) auto
  then show ?thesis
    using that [of "vol_ID existing"] e small distinct_ID_eq by metis
qed

text \<open>A resize request among the events of a session is the one its plan sends.\<close>

lemma plan_session_PUT:
  assumes session: "plan_session c k plan r evs"
    and put: "Net rq res \<in> set evs" "rq_method rq = PUT"
  obtains answer st sent where "Net (server_request c k) answer \<in> set evs"
    and "state_answer k answer = Inr st" and "plan (st_Volumes st) = Send sent"
    and "rq = resize_request c (st_ID st) sent"
proof -
  from session obtain answer mid where
    evs: "evs = Locked (TrimSpace k) # Net (server_request c k) answer # mid
                  @ [Unlocked (TrimSpace k)]"
    and mid: "case state_answer k answer of
             Inl e \<Rightarrow> mid = [] \<and> r = Inl e
           | Inr st \<Rightarrow>
               (case plan (st_Volumes st) of
                  Finish x \<Rightarrow> mid = [] \<and> r = x
                | Send volumes \<Rightarrow> resize_session c (st_ID st) volumes mid)"
    by (auto simp: plan_session_def)
  have in_mid: "Net rq res \<in> set mid" using put evs by auto
  then obtain st where st: "state_answer k answer = Inr st"
    using mid by (auto split: sum.splits)
  with mid in_mid obtain sent where plan: "plan (st_Volumes st) = Send sent"
    and rs: "resize_session c (st_ID st) sent mid"
    by (auto split: plan.splits)
  from rs in_mid put(2) have "rq = resize_request c (st_ID st) sent"
    by (force simp: resize_session_def)
  moreover have "Net (server_request c k) answer \<in> set evs" using evs by simp
  ultimately show ?thesis using that st plan by blast
qed

text \<open>
  C1: whatever Morpheus answers, an EnsureVolume call that writes sends an array computed from
  the answer it has just read on the same server, and in that array every volume of the
  answer is there, in its place and with its id and root flag; only volumes with the id of
  the volume of that name are resized, and none shrinks when the ids are distinct.
\<close>

theorem EnsureVolume_keeps_volumes:
  assumes run: "Client_EnsureVolume c req s = (r, s')" and evs: "trace s' = trace s @ evs"
    and put: "Net rq res \<in> set evs" "rq_method rq = PUT"
  shows "\<exists>answer st sent target.
      Net (server_request c (StorageClassServerID (rr_StorageClass req))) answer \<in> set evs
    \<and> state_answer (StorageClassServerID (rr_StorageClass req)) answer = Inr st
    \<and> rq = resize_request c (st_ID st) sent
    \<and> keeps_volumes target req (st_Volumes st) sent
    \<and> (distinct (map vol_ID (st_Volumes st)) \<longrightarrow> never_shrinks (st_Volumes st) sent)"
proof (cases "validateResizeRequest req")
  case (Inl e)
  then have "s' = s" using run by (simp add: Client_EnsureVolume_run_eq)
  then show ?thesis using evs put by simp
next
  case (Inr u)
  then have "plan_session c (StorageClassServerID (rr_StorageClass req)) (ensure_plan req) r evs"
    using EnsureVolume_session [OF run] evs by auto
  then obtain answer st sent where
    a: "Net (server_request c (StorageClassServerID (rr_StorageClass req))) answer \<in> set evs"
      "state_answer (StorageClassServerID (rr_StorageClass req)) answer = Inr st"
      "rq = resize_request c (st_ID st) sent"
    and plan: "ensure_plan req (st_Volumes st) = Send sent"
    using put by (rule plan_session_PUT)
  have "\<forall>v \<in> set (st_Volumes st). vol_ID v \<noteq> []" using a(2) state_answer_ID by blast
  from this plan obtain target where "keeps_volumes target req (st_Volumes st) sent"
    and "\<And>t. t \<in> set (st_Volumes st) \<Longrightarrow> distinct (map vol_ID (st_Volumes st)) \<Longrightarrow>
      vol_ID t = target \<Longrightarrow> sint (vol_SizeGiB t) < sint (rr_SizeGiB req)"
    by (rule ensure_plan_Send) blast
  then show ?thesis using a keeps_never_shrinks by (metis less_imp_le)
qed

theorem EnsureVolume_keeps_volumes_witness:
  "\<exists>rq answer st sent target.
      rq \<in> set (puts (trace (snd
        (Client_EnsureVolume sim_client (sim_request ''pvc-2'' [] 5) sim_two))))
    \<and> state_answer ''12'' answer = Inr st \<and> rq = resize_request sim_client (st_ID st) sent
    \<and> keeps_volumes target (sim_request ''pvc-2'' [] 5) (st_Volumes st) sent"
proof -
  let ?run = "Client_EnsureVolume sim_client (sim_request ''pvc-2'' [] 5) sim_two"
  obtain rq where rq: "rq \<in> set (puts (trace (snd ?run)))"
    using sim_ensure_puts by (meson list.set_sel(1))
  then obtain res where "Net rq res \<in> set (trace (snd ?run))" "rq_method rq = PUT"
    using puts_in by blast
  from EnsureVolume_keeps_volumes [OF surjective_pairing [of ?run] _ this] rq show ?thesis
    by simp blast
qed

lemma resize_session_sends:
  assumes "resize_session c k sent evs"
  obtains res where "Net (resize_request c k sent) res \<in> set evs"
proof -
  from assms obtain res polls where "evs = Net (resize_request c k sent) res # polls"
    unfolding resize_session_def by blast
  then show ?thesis using that [of res] by simp
qed

text \<open>
  What is behind the volume \<open>v\<close> that a successful ensure returns: the server was only read and lists
  \<open>v\<close> under the name that was asked for, and with at least the size; or an array was sent with a
  volume of that name and size.
\<close>

definition found_or_asked ::
  "'w Client \<Rightarrow> ResizeVolumeRequest \<Rightarrow> StorageVolume \<Rightarrow> net_event list \<Rightarrow> bool" where
  "found_or_asked c req v evs \<longleftrightarrow>
     (\<forall>rq res. Net rq res \<in> set evs \<longrightarrow> rq_method rq = GET)
       \<and> vol_Name v = rr_Name req \<and> sint (rr_SizeGiB req) \<le> sint (vol_SizeGiB v)
   \<or> (\<exists>k sent res w. Net (resize_request c k sent) res \<in> set evs
       \<and> w \<in> set sent \<and> vol_Name w = rr_Name req \<and> vol_SizeGiB w = rr_SizeGiB req)"

lemma resize_next_asks:
  assumes "TrimSpace (rr_Name req) \<noteq> []"
  shows "\<exists>w \<in> set (resize_next volumes volumeID req).
    vol_Name w = rr_Name req \<and> vol_SizeGiB w = rr_SizeGiB req"
proof (cases "list_ex (\<lambda>v. vol_ID v = volumeID \<or> (volumeID = [] \<and> vol_Name v = rr_Name req)) volumes")
  case True
  then obtain v where v: "v \<in> set volumes" "vol_ID v = volumeID \<or> (volumeID = [] \<and> vol_Name v = rr_Name req)"
    by (auto simp: list_ex_iff)
  have "rewrite_volume volumeID req v \<in> set (resize_next volumes volumeID req)"
    using v(1) by (simp add: resize_next_def)
  with v(2) assms show ?thesis
    by (intro bexI [of _ "rewrite_volume volumeID req v"]) (simp_all add: rewrite_volume_def)
next
  case False
  then show ?thesis by (auto simp: resize_next_def new_volume_def)
qed

lemma ensure_plan_asks:
  assumes "ensure_plan req volumes = Send sent" and "TrimSpace (rr_Name req) \<noteq> []"
  shows "\<exists>w \<in> set sent. vol_Name w = rr_Name req \<and> vol_SizeGiB w = rr_SizeGiB req"
  using assms resize_next_asks
  by (fastforce simp: ensure_plan_def split: option.splits if_splits)

lemma EnsureVolume_found_or_asked:
  assumes run: "Client_EnsureVolume c req s = (Inr (Some v), s')" and "rr_VolumeID req = []"
  shows "\<exists>evs. trace s' = trace s @ evs \<and> found_or_asked c req v evs"
proof -
  have valid: "validateResizeRequest req = Inr ()"
    using run by (cases "validateResizeRequest req") (auto simp: Client_EnsureVolume_run_eq)
  then have name: "TrimSpace (rr_Name req) \<noteq> []"
    using assms(2) by (auto simp: validateResizeRequest_def split: sum.splits if_splits)
  let ?k = "StorageClassServerID (rr_StorageClass req)"
  obtain evs where evs: "trace s' = trace s @ evs"
    and session: "plan_session c ?k (ensure_plan req) (Inr (Some v)) evs"
    using EnsureVolume_session [OF run valid] by blast
  from session obtain res mid where shape: "evs = Locked (TrimSpace ?k)
      # Net (server_request c ?k) res # mid @ [Unlocked (TrimSpace ?k)]"
    and answer: "case state_answer ?k res of
        Inl e \<Rightarrow> mid = [] \<and> Inr (Some v) = Inl e
      | Inr st \<Rightarrow>
          (case ensure_plan req (st_Volumes st) of
             Finish x \<Rightarrow> mid = [] \<and> Inr (Some v) = x
           | Send volumes \<Rightarrow> resize_session c (st_ID st) volumes mid)"
    unfolding plan_session_def by blast
  from answer obtain st :: serverState where mid: "case ensure_plan req (st_Volumes st) of
        Finish x \<Rightarrow> mid = [] \<and> Inr (Some v) = x
      | Send volumes \<Rightarrow> resize_session c (st_ID st) volumes mid"
    by (cases "state_answer ?k res") auto
  have "found_or_asked c req v evs"
  proof (cases "ensure_plan req (st_Volumes st)")
    case (Finish x)
    with mid have "findVolumeByName (st_Volumes st) (rr_Name req) = Some v"
      "sint (rr_SizeGiB req) \<le> sint (vol_SizeGiB v)" "mid = []"
      by (auto simp: ensure_plan_def split: option.splits if_splits)
    then show ?thesis
      using shape by (auto simp: found_or_asked_def dest: findVolumeByName_Some)
  next
    case (Send sent)
    with mid have "resize_session c (st_ID st) sent mid" by simp
    then obtain answer where "Net (resize_request c (st_ID st) sent) answer \<in> set mid"
      by (rule resize_session_sends)
    then have "Net (resize_request c (st_ID st) sent) answer \<in> set evs" using shape by simp
    then show ?thesis
      using ensure_plan_asks [OF Send name] unfolding found_or_asked_def by blast
  qed
  with evs show ?thesis by blast
qed

section \<open>Ensure after an empty answer\<close>

lemma StorageClassServerID_trimmed [simp]:
  "TrimSpace (StorageClassServerID p) = StorageClassServerID p"
  by (simp add: StorageClassServerID_def Let_def)

lemma empty_answer:
  assumes "TrimSpace k \<noteq> []" and "200 \<le> status" "status \<le> 299"
  shows "state_answer k (Response status NoBody) = Inr \<lparr>st_ID = k, st_Volumes = []\<rparr>"
proof -
  have "serverState_of k [] = \<lparr>st_ID = k, st_Volumes = []\<rparr>"
    using assms(1)
    by (simp add: serverState_of_def firstMap_def any_get_def parseVolumeList_def Let_def)
  then show ?thesis using assms(2,3) by (simp add: state_answer_def read_answer_def)
qed

text \<open>
  C39: when Morpheus answers the lookup of the server with success and an empty body, a valid
  ensure takes the server to have no volumes at all: the array it then sends, which replaces the
  server's, is the new volume alone.
\<close>

theorem EnsureVolume_after_empty_answer:
  assumes valid: "validateResizeRequest req = Inr ()"
    and k: "k = StorageClassServerID (rr_StorageClass req)"
    and answer: "fst (cl_httpDo c (server_request c k) (ext s)) = Response status NoBody"
    and status: "200 \<le> status" "status \<le> 299"
  shows "\<exists>evs res. trace (snd (Client_EnsureVolume c req s)) = trace s @ evs
     \<and> Net (resize_request c k [new_volume req]) res \<in> set evs"
proof -
  let ?s = "log_event (Locked (TrimSpace k)) s"
  have "TrimSpace k \<noteq> []"
    using valid by (auto simp: k validateResizeRequest_def ValidateStorageClass_def split: if_splits)
  with status have st: "state_answer k (Response status NoBody) = Inr \<lparr>st_ID = k, st_Volumes = []\<rparr>"
    by (intro empty_answer)
  obtain w where "cl_httpDo c (server_request c k) (ext ?s) = (Response status NoBody, w)"
    using answer by (cases "cl_httpDo c (server_request c k) (ext s)") auto
  from getServerState_run [OF this] st obtain t where
    t: "getServerState c k ?s = (Inr \<lparr>st_ID = k, st_Volumes = []\<rparr>, t)" "\<exists>evs. trace t = trace s @ evs"
    by auto
  obtain r u where u: "Client_resizeVolume c \<lparr>st_ID = k, st_Volumes = []\<rparr> [] req t = (r, u)"
    by (rule prod.exhaust)
  then obtain evs where evs: "trace u = trace t @ evs"
    "resize_session c k (resize_next [] [] req) evs"
    by (rule Client_resizeVolume_session) simp
  have "resize_next [] [] req = [new_volume req]" by (simp add: resize_next_def)
  with evs(2) have "resize_session c k [new_volume req] evs" by simp
  then obtain res where "Net (resize_request c k [new_volume req]) res \<in> set evs"
    by (rule resize_session_sends)
  moreover have "trace (snd (Client_EnsureVolume c req s)) = trace u @ [Unlocked (TrimSpace k)]"
    using valid t(1) u by (simp add: Client_EnsureVolume_run_eq k Let_def findVolumeByName_def)
  ultimately show ?thesis using t(2) evs(1) by fastforce
qed

text \<open>An HTTP side on which everything succeeds with an empty body.\<close>

definition blank_client :: "unit Client" where
  "blank_client =
     \<lparr>cl_basePath = [], cl_forceQuery = False, cl_token = ''token'',
      cl_httpDo = (\<lambda>rq w. (Response 204 NoBody, w)), cl_ctxWait = (\<lambda>w. (True, w)),
      cl_unicodeFold = (\<lambda>a b. a = b)\<rparr>"

theorem EnsureVolume_after_empty_answer_witness:
  "\<exists>evs res. trace (snd (Client_EnsureVolume blank_client (sim_request ''pvc-1'' [] 5)
       \<lparr>ext = (), trace = []\<rparr>)) = evs
     \<and> Net (resize_request blank_client ''12'' [new_volume (sim_request ''pvc-1'' [] 5)]) res \<in> set evs"
proof -
  let ?req = "sim_request ''pvc-1'' [] 5" and ?s = "\<lparr>ext = (), trace = []\<rparr> :: (unit, net_event) world"
  have "validateResizeRequest ?req = Inr ()" by code_simp
  moreover have "''12'' = StorageClassServerID (rr_StorageClass ?req)" by code_simp
  moreover have "fst (cl_httpDo blank_client (server_request blank_client ''12'') (ext ?s))
      = Response 204 NoBody"
    by (simp add: blank_client_def)
  ultimately show ?thesis
    using EnsureVolume_after_empty_answer [of ?req "''12''" blank_client ?s 204] by simp
qed

section \<open>Delete\<close>

lemma DeleteVolume_PUT:
  assumes run: "Client_DeleteVolume c ref s = (r, s')" and evs: "trace s' = trace s @ evs"
    and put: "Net rq res \<in> set evs" "rq_method rq = PUT"
  shows "\<exists>answer st target.
      Net (server_request c (ref_ServerID ref)) answer \<in> set evs
    \<and> state_answer (ref_ServerID ref) answer = Inr st
    \<and> rq = resize_request c (st_ID st)
             (filter (\<lambda>v. vol_ID v \<noteq> ref_VolumeID ref) (st_Volumes st))
    \<and> findVolumeByID (st_Volumes st) (ref_VolumeID ref) = Some target
    \<and> \<not> vol_RootVolume target"
proof (cases "validateRef ref")
  case (Inl e)
  then have "s' = s" using run by (simp add: Client_DeleteVolume_run_eq)
  then show ?thesis using evs put by simp
next
  case (Inr u)
  then have "plan_session c (ref_ServerID ref) (delete_plan ref) r evs"
    using DeleteVolume_session [OF run] evs by auto
  then obtain answer st sent where
    "Net (server_request c (ref_ServerID ref)) answer \<in> set evs"
    "state_answer (ref_ServerID ref) answer = Inr st"
    "delete_plan ref (st_Volumes st) = Send sent"
    "rq = resize_request c (st_ID st) sent"
    using put by (rule plan_session_PUT)
  then show ?thesis
    by (auto simp: delete_plan_def split: option.splits if_splits)
qed

text \<open>
  C2: whatever Morpheus answers, a DeleteVolume call that writes sends the array it has just
  read without the volumes of the given id and with every other volume as it was, and the
  volume found under that id is no root disk.
\<close>

theorem DeleteVolume_removes_only_target:
  assumes run: "Client_DeleteVolume c ref s = (r, s')" and evs: "trace s' = trace s @ evs"
    and put: "Net rq res \<in> set evs" "rq_method rq = PUT"
  shows "\<exists>answer st target.
      Net (server_request c (ref_ServerID ref)) answer \<in> set evs
    \<and> state_answer (ref_ServerID ref) answer = Inr st
    \<and> rq = resize_request c (st_ID st)
             (filter (\<lambda>v. vol_ID v \<noteq> ref_VolumeID ref) (st_Volumes st))
    \<and> findVolumeByID (st_Volumes st) (ref_VolumeID ref) = Some target
    \<and> \<not> vol_RootVolume target"
  using assms by (rule DeleteVolume_PUT)

theorem DeleteVolume_removes_only_target_witness:
  "\<exists>rq answer st target.
      rq \<in> set (puts (trace (snd (Client_DeleteVolume sim_client sim_ref sim_two))))
    \<and> state_answer ''12'' answer = Inr st
    \<and> rq = resize_request sim_client (st_ID st) (filter (\<lambda>v. vol_ID v \<noteq> ''77'') (st_Volumes st))
    \<and> findVolumeByID (st_Volumes st) ''77'' = Some target \<and> \<not> vol_RootVolume target"
proof -
  let ?run = "Client_DeleteVolume sim_client sim_ref sim_two"
  obtain rq where rq: "rq \<in> set (puts (trace (snd ?run)))"
    using sim_delete_puts by (meson list.set_sel(1))
  then obtain res where "Net rq res \<in> set (trace (snd ?run))" "rq_method rq = PUT"
    using puts_in by blast
  from DeleteVolume_removes_only_target [OF surjective_pairing [of ?run] _ this] rq show ?thesis
    by simp blast
qed

section \<open>Expand\<close>

lemma expand_plan_Send:
  assumes "expand_plan req volumes = Send sent"
  obtains existing where "findVolumeByID volumes (rr_VolumeID req) = Some existing"
    and "\<not> vol_RootVolume existing" and "sint (vol_SizeGiB existing) < sint (rr_SizeGiB req)"
    and "sent = resize_next volumes (rr_VolumeID req) req"
proof -
  obtain existing where e: "findVolumeByID volumes (rr_VolumeID req) = Some existing"
    using assms by (auto simp: expand_plan_def split: option.splits)
  with assms have "sint (vol_SizeGiB existing) \<noteq> sint (rr_SizeGiB req)"
    by (auto simp: expand_plan_def signed_word_eqI split: if_splits)
  with e assms show ?thesis
    by (intro that) (auto simp: expand_plan_def split: if_splits)
qed

text \<open>
  C5: whatever Morpheus answers, an ExpandVolume call that writes sends every volume it has just
  read, in its place; the volume found under the requested id is smaller than the requested
  size and no root disk, and with distinct ids no size goes down and every root disk is sent
  unchanged.
\<close>

theorem ExpandVolume_grows_only_target:
  assumes run: "Client_ExpandVolume c req s = (r, s')" and evs: "trace s' = trace s @ evs"
    and put: "Net rq res \<in> set evs" "rq_method rq = PUT"
  shows "\<exists>answer st sent existing.
      Net (server_request c (StorageClassServerID (rr_StorageClass req))) answer \<in> set evs
    \<and> state_answer (StorageClassServerID (rr_StorageClass req)) answer = Inr st
    \<and> rq = resize_request c (st_ID st) sent
    \<and> length sent = length (st_Volumes st)
    \<and> keeps_volumes (rr_VolumeID req) req (st_Volumes st) sent
    \<and> findVolumeByID (st_Volumes st) (rr_VolumeID req) = Some existing
    \<and> \<not> vol_RootVolume existing \<and> sint (vol_SizeGiB existing) < sint (rr_SizeGiB req)
    \<and> (distinct (map vol_ID (st_Volumes st)) \<longrightarrow>
         never_shrinks (st_Volumes st) sent
       \<and> (\<forall>i < length sent. vol_RootVolume (st_Volumes st ! i) \<longrightarrow> sent ! i = st_Volumes st ! i))"
proof -
  have valid: "validateResizeRequest req = Inr ()" "TrimSpace (rr_VolumeID req) \<noteq> []"
    using run evs put
    by (auto simp: Client_ExpandVolume_run_eq split: sum.splits if_splits)
  then have "plan_session c (StorageClassServerID (rr_StorageClass req)) (expand_plan req) r evs"
    using ExpandVolume_session [OF run] evs by auto
  then obtain answer st sent where
    a: "Net (server_request c (StorageClassServerID (rr_StorageClass req))) answer \<in> set evs"
      "state_answer (StorageClassServerID (rr_StorageClass req)) answer = Inr st"
      "rq = resize_request c (st_ID st) sent"
    and plan: "expand_plan req (st_Volumes st) = Send sent"
    using put by (rule plan_session_PUT)
  from plan obtain existing where
    e: "findVolumeByID (st_Volumes st) (rr_VolumeID req) = Some existing"
      "\<not> vol_RootVolume existing" "sint (vol_SizeGiB existing) < sint (rr_SizeGiB req)"
    and sent: "sent = resize_next (st_Volumes st) (rr_VolumeID req) req"
    by (rule expand_plan_Send)
  have ex: "existing \<in> set (st_Volumes st)" "vol_ID existing = rr_VolumeID req"
    using e(1) by (auto dest: findVolumeByID_Some)
  have id: "rr_VolumeID req \<noteq> []" using valid(2) by auto
  have keeps: "keeps_volumes (rr_VolumeID req) req (st_Volumes st) sent"
    unfolding sent using id ex by (intro resize_next_keeps) auto
  have map: "sent = map (rewrite_volume (rr_VolumeID req) req) (st_Volumes st)"
    unfolding sent using id ex by (intro resize_next_target) auto
  have "never_shrinks (st_Volumes st) sent" if "distinct (map vol_ID (st_Volumes st))"
    using keeps that by (rule keeps_never_shrinks) (use that ex e(3) distinct_ID_eq in force)
  moreover have "sent ! i = st_Volumes st ! i"
    if "distinct (map vol_ID (st_Volumes st))" "i < length sent" "vol_RootVolume (st_Volumes st ! i)" for i
  proof -
    have "vol_ID (st_Volumes st ! i) \<noteq> rr_VolumeID req"
      using that e(2) ex distinct_ID_eq map by (metis length_map nth_mem)
    then show ?thesis using that id by (simp add: map rewrite_volume_def)
  qed
  ultimately show ?thesis using a e keeps map by (metis length_map)
qed

theorem ExpandVolume_grows_only_target_witness:
  "\<exists>rq answer st sent.
      rq \<in> set (puts (trace (snd
        (Client_ExpandVolume sim_client (sim_request [] ''77'' 20) sim_two))))
    \<and> state_answer ''12'' answer = Inr st \<and> rq = resize_request sim_client (st_ID st) sent
    \<and> keeps_volumes ''77'' (sim_request [] ''77'' 20) (st_Volumes st) sent"
proof -
  let ?run = "Client_ExpandVolume sim_client (sim_request [] ''77'' 20) sim_two"
  obtain rq where rq: "rq \<in> set (puts (trace (snd ?run)))"
    using sim_expand_puts by (meson list.set_sel(1))
  then obtain res where "Net rq res \<in> set (trace (snd ?run))" "rq_method rq = PUT"
    using puts_in by blast
  from ExpandVolume_grows_only_target [OF surjective_pairing [of ?run] _ this] rq show ?thesis
    by simp blast
qed

end
