(* ===== verification/Capacity.thy ===== *)
theory Capacity
  imports Driver_Types
begin

text \<open>
  The arithmetic of capacities and the check of volume capabilities (\<open>controller.go\<close>): from bytes
  to GiB through \<open>float64\<close>, and back to bytes.
\<close>

section \<open>From bytes to GiB\<close>

lemma powers: "(2 :: int) ^ 30 = 1073741824" "(2 :: int) ^ 33 = 8589934592"
    "(2 :: int) ^ 53 = 9007199254740992" "(2 :: int) ^ 63 = 9223372036854775808"
  by simp_all

lemma ceil_div_small:
  assumes "0 \<le> n" "n < 2 ^ 63"
  shows "sint (int64_of_float64 (ceil_float64 (Float64 n (- 30)))) = (n + (2 ^ 30 - 1)) div 2 ^ 30"
proof -
  have ceil: "- (- n div 2 ^ 30) = (n + (2 ^ 30 - 1)) div (2 ^ 30 :: int)"
    unfolding powers by linarith
  have "0 \<le> (n + (2 ^ 30 - 1)) div (2 ^ 30 :: int)" "(n + (2 ^ 30 - 1)) div (2 ^ 30 :: int) < 2 ^ 63"
    using assms unfolding powers by linarith+
  then show ?thesis
    using assms unfolding ceil_float64_def
    by (simp add: ceil int64_of_Float64_nonneg)
qed

lemma requestedSizeGiB_exact:
  assumes "0 < sint (cr_required_bytes cr)" "sint (cr_required_bytes cr) < 2 ^ 53"
    and "\<not> (0 < sint (cr_limit_bytes cr) \<and> sint (cr_limit_bytes cr) < sint (cr_required_bytes cr))"
  obtains n where "requestedSizeGiB (Some cr) = Inr n"
    and "sint n = (sint (cr_required_bytes cr) + (2 ^ 30 - 1)) div 2 ^ 30"
proof -
  let ?n = "int64_of_float64 (ceil_float64 (Float64 (sint (cr_required_bytes cr)) (- 30)))"
  have "requestedSizeGiB (Some cr) = Inr ?n"
    using assms by (auto simp: requestedSizeGiB_def float64_of_small float64_div_pow2_def)
  then show ?thesis using that ceil_div_small assms by simp
qed

lemma sint_gibibytes:
  "0 \<le> sint n \<Longrightarrow> sint n < 2 ^ 33 \<Longrightarrow> sint (n * gibibyte) = sint n * 2 ^ 30"
proof -
  assume n: "0 \<le> sint n" "sint n < 2 ^ 33"
  have "n * gibibyte = word_of_int (sint n * 2 ^ 30)"
    by (simp add: gibibyte_def)
  moreover have "sint (word_of_int (sint n * 2 ^ 30) :: int64) = sint n * 2 ^ 30"
    using n by (intro sint_of_int64) auto
  ultimately show ?thesis by simp
qed

text \<open>
  C21: below 2 to the 53 bytes a request is rounded up to whole GiB: the capacity in bytes computed
  from it covers the request, by less than one GiB more, and does not wrap around.
\<close>

theorem requestedSizeGiB_covers:
  assumes "0 < sint (cr_required_bytes cr)" "sint (cr_required_bytes cr) < 2 ^ 53"
    and "\<not> (0 < sint (cr_limit_bytes cr) \<and> sint (cr_limit_bytes cr) < sint (cr_required_bytes cr))"
  shows "\<exists>n. requestedSizeGiB (Some cr) = Inr n \<and> 0 < sint n
     \<and> sint (n * gibibyte) = sint n * 2 ^ 30
     \<and> sint (cr_required_bytes cr) \<le> sint (n * gibibyte)
     \<and> sint (n * gibibyte) < sint (cr_required_bytes cr) + 2 ^ 30"
proof -
  from assms obtain n where n: "requestedSizeGiB (Some cr) = Inr n"
    "sint n = (sint (cr_required_bytes cr) + (2 ^ 30 - 1)) div 2 ^ 30"
    by (rule requestedSizeGiB_exact)
  have range: "0 < sint n" "sint n < 2 ^ 33" 
    using n(2) assms(1,2) unfolding powers by linarith+
  then have bytes: "sint (n * gibibyte) = sint n * 2 ^ 30" by (intro sint_gibibytes) auto
  have "sint (cr_required_bytes cr) \<le> sint n * 2 ^ 30"
    "sint n * 2 ^ 30 < sint (cr_required_bytes cr) + 2 ^ 30"
    unfolding n(2) powers by linarith+
  with n(1) range bytes show ?thesis by simp
qed

theorem requestedSizeGiB_covers_witness:
  "\<exists>n. requestedSizeGiB (Some \<lparr>cr_required_bytes = 5368709121, cr_limit_bytes = 0\<rparr>) = Inr n
     \<and> 5368709121 \<le> sint (n * gibibyte)"
  using requestedSizeGiB_covers [of "\<lparr>cr_required_bytes = 5368709121, cr_limit_bytes = 0\<rparr>"]
  by (simp, blast)

text \<open>The ceiling of a quotient by a power of two, as a quotient times that power.\<close>

lemma ceil_scaled:
  fixes q :: int
  assumes "0 < k" "k \<le> 30" "0 \<le> q" "q \<le> 2 ^ 53"
  obtains N where "sint (int64_of_float64 (ceil_float64 (Float64 q (- int k)))) = N"
    and "q \<le> N * 2 ^ k" "N * 2 ^ k < q + 2 ^ k"
proof -
  let ?N = "- (- q div 2 ^ k)"
  have "- q = - q div 2 ^ k * 2 ^ k + - q mod 2 ^ k" by (simp only: div_mult_mod_eq)
  moreover have "0 \<le> - q mod 2 ^ k" "- q mod 2 ^ k < (2 ^ k :: int)" by simp_all
  ultimately have n: "q \<le> ?N * 2 ^ k" "?N * 2 ^ k < q + 2 ^ k" by linarith+
  have pos: "0 \<le> ?N" using assms(3) by (simp add: div_nonpos_pos_le0)
  then have "?N * 1 \<le> ?N * 2 ^ k" by (intro mult_left_mono) simp_all
  moreover have "(2 :: int) ^ k \<le> 2 ^ 30" using assms(2) by (intro power_increasing) simp_all
  ultimately have "?N < 2 ^ 63" using n(2) assms(4) by simp
  with pos n assms(1) show ?thesis
    by (intro that [of ?N]) (simp_all add: ceil_float64_def int64_of_Float64_nonneg)
qed

text \<open>A request in \<open>float64\<close>: at most 10 bits are lost.\<close>

lemma float64_of_large:
  assumes "2 ^ 53 \<le> sint n"
  obtains e where "float64_of_int64 n = Float64 (round_half_even (sint n) (2 ^ e)) (int e)"
    and "1 \<le> e" "e \<le> 10" "2 ^ (e + 52) \<le> sint n" "sint n < 2 ^ (e + 53)"
proof -
  let ?m = "nat (sint n)"
  define e where "e = bit_length ?m - 53"
  have m: "2 ^ 53 \<le> ?m" "?m < 2 ^ 63" "int ?m = sint n"
    using assms int64_range (2) [of n] by simp_all
  have l: "54 \<le> bit_length ?m" "bit_length ?m \<le> 63"
    using bit_length_large [OF m(1)] bit_length_le [OF m(2)] by simp_all
  have "\<not> ?m < 2 ^ (bit_length ?m - 1)"
    using bit_length_le [of ?m "bit_length ?m - 1"] l by linarith
  moreover have "\<not> 2 ^ bit_length ?m \<le> ?m"
    using bit_length_large [of "bit_length ?m" ?m] by linarith
  moreover have "bit_length ?m - 1 = e + 52" "bit_length ?m = e + 53" using l by (auto simp: e_def)
  ultimately have "2 ^ (e + 52) \<le> ?m" "?m < 2 ^ (e + 53)" by (metis not_less)+
  then have "int (2 ^ (e + 52)) \<le> sint n" "sint n < int (2 ^ (e + 53))"
    using m(3) by linarith+
  with l that [of e] assms show ?thesis
    by (simp add: float64_of_int64_def e_def Let_def)
qed

lemma round_half_even_one:
  assumes "n mod 2 ^ 30 = 1" and "1 \<le> e" "e \<le> 10"
  shows "round_half_even n (2 ^ e) * 2 ^ e = n - 1"
proof -
  have dvd: "(2 :: int) ^ Suc e dvd 2 ^ 30" using assms(3) by (intro le_imp_power_dvd) simp
  have "2 ^ 30 dvd n - 1" using assms(1) by (metis dvd_minus_mod)
  with dvd have "2 ^ Suc e dvd n - 1" by (rule dvd_trans)
  then obtain k where "n - 1 = 2 ^ Suc e * k" by (rule dvdE)
  then have "n = 2 ^ Suc e * k + 1" by linarith
  then have k: "n = 2 * k * 2 ^ e + 1" by (simp add: mult_ac)
  have two: "(2 :: int) ^ 1 \<le> 2 ^ e" using assms(2) by (intro power_increasing) simp_all
  then have "n div 2 ^ e = 2 * k" "n mod 2 ^ e = 1" unfolding k using assms(2) by simp_all
  with two k show ?thesis by (auto simp: round_half_even_def Let_def)
qed

lemma round_half_even_le:
  assumes "0 < d" and "n < q * d" shows "round_half_even n d \<le> q"
proof -
  have "n div d * d \<le> n" using assms(1) by (simp add: minus_mod_eq_div_mult [symmetric])
  with assms have "n div d * d < q * d" by linarith
  with assms(1) have "n div d < q" by simp
  then show ?thesis by (simp add: round_half_even_def Let_def)
qed

text \<open>The size in GiB that a large request is rounded to, from its value \<open>f\<close> in \<open>float64\<close>.\<close>

lemma requestedSizeGiB_float:
  assumes "2 ^ 53 \<le> sint (cr_required_bytes cr)"
    and "\<not> (0 < sint (cr_limit_bytes cr) \<and> sint (cr_limit_bytes cr) < sint (cr_required_bytes cr))"
  obtains n f where "requestedSizeGiB (Some cr) = Inr n"
    and "f \<le> sint n * 2 ^ 30" "sint n * 2 ^ 30 < f + 2 ^ 30"
    and "\<bar>f - sint (cr_required_bytes cr)\<bar> \<le> 512" "f \<le> 2 ^ 63"
    and "sint (cr_required_bytes cr) mod 2 ^ 30 = 1 \<longrightarrow> f = sint (cr_required_bytes cr) - 1"
proof -
  let ?r = "sint (cr_required_bytes cr)"
  from assms(1) obtain e where f: "float64_of_int64 (cr_required_bytes cr)
      = Float64 (round_half_even ?r (2 ^ e)) (int e)"
    and e: "1 \<le> e" "e \<le> 10" and r: "2 ^ (e + 52) \<le> ?r" "?r < 2 ^ (e + 53)"
    by (rule float64_of_large)
  define q where "q = round_half_even ?r (2 ^ e)"
  define k where "k = 30 - e"
  have k: "0 < k" "k \<le> 30" "int e - 30 = - int k" and pow: "(2 :: int) ^ k * 2 ^ e = 2 ^ 30"
    using e by (simp_all add: k_def flip: power_add)
  have "(2 :: int) ^ e \<le> 2 ^ 10" using e by (intro power_increasing) simp_all
  then have small: "(2 :: int) ^ e \<le> 1024" by simp
  moreover have "2 * \<bar>q * 2 ^ e - ?r\<bar> \<le> 2 ^ e"
    unfolding q_def by (rule round_half_even_error) simp
  ultimately have "2 * \<bar>q * 2 ^ e - ?r\<bar> \<le> 1024" by (rule order_trans [rotated])
  then have err: "\<bar>q * 2 ^ e - ?r\<bar> \<le> 512" by simp
  have le: "q \<le> 2 ^ 53"
    unfolding q_def using r(2) by (intro round_half_even_le) (simp_all add: power_add mult.commute)
  have "0 < q * 2 ^ e" using err assms(1) unfolding powers abs_le_iff by linarith
  then have "0 \<le> q" by (simp add: zero_less_mult_iff)
  with k(1,2) le obtain N where
    N: "sint (int64_of_float64 (ceil_float64 (Float64 q (- int k)))) = N"
    "q \<le> N * 2 ^ k" "N * 2 ^ k < q + 2 ^ k"
    by (elim ceil_scaled)
  have "q * 2 ^ e \<le> N * 2 ^ k * 2 ^ e" "N * 2 ^ k * 2 ^ e < (q + 2 ^ k) * 2 ^ e"
    using N(2,3) by simp_all
  then have bounds: "q * 2 ^ e \<le> N * 2 ^ 30" "N * 2 ^ 30 < q * 2 ^ e + 2 ^ 30"
    unfolding mult.assoc pow distrib_right by simp_all
  have "q * 2 ^ e \<le> 2 ^ 53 * 1024" using le small \<open>0 \<le> q\<close> by (intro mult_mono) simp_all
  moreover have "requestedSizeGiB (Some cr)
      = Inr (int64_of_float64 (ceil_float64 (Float64 q (- int k))))"
    using assms by (simp add: requestedSizeGiB_def Let_def f q_def float64_div_pow2_def k(3))
  ultimately show ?thesis
    using bounds err round_half_even_one [OF _ e, of ?r]
    unfolding N(1) [symmetric]
    by (intro that [of _ "q * 2 ^ e"]) (simp_all add: q_def)
qed

text \<open>
  C26: from 2 to the 53 on the conversion to \<open>float64\<close> may lose up to 512 bytes before the rounding to
  GiB: the capacity computed from it may be so much short of the request (it is, by a byte,
  whenever the request is one byte over whole GiB), and it is negative, the least \<open>int64\<close>, for every
  request within a GiB less 512 bytes of 2 to the 63.
\<close>

theorem requestedSizeGiB_large:
  assumes "2 ^ 53 \<le> sint (cr_required_bytes cr)"
    and "\<not> (0 < sint (cr_limit_bytes cr) \<and> sint (cr_limit_bytes cr) < sint (cr_required_bytes cr))"
  shows "\<exists>n. requestedSizeGiB (Some cr) = Inr n
     \<and> sint (cr_required_bytes cr) - 512 \<le> sint n * 2 ^ 30
     \<and> sint n * 2 ^ 30 < sint (cr_required_bytes cr) + 512 + 2 ^ 30
     \<and> (sint (cr_required_bytes cr) mod 2 ^ 30 = 1 \<longrightarrow>
          sint n * 2 ^ 30 = sint (cr_required_bytes cr) - 1)
     \<and> (2 ^ 63 - 2 ^ 30 + 512 < sint (cr_required_bytes cr) \<longrightarrow>
          sint (n * gibibyte) = - (2 ^ 63))"
proof -
  let ?r = "sint (cr_required_bytes cr)"
  from assms obtain n f where n: "requestedSizeGiB (Some cr) = Inr n"
    and f: "f \<le> sint n * 2 ^ 30" "sint n * 2 ^ 30 < f + 2 ^ 30" "\<bar>f - ?r\<bar> \<le> 512" "f \<le> 2 ^ 63"
    and one: "?r mod 2 ^ 30 = 1 \<longrightarrow> f = ?r - 1"
    by (rule requestedSizeGiB_float)
  have exact: "sint n * 2 ^ 30 = ?r - 1" if "?r mod 2 ^ 30 = 1"
  proof -
    have "2 ^ 30 dvd ?r - 1" using that by (metis dvd_minus_mod)
    then obtain k where "?r - 1 = 2 ^ 30 * k" by (rule dvdE)
    moreover have "f = ?r - 1" using one that by blast
    ultimately have "k \<le> sint n" "sint n < k + 1" using f(1,2) unfolding powers by linarith+
    with \<open>?r - 1 = 2 ^ 30 * k\<close> show ?thesis by simp
  qed
  have wraps: "sint (n * gibibyte) = - (2 ^ 63)" if "2 ^ 63 - 2 ^ 30 + 512 < ?r"
  proof -
    have "2 ^ 33 \<le> sint n" "sint n \<le> 2 ^ 33"
      using f that unfolding powers abs_le_iff by linarith+
    then have "sint n = 2 ^ 33" by (rule order_antisym [rotated])
    moreover have "of_int (sint n) = n" by simp
    ultimately have "n = of_int (2 ^ 33)" by argo
    then show ?thesis by (simp add: gibibyte_def)
  qed
  from f have "?r - 512 \<le> sint n * 2 ^ 30" "sint n * 2 ^ 30 < ?r + 512 + 2 ^ 30" by linarith+
  with n exact wraps show ?thesis by blast
qed

theorem requestedSizeGiB_large_witness:
  "(\<exists>n. requestedSizeGiB (Some \<lparr>cr_required_bytes = 9007199254740993, cr_limit_bytes = 0\<rparr>) = Inr n
      \<and> sint n * 2 ^ 30 = 9007199254740992)
   \<and> (\<exists>n. requestedSizeGiB (Some \<lparr>cr_required_bytes = 9223372036854775807, cr_limit_bytes = 0\<rparr>) = Inr n
      \<and> sint (n * gibibyte) = - (2 ^ 63))"
  using requestedSizeGiB_large [of "\<lparr>cr_required_bytes = 9007199254740993, cr_limit_bytes = 0\<rparr>"]
    requestedSizeGiB_large [of "\<lparr>cr_required_bytes = 9223372036854775807, cr_limit_bytes = 0\<rparr>"]
  by auto

section \<open>Volume capabilities\<close>

definition supported_capability :: "VolumeCapability option \<Rightarrow> bool" where
  "supported_capability oc \<longleftrightarrow>
     (\<exists>c fs. oc = Some c \<and> vc_access_type c = MountVolume fs
        \<and> vc_access_mode c \<in> {None, Some AM_UNKNOWN, Some AM_SINGLE_NODE_WRITER,
             Some AM_SINGLE_NODE_SINGLE_WRITER})"

lemma validate_loop_iff:
  "validateVolumeCapabilities_loop cs = Inr () \<longleftrightarrow> list_all supported_capability cs"
proof (induction cs rule: validateVolumeCapabilities_loop.induct)
  case (3 c rest)
  then show ?case
    by (auto simp: supported_capability_def GetMount_def GetMode_def
        split: access_type.splits option.splits)
qed (auto simp: supported_capability_def)

text \<open>
  C23: a list of capabilities is accepted exactly when it is not empty and all of them are mounts for
  one writer on one node (or of unknown mode).
\<close>

theorem validateVolumeCapabilities_iff:
  "validateVolumeCapabilities cs = Inr () \<longleftrightarrow> cs \<noteq> [] \<and> list_all supported_capability cs"
  by (simp add: validateVolumeCapabilities_def validate_loop_iff)

end
