(* ===== verification/Controller_Safety.thy ===== *)
theory Controller_Safety
  imports Controller_Backends Client_Safety Capacity
begin

text \<open>
  What the controller service does when it is wired to the Morpheus client: no nil pointer is
  dereferenced, refused requests have no effect, what a created volume's answer says, and what
  a delete can send.
\<close>

definition with_client ::
  "'w Client \<Rightarrow> ('w controller_state, controller_error, 'n, 'm) Driver \<Rightarrow>
   ('w controller_state, controller_error, 'n, 'm) Driver" where
  "with_client c d = d\<lparr>dr_volumes := Some (client_volumes c), dr_discovery := Some (client_discovery c)\<rparr>"

lemma with_client_simps [simp]:
  "dr_volumes (with_client c d) = Some (client_volumes c)"
  "dr_discovery (with_client c d) = Some (client_discovery c)"
  "dr_nodes (with_client c d) = dr_nodes d"
  by (simp_all add: with_client_def)

section \<open>Panics and refusals\<close>

text \<open>
  C9: wired to the Morpheus client the controller never dereferences nil, whatever the request, the
  HTTP side and the node resolver are.
\<close>

theorem controller_never_panics:
  "no_panic (Driver_CreateVolume (with_client c d) create)
   \<and> no_panic (Driver_DeleteVolume (with_client c d) volumeID)
   \<and> no_panic (Driver_ControllerPublishVolume (with_client c d) publish)
   \<and> no_panic (Driver_ControllerUnpublishVolume (with_client c d) unpublish)
   \<and> no_panic (Driver_ControllerExpandVolume (with_client c d) expand)"
  by (intro conjI backend.create_no_panic morpheus.delete_no_panic morpheus.publish_no_panic
      morpheus.unpublish_no_panic morpheus.expand_no_panic) (rule with_client_simps)+

text \<open>
  C16: a controller request that is answered with \<open>InvalidArgument\<close> has had no effect: nothing was
  sent and nothing locked.
\<close>

theorem refused_requests_have_no_effect:
  "quiet_refusal (Driver_CreateVolume (with_client c d) create)
   \<and> quiet_refusal (Driver_DeleteVolume (with_client c d) volumeID)
   \<and> quiet_refusal (Driver_ControllerPublishVolume (with_client c d) publish)
   \<and> quiet_refusal (Driver_ControllerUnpublishVolume (with_client c d) unpublish)
   \<and> quiet_refusal (Driver_ControllerExpandVolume (with_client c d) expand)"
  by (intro conjI backend.create_quiet morpheus.delete_quiet morpheus.publish_quiet
      morpheus.unpublish_quiet morpheus.expand_quiet) (rule with_client_simps)+

section \<open>Created volumes\<close>

lemma svc_EnsureVolume_Inr:
  "svc_EnsureVolume (client_volumes c) req s = (Inr r, s') \<longleftrightarrow> Client_EnsureVolume c req s = (Inr r, s')"
  by (simp add: client_volumes_def wrap_error_Inr)

definition create_request :: "CreateVolumeRequest \<Rightarrow> int64 \<Rightarrow> ResizeVolumeRequest" where
  "create_request req n =
     \<lparr>rr_Name = TrimSpace (cv_name req), rr_SizeGiB = n, rr_StorageClass = cv_parameters req,
      rr_VolumeID = []\<rparr>"

lemma DecodeVolumeID_EncodeVolumeID_ok:
  assumes "TrimSpace s \<noteq> []" "TrimSpace v \<noteq> []"
    and "CHR '':'' \<notin> set (TrimSpace s)" "CHR '':'' \<notin> set (TrimSpace v)"
  shows "DecodeVolumeID (EncodeVolumeID s v) =
    Inr \<lparr>ref_ServerID = TrimSpace s, ref_VolumeID = TrimSpace v\<rparr>"
proof -
  have "TrimSpace (EncodeVolumeID s v) = TrimSpace s @ CHR '':'' # TrimSpace v"
    using trimmed_append [of "TrimSpace s" "TrimSpace v" "CHR '':''"]
    by (simp add: EncodeVolumeID_def trimmed_def)
  with assms show ?thesis by (auto simp: DecodeVolumeID_def)
qed

text \<open>
  C8: when a create succeeds, its arguments were valid, one EnsureVolume call of the client with
  the trimmed name and the rounded size returned a volume, and the answer names that volume.
  Either the server was only read and lists the volume under that name with at least that size, or
  an array was sent that has a volume of that name and size. The answer's capacity is the
  rounded size of the request (also when the volume found is larger), its context holds the
  volume's id, the server of the storage class and the rounded size, and its handle decodes to
  that server and the volume's id when neither has a colon and the id is trimmed.
\<close>

theorem CreateVolume_answer:
  assumes "Driver_CreateVolume (with_client c d) req s = (Inr resp, s')"
  shows "\<exists>n v. requestedSizeGiB (cv_capacity_range req) = Inr n
    \<and> validateVolumeCapabilities (cv_volume_capabilities req) = Inr ()
    \<and> Client_EnsureVolume c (create_request req n) s = (Inr (Some v), s')
    \<and> (\<exists>evs. trace s' = trace s @ evs \<and> found_or_asked c (create_request req n) v evs)
    \<and> csi_capacity_bytes resp = n * gibibyte
    \<and> csi_volume_context resp VolumeContextVolumeID = Some (vol_ID v)
    \<and> csi_volume_context resp VolumeContextSizeGiB = Some (FormatInt n)
    \<and> (let server = StorageClassServerID (cv_parameters req)
       in server \<noteq> [] \<and> csi_volume_context resp VolumeContextServerID = Some server
        \<and> (CHR '':'' \<notin> set server \<and> CHR '':'' \<notin> set (vol_ID v) \<and> TrimSpace (vol_ID v) = vol_ID v
             \<longrightarrow> DecodeVolumeID (csi_volume_id resp)
                  = Inr \<lparr>ref_ServerID = server, ref_VolumeID = vol_ID v\<rparr>))"
  using assms with_client_simps(1,2)
proof (rule backend.create_result)
  fix n v
  let ?ensured = "Client_EnsureVolume c (create_request req n) s = (Inr (Some v), s')"
  assume "validateVolumeCapabilities (cv_volume_capabilities req) = Inr ()"
    and server: "StorageClassServerID (cv_parameters req) \<noteq> []"
    and "requestedSizeGiB (cv_capacity_range req) = Inr n"
    and "svc_EnsureVolume (client_volumes c) \<lparr>rr_Name = TrimSpace (cv_name req), rr_SizeGiB = n,
           rr_StorageClass = cv_parameters req, rr_VolumeID = []\<rparr> s = (Inr (Some v), s')"
    and id: "vol_ID v \<noteq> []"
    and resp: "resp = \<lparr>csi_volume_id = EncodeVolumeID (StorageClassServerID (cv_parameters req)) (vol_ID v),
           csi_capacity_bytes = n * gibibyte,
           csi_volume_context =
             create_context (StorageClassServerID (cv_parameters req)) n (cv_parameters req) v\<rparr>"
  moreover have "create_context k n p v VolumeContextVolumeID = Some (vol_ID v)"
    "create_context k n p v VolumeContextServerID = Some k"
    "create_context k n p v VolumeContextSizeGiB = Some (FormatInt n)" for k p
    by (simp_all add: create_context_def Let_def context_key_defs fstype_key_def)
  moreover have "\<exists>evs. trace s' = trace s @ evs \<and> found_or_asked c (create_request req n) v evs"
    if ?ensured
    using that by (rule EnsureVolume_found_or_asked) (simp add: create_request_def)
  ultimately show ?thesis
    using DecodeVolumeID_EncodeVolumeID_ok [of "StorageClassServerID (cv_parameters req)" "vol_ID v"]
    by (auto simp: svc_EnsureVolume_Inr create_request_def Let_def)
qed

text \<open>A run on the simulated API, shared by the witnesses: a volume of that name is there already.\<close>

definition sim_driver :: "(sim controller_state, controller_error, unit, unit) Driver" where
  "sim_driver =
     \<lparr>dr_cfg = Default, dr_volumes = None, dr_discovery = None,
      dr_mounter =
        \<lparr>mt_Stage = (\<lambda>_ _ _ _. retE ()), mt_BindMount = (\<lambda>_ _ _. retE ()),
         mt_MountedSource = (\<lambda>_. retE []), mt_Unmount = (\<lambda>_. retE ()),
         mt_ExpandFilesystem = (\<lambda>_ _. retE ()), mt_RescanDevices = retE (),
         mt_DiscoverDevicePath = (\<lambda>_. retE []), mt_RemoveDevice = (\<lambda>_. retE ()),
         mt_RecordStagedDevice = (\<lambda>_ _ _. retE ()), mt_StagedDevicePath = (\<lambda>_. retE []),
         mt_ForgetStagedDevice = (\<lambda>_. retE ())\<rparr>,
      dr_nodes = None\<rparr>"

definition sim_create :: CreateVolumeRequest where
  "sim_create =
     \<lparr>cv_name = ''pvc-1'',
      cv_capacity_range = Some \<lparr>cr_required_bytes = 5368709121, cr_limit_bytes = 0\<rparr>,
      cv_volume_capabilities =
        [Some \<lparr>vc_access_type = MountVolume ''ext4'', vc_access_mode = Some AM_SINGLE_NODE_WRITER\<rparr>],
      cv_parameters = [ParamServerID \<mapsto> ''12'']\<rparr>"

lemma sim_create_ensured:
  "case Client_EnsureVolume sim_client (create_request sim_create 6) sim_two of
     (Inr (Some v), s) \<Rightarrow> vol_ID v = ''77'' | _ \<Rightarrow> False"
  by code_simp

lemma sim_create_checks:
  "TrimSpace ''pvc-1'' = ''pvc-1''" "cv_name sim_create = ''pvc-1''"
  "validateVolumeCapabilities (cv_volume_capabilities sim_create) = Inr ()"
  "requestedSizeGiB (cv_capacity_range sim_create) = Inr 6"
  "StorageClassServerID (cv_parameters sim_create) = ''12''"
  by code_simp+

lemma sim_create_succeeds:
  "\<exists>resp s'. Driver_CreateVolume (with_client sim_client sim_driver) sim_create sim_two = (Inr resp, s')"
proof -
  obtain v s where "Client_EnsureVolume sim_client (create_request sim_create 6) sim_two = (Inr (Some v), s)"
    using sim_create_ensured by (auto split: prod.splits sum.splits option.splits)
  then have "svc_EnsureVolume (client_volumes sim_client)
      \<lparr>rr_Name = ''pvc-1'', rr_SizeGiB = 6, rr_StorageClass = cv_parameters sim_create,
       rr_VolumeID = []\<rparr> sim_two = (Inr (Some v), s)"
    by (simp add: svc_EnsureVolume_Inr create_request_def sim_create_checks)
  then show ?thesis
    by (simp add: Driver_CreateVolume_def sim_create_checks check_text_def client_discovery_def
        ValidateStorageClass_def failing_def Let_def)
qed

theorem CreateVolume_answer_witness:
  "\<exists>(resp :: CsiVolume) v. DecodeVolumeID (csi_volume_id resp) = Inr \<lparr>ref_ServerID = ''12'', ref_VolumeID = v\<rparr>
     \<and> csi_capacity_bytes resp = 6 * gibibyte
     \<and> csi_volume_context resp VolumeContextSizeGiB = Some ''6''"
proof -
  obtain resp s' where
    run: "Driver_CreateVolume (with_client sim_client sim_driver) sim_create sim_two = (Inr resp, s')"
    using sim_create_succeeds by blast
  from CreateVolume_answer [OF run] obtain v where
    "Client_EnsureVolume sim_client (create_request sim_create 6) sim_two = (Inr (Some v), s')"
    and "csi_capacity_bytes resp = 6 * gibibyte"
    and "csi_volume_context resp VolumeContextSizeGiB = Some (FormatInt 6)"
    and decode: "CHR '':'' \<notin> set (vol_ID v) \<and> TrimSpace (vol_ID v) = vol_ID v
         \<longrightarrow> DecodeVolumeID (csi_volume_id resp) = Inr \<lparr>ref_ServerID = ''12'', ref_VolumeID = vol_ID v\<rparr>"
    by (auto simp: sim_create_checks Let_def)
  moreover from this(1) have "vol_ID v = ''77''" using sim_create_ensured by simp
  moreover have "TrimSpace ''77'' = ''77''" "FormatInt 6 = ''6''" by code_simp+
  ultimately have "DecodeVolumeID (csi_volume_id resp) = Inr \<lparr>ref_ServerID = ''12'', ref_VolumeID = ''77''\<rparr>
     \<and> csi_capacity_bytes resp = 6 * gibibyte
     \<and> csi_volume_context resp VolumeContextSizeGiB = Some ''6''" by simp
  then show ?thesis by blast
qed

section \<open>Deletes\<close>

text \<open>Lookups of the controller: requests to Morpheus that only read, and requests to Kubernetes.\<close>

fun only_lookups :: "net_event \<Rightarrow> bool" where
  "only_lookups (KubeNet rq res) \<longleftrightarrow> True"
| "only_lookups ev \<longleftrightarrow> only_reads ev"

lemma only_reads_lookups: "only_reads ev \<Longrightarrow> only_lookups ev"
  by (cases ev) auto

lemma emits_kube_do [emits_intros]: "emits only_lookups (kube_do k path decode)"
  by (rule emitsI) (auto elim!: kube_do_cases)

lemma emits_resolver [emits_intros]:
  "emits only_lookups (Resolver_ServerIDs k)" "emits only_lookups (Resolver_ServerIDForNode k n)"
  unfolding Resolver_ServerIDs_def Resolver_ServerIDForNode_def Let_def
  by (auto intro!: emits_intros)

lemma emits_candidates:
  assumes "dr_nodes d = map_option resolver_nodes ok"
  shows "emits only_lookups (candidateServerIDs d extra)"
  using assms unfolding candidateServerIDs_def resolver_nodes_def
  by (auto intro!: emits_intros split: option.split sum.split)

lemma emits_current_ref:
  assumes "dr_nodes d = map_option resolver_nodes ok"
  shows "emits only_lookups (current_ref (with_client c d) (client_volumes c) ref)"
proof -
  have "emits only_lookups (Client_FindVolume c i ids)" for i ids
    using emits_FindVolume only_reads_lookups by (rule emits_weaken)
  then show ?thesis
    using assms unfolding current_ref_def client_volumes_def
    by (auto intro!: emits_intros emits_candidates split: sum.split)
qed

lemma Client_DeleteVolume_trace:
  assumes "Client_DeleteVolume c ref s = (r, s')"
  shows "\<exists>evs. trace s' = trace s @ evs"
proof (cases "validateRef ref")
  case (Inl e)
  then show ?thesis using assms by (simp add: Client_DeleteVolume_run_eq)
next
  case (Inr u)
  then show ?thesis using DeleteVolume_session [OF assms] by auto
qed

text \<open>
  C10: whatever Morpheus and Kubernetes answer, a delete of the controller that writes sends the
  volume array it has just read of one server without the volume its handle names, and that
  volume is no root disk.
\<close>

theorem Driver_DeleteVolume_removes_only_target:
  assumes run: "Driver_DeleteVolume (with_client c d) volumeID s = (r, s')"
    and nodes: "dr_nodes d = map_option resolver_nodes ok"
    and evs: "trace s' = trace s @ evs" and put: "Net rq res \<in> set evs" "rq_method rq = PUT"
  shows "\<exists>ref server answer st target. DecodeVolumeID volumeID = Inr ref
    \<and> Net (server_request c server) answer \<in> set evs \<and> state_answer server answer = Inr st
    \<and> rq = resize_request c (st_ID st)
             (filter (\<lambda>v. vol_ID v \<noteq> ref_VolumeID ref) (st_Volumes st))
    \<and> findVolumeByID (st_Volumes st) (ref_VolumeID ref) = Some target
    \<and> \<not> vol_RootVolume target"
proof (cases "DecodeVolumeID volumeID")
  case (Inl e)
  then have "s' = s" using run by (auto simp: Driver_DeleteVolume_def decode_handle_def)
  with evs put show ?thesis by simp
next
  case (Inr ref)
  have "bindE (current_ref (with_client c d) (client_volumes c) ref)
      (\<lambda>ref'. failing Internal (Wrapped ''delete Morpheus server volume: %v'' [])
        (svc_DeleteVolume (client_volumes c) ref')) s = (r, s')"
    using run Inr by (simp add: Driver_DeleteVolume_def decode_handle_def)
  then show ?thesis
  proof (cases rule: bindE_cases)
    case (fails e)
    then have False
      using avoidsD [OF avoids_current_ref [where P = "\<lambda>_. True"] fails(1)] by simp
    then show ?thesis ..
  next
    case (goes_on ref' t)
    obtain lookups where t: "trace t = trace s @ lookups" "\<forall>ev \<in> set lookups. only_lookups ev"
      using emits_current_ref [OF nodes] goes_on(1) by (rule emitsD)
    have id: "ref_VolumeID ref' = ref_VolumeID ref"
      using morpheus.current_ref_volume [OF goes_on(1)] DecodeVolumeID_ok [OF Inr] by simp
    obtain r' where run': "Client_DeleteVolume c ref' t = (r', s')"
      using goes_on(2)
      by (cases "Client_DeleteVolume c ref' t")
        (auto simp: failing_def wrap_error_def client_volumes_def split: sum.splits)
    obtain evs' where evs': "trace s' = trace t @ evs'"
      using Client_DeleteVolume_trace [OF run'] by blast
    with t evs have "evs = lookups @ evs'" by simp
    with put t(2) have "Net rq res \<in> set evs'" by fastforce
    from DeleteVolume_PUT [OF run' evs' this put(2)] id Inr \<open>evs = lookups @ evs'\<close>
    show ?thesis by auto
  qed
qed

lemma candidates_extra:
  assumes "candidateServerIDs d extra s = (Inr ids, s')" and "x \<in> set extra" "TrimSpace x \<noteq> []"
  shows "TrimSpace x \<in> set ids"
proof -
  from assms(1) obtain more where "ids = uniqueStrings (more @ extra)"
    by (auto simp: candidateServerIDs_def tryE_eq split: option.splits prod.splits sum.splits
        intro: that [of "[]"])
  with assms(2,3) show ?thesis
    by (auto simp: uniqueStrings_eq set_nonblank)
qed

text \<open>A delete once its steps are known.\<close>

lemma Driver_DeleteVolume_steps:
  assumes "DecodeVolumeID volumeID = Inr ref"
    and "candidateServerIDs (with_client c d) [ref_ServerID ref] s = (Inr ids, s1)" "ids \<noteq> []"
    and "Client_FindVolume c (ref_VolumeID ref) ids s1 = (found, s2)"
    and "Client_DeleteVolume c (case found of Inr (ref', _) \<Rightarrow> ref' | Inl _ \<Rightarrow> ref) s2 = (Inr (), s')"
  shows "Driver_DeleteVolume (with_client c d) volumeID s = (Inr (), s')"
proof -
  have "current_ref (with_client c d) (client_volumes c) ref s =
      (Inr (case found of Inr (ref', _) \<Rightarrow> ref' | Inl _ \<Rightarrow> ref), s2)"
    using assms(2-4)
    by (cases found) (auto simp: current_ref_def client_volumes_def tryE_eq wrap_error_def)
  with assms(1,5) show ?thesis
    by (simp add: Driver_DeleteVolume_def decode_handle_def failing_def wrap_error_Inr
        client_volumes_def)
qed

lemma Client_DeleteVolume_absent:
  assumes "validateRef ref = Inr ()"
    and "cl_httpDo c (server_request c (ref_ServerID ref)) (ext s) = (a, w)"
    and "lacks (ref_VolumeID ref) (ref_ServerID ref) a"
  shows "\<exists>s'. Client_DeleteVolume c ref s = (Inr (), s') \<and>
    trace s' = trace s @ [Locked (TrimSpace (ref_ServerID ref)),
      Net (server_request c (ref_ServerID ref)) a, Unlocked (TrimSpace (ref_ServerID ref))]"
proof -
  from assms(3) obtain st where "state_answer (ref_ServerID ref) a = Inr st"
    and "findVolumeByID (st_Volumes st) (ref_VolumeID ref) = None"
    by (auto simp: lacks_def split: sum.splits)
  with assms(1,2) show ?thesis
    by (simp add: Client_DeleteVolume_def with_lockServer_def Let_def getServerState_run
        del: validateRef_iff)
qed

text \<open>
  C25: a delete reports success without sending anything when the search for the volume failed on
  the way (one candidate server that cannot be read is enough) and the server its handle
  names does not list it: the volume, attached elsewhere, stays.
\<close>

theorem Driver_DeleteVolume_may_leak:
  assumes handle: "DecodeVolumeID volumeID = Inr ref"
    and ids: "candidateServerIDs (with_client c d) [ref_ServerID ref] s = (Inr ids, s1)"
    and search: "Client_FindVolume c (ref_VolumeID ref) ids s1 = (Inl e, s2)"
    and http: "cl_httpDo c (server_request c (ref_ServerID ref)) (ext s2) = (a, w)"
    and absent: "lacks (ref_VolumeID ref) (ref_ServerID ref) a"
  shows "\<exists>s'. Driver_DeleteVolume (with_client c d) volumeID s = (Inr (), s') \<and>
    trace s' = trace s2 @ [Locked (ref_ServerID ref),
      Net (server_request c (ref_ServerID ref)) a, Unlocked (ref_ServerID ref)]"
proof -
  have ref: "validateRef ref = Inr ()" "TrimSpace (ref_ServerID ref) = ref_ServerID ref"
    using DecodeVolumeID_ok [OF handle] by auto
  obtain s' where run: "Client_DeleteVolume c ref s2 = (Inr (), s')"
    and trace: "trace s' = trace s2 @ [Locked (ref_ServerID ref),
      Net (server_request c (ref_ServerID ref)) a, Unlocked (ref_ServerID ref)]"
    using Client_DeleteVolume_absent [OF ref(1) http absent] ref(2) by auto
  have "ids \<noteq> []"
  proof -
    have "ref_ServerID ref \<in> set ids"
      using candidates_extra [OF ids] DecodeVolumeID_ok [OF handle] by auto
    then show ?thesis by auto
  qed
  then show ?thesis
    using Driver_DeleteVolume_steps [OF handle ids _ search] run trace by auto
qed

text \<open>
  Volume 77 was made on server 13 and is attached to 12; server 99, a node's label, is not known
  to Morpheus.
\<close>

definition sim_nodes :: "(sim controller_state, controller_error) NodeServerResolver" where
  "sim_nodes =
     \<lparr>nsr_ServerIDForNode = (\<lambda>_. retE ''12''), nsr_ServerIDs = retE [''99'', ''12'']\<rparr>"

definition leaky_driver :: "(sim controller_state, controller_error, unit, unit) Driver" where
  "leaky_driver = sim_driver\<lparr>dr_nodes := Some sim_nodes\<rparr>"

lemma leaky_candidates:
  "candidateServerIDs (with_client sim_client leaky_driver) [''13''] sim_two
     = (Inr [''99'', ''12'', ''13''], sim_two)"
proof -
  have "uniqueStrings ([''99'', ''12''] @ [''13'']) = [''99'', ''12'', ''13'']" by code_simp
  then show ?thesis by (simp add: candidateServerIDs_def leaky_driver_def sim_nodes_def tryE_eq)
qed

lemma leaky_search:
  "case Client_FindVolume sim_client ''77'' [''99'', ''12'', ''13''] sim_two of
     (r, s) \<Rightarrow> isl r
       \<and> lacks ''77'' ''13'' (fst (sim_http (server_request sim_client ''13'') (ext s)))
       \<and> \<not> lacks ''77'' ''12'' (fst (sim_http (server_request sim_client ''12'') (ext s)))"
  by code_simp

theorem Driver_DeleteVolume_may_leak_witness:
  "\<exists>s'. Driver_DeleteVolume (with_client sim_client leaky_driver) ''13:77'' sim_two = (Inr (), s')"
proof -
  obtain e s2 where search: "Client_FindVolume sim_client ''77'' [''99'', ''12'', ''13''] sim_two = (Inl e, s2)"
    and absent: "lacks ''77'' ''13'' (fst (sim_http (server_request sim_client ''13'') (ext s2)))"
    using leaky_search by (auto split: prod.splits simp: isl_def)
  have handle: "DecodeVolumeID ''13:77'' = Inr \<lparr>ref_ServerID = ''13'', ref_VolumeID = ''77''\<rparr>"
    by code_simp
  have http: "cl_httpDo sim_client (server_request sim_client ''13'') (ext s2) =
      (fst (sim_http (server_request sim_client ''13'') (ext s2)),
       snd (sim_http (server_request sim_client ''13'') (ext s2)))"
    by (simp add: sim_client_def)
  show ?thesis
    using Driver_DeleteVolume_may_leak [OF handle _ _ _, of sim_client leaky_driver sim_two
        "[''99'', ''12'', ''13'']" sim_two e s2, simplified, OF leaky_candidates search http absent]
    by blast
qed

lemma sim_delete_handle: "DecodeVolumeID ''12:77'' = Inr sim_ref"
  by code_simp

lemma sim_delete_candidates: "uniqueStrings [''12''] = [''12'']"
  by code_simp

lemma sim_delete_found:
  "case Client_FindVolume sim_client ''77'' [''12''] sim_two of
     (Inr (ref, _), s) \<Rightarrow> ref = sim_ref \<and>
       (case Client_DeleteVolume sim_client sim_ref s of
          (r, s') \<Rightarrow> r = Inr () \<and> puts (trace s') \<noteq> [])
   | _ \<Rightarrow> False"
  by code_simp

lemma sim_delete_run:
  obtains s' where "Driver_DeleteVolume (with_client sim_client sim_driver) ''12:77'' sim_two = (Inr (), s')"
    and "puts (trace s') \<noteq> []"
proof -
  obtain found s1 s' where
    f: "Client_FindVolume sim_client ''77'' [''12''] sim_two = (Inr (sim_ref, found), s1)"
    and del: "Client_DeleteVolume sim_client sim_ref s1 = (Inr (), s')" and "puts (trace s') \<noteq> []"
    using sim_delete_found by (auto split: prod.splits sum.splits)
  moreover have "candidateServerIDs (with_client sim_client sim_driver) [ref_ServerID sim_ref] sim_two
      = (Inr [''12''], sim_two)"
    by (simp add: candidateServerIDs_def sim_driver_def sim_delete_candidates)
  ultimately show ?thesis
    using that Driver_DeleteVolume_steps [OF sim_delete_handle] by fastforce
qed

theorem Driver_DeleteVolume_removes_only_target_witness:
  "\<exists>s' rq ref server answer st.
      Driver_DeleteVolume (with_client sim_client sim_driver) ''12:77'' sim_two = (Inr (), s')
    \<and> rq \<in> set (puts (trace s')) \<and> DecodeVolumeID ''12:77'' = Inr ref
    \<and> state_answer server answer = Inr st
    \<and> rq = resize_request sim_client (st_ID st)
             (filter (\<lambda>v. vol_ID v \<noteq> ref_VolumeID ref) (st_Volumes st))"
proof -
  obtain s' where run: "Driver_DeleteVolume (with_client sim_client sim_driver) ''12:77'' sim_two = (Inr (), s')"
    and puts: "puts (trace s') \<noteq> []" by (rule sim_delete_run)
  then obtain rq where rq: "rq \<in> set (puts (trace s'))" by (meson list.set_sel(1))
  then obtain res where "Net rq res \<in> set (trace s')" "rq_method rq = PUT" using puts_in by blast
  from Driver_DeleteVolume_removes_only_target [OF run _ _ this, of None] rq run show ?thesis
    by (simp add: sim_driver_def) blast
qed

end
