(* ===== verification/Volume_Payload.thy ===== *)
theory Volume_Payload
  imports Morpheus_Types "HOL-Library.Code_Target_Nat"
begin

text \<open>
  Resizes replace a server's whole volume array by what the client has read of it, so what matters
  is that a volume survives the way out and back: the item of the resize payload, its JSON
  text, and the reader. The theory also states what the size fields are read as.
\<close>

section \<open>Numbers on the wire\<close>

text \<open>
  What \<open>encoding/json\<close> makes of a value that is encoded and decoded into \<open>any\<close> again: integers
  come back as the nearest \<open>float64\<close>, everything else as it was.
\<close>

fun json_wire :: "any \<Rightarrow> any" where
  "json_wire (AInt n) = AFloat (float64_of_int64 n)"
| "json_wire (AInt64 n) = AFloat (float64_of_int64 n)"
| "json_wire (ASlice xs) = ASlice (map json_wire xs)"
| "json_wire (AMap m) = AMap (map (\<lambda>(k, v). (k, json_wire v)) m)"
| "json_wire v = v"

definition small64 :: "int64 \<Rightarrow> bool" where
  "small64 n \<longleftrightarrow> \<bar>sint n\<bar> < 2 ^ 53"

lemma map_of_json_wire:
  "map_of (map (\<lambda>(k, v). (k, json_wire v)) m) k = map_option json_wire (map_of m k)"
  by (induction m) auto

lemma int64_of_float64_of_int64: "small64 n \<Longrightarrow> int64_of_float64 (float64_of_int64 n) = n"
  using int64_range [of n]
  by (simp add: small64_def float64_of_small int64_of_float64_def trunc_float64_def)

text \<open>
  What an id is read back as: a decimal number as \<open>FormatInt\<close> writes it, after its way through \<open>float64\<close>;
  another text trimmed.
\<close>

definition wire_int :: "int64 \<Rightarrow> int64" where
  "wire_int n = int64_of_float64 (float64_of_int64 n)"

definition wire_id :: "string \<Rightarrow> string" where
  "wire_id i = (case ParseInt i of (n, None) \<Rightarrow> FormatInt (wire_int n) | _ \<Rightarrow> TrimSpace i)"

lemma wire_int_small: "small64 n \<Longrightarrow> wire_int n = n"
  by (simp add: wire_int_def int64_of_float64_of_int64)

lemma stringValue_jsonID: "stringValue (json_wire (jsonID i)) = wire_id i"
  by (auto simp: wire_id_def wire_int_def jsonID_def split: prod.splits option.splits)

lemma asMap_jsonID: "asMap (json_wire (jsonID i)) = []"
  by (auto simp: jsonID_def split: prod.splits option.splits)

lemma wire_id_Nil [simp]: "wire_id [] = []"
  by code_simp

lemma FormatInt_inject: "FormatInt a = FormatInt b \<longleftrightarrow> a = b"
  using ParseInt_FormatInt by (metis prod.inject)

text \<open>Ids that come back: numbers in canonical form that \<open>float64\<close> can hold, and trimmed texts.\<close>

definition canonical_id :: "string \<Rightarrow> bool" where
  "canonical_id i \<longleftrightarrow>
     (case ParseInt i of (n, None) \<Rightarrow> FormatInt n = i \<and> wire_int n = n | _ \<Rightarrow> trimmed i)"

lemma trimmed_iff: "trimmed s \<longleftrightarrow> TrimSpace s = s"
  using TrimSpace_trimmed trimmed_TrimSpace by metis

lemma wire_id_eq_iff: "wire_id i = i \<longleftrightarrow> canonical_id i"
proof (cases "ParseInt i")
  case (Pair n err)
  have "FormatInt (wire_int n) = i \<longleftrightarrow> FormatInt n = i \<and> wire_int n = n" if "err = None"
    using Pair that ParseInt_FormatInt [of "wire_int n"] by auto
  with Pair show ?thesis
    by (auto simp: wire_id_def canonical_id_def trimmed_iff split: option.splits)
qed

definition sendable :: "StorageVolume \<Rightarrow> bool" where
  "sendable v \<longleftrightarrow>
     vol_ID v \<noteq> [] \<and> list_all canonical_id [vol_ID v, vol_StorageTypeID v, vol_DatastoreID v]
   \<and> trimmed (vol_Name v) \<and> trimmed (vol_ControllerMountPoint v)"

text \<open>The volume that is read where \<open>v\<close> was sent: a volume to be made is sent with the id -1.\<close>

definition read_back :: "StorageVolume \<Rightarrow> StorageVolume" where
  "read_back v =
     \<lparr>vol_ID = (if vol_ID v = [] then ''-1'' else wire_id (vol_ID v)),
      vol_Name = TrimSpace (vol_Name v), vol_SizeGiB = vol_SizeGiB v,
      vol_RootVolume = vol_RootVolume v, vol_StorageTypeID = wire_id (vol_StorageTypeID v),
      vol_DatastoreID = wire_id (vol_DatastoreID v),
      vol_ControllerMountPoint = TrimSpace (vol_ControllerMountPoint v), vol_DevicePath = []\<rparr>"

abbreviation item_map :: "StorageVolume \<Rightarrow> any_map" where
  "item_map v \<equiv> asMap (json_wire (resize_item v))"

lemma item_get: "map_of (item_map v) k = map_option json_wire (map_of (asMap (resize_item v)) k)"
  by (simp add: resize_item_def map_of_json_wire del: map_append map_map)

lemma item_not_Nil [simp]: "item_map v \<noteq> []"
  by (simp add: resize_item_def)

lemma item_fields:
  "map_of (item_map v) ''name'' = Some (AString (vol_Name v))"
  "map_of (item_map v) ''size'' = Some (AFloat (float64_of_int64 (vol_SizeGiB v)))"
  "map_of (item_map v) ''rootVolume'' = Some (ABool (vol_RootVolume v))"
  "map_of (item_map v) ''id'' =
     (if vol_ID v \<noteq> [] then Some (json_wire (jsonID (vol_ID v)))
      else if \<not> vol_RootVolume v then Some (AFloat (float64_of_int64 (- 1))) else None)"
  "map_of (item_map v) ''storageType'' =
     (if vol_StorageTypeID v \<noteq> [] then Some (json_wire (jsonID (vol_StorageTypeID v))) else None)"
  "map_of (item_map v) ''datastoreId'' =
     (if vol_DatastoreID v \<noteq> [] then Some (json_wire (jsonID (vol_DatastoreID v))) else None)"
  "map_of (item_map v) ''controllerMountPoint'' =
     (if vol_ControllerMountPoint v \<noteq> [] then Some (AString (vol_ControllerMountPoint v)) else None)"
  by (simp_all add: item_get resize_item_def)

lemma item_absent:
  "k \<notin> {''name'', ''size'', ''sizeId'', ''rootVolume'', ''id'', ''storageType'', ''datastoreId'',
     ''controllerMountPoint''} \<Longrightarrow> map_of (item_map v) k = None"
  by (auto simp: item_get resize_item_def)

lemma item_absent_keys:
  "map_of (item_map v) ''sizeGiB'' = None" "map_of (item_map v) ''sizeGB'' = None"
  "map_of (item_map v) ''sizeGb'' = None" "map_of (item_map v) ''maxStorage'' = None"
  "map_of (item_map v) ''storageTypeId'' = None" "map_of (item_map v) ''type'' = None"
  "map_of (item_map v) ''datastore'' = None" "map_of (item_map v) ''devicePath'' = None"
  "map_of (item_map v) ''deviceName'' = None" "map_of (item_map v) ''device'' = None"
  "map_of (item_map v) ''path'' = None" "map_of (item_map v) ''connectionInfo'' = None"
  "map_of (item_map v) ''attachment'' = None" "map_of (item_map v) ''mount'' = None"
  by (simp_all add: item_absent)

lemma normalizeDevicePath_Nil [simp]: "normalizeDevicePath [] = []"
  by (simp add: normalizeDevicePath_def)

lemma storageSizeGiB_item:
  assumes "small64 (vol_SizeGiB v)" "sint (vol_SizeGiB v) \<le> 2 ^ 30"
  shows "storageSizeGiB (item_map v) = vol_SizeGiB v"
  using assms
  by (simp add: storageSizeGiB_def item_fields item_absent_keys int64_of_float64_of_int64
      bytesPerGiB_def)

lemma minus_one_text: "FormatInt (int64_of_float64 (float64_of_int64 (- 1))) = ''-1''"
proof -
  have "int64_of_float64 (float64_of_int64 (- 1)) = - 1"
    by (simp add: int64_of_float64_of_int64 small64_def)
  moreover have "FormatInt (- 1) = ''-1''" by code_simp
  ultimately show ?thesis by simp
qed

text \<open>
  C20: what a volume is read as when the API returns the item of the resize payload as it was sent, for every
  volume that is sent with an id (a root disk without one is not) and of at most 2 to the 30 GiB:
  sizes and root flags come back, names and mount points trimmed, ids as \<open>wire_id\<close> says (so that
  007 comes back as 7), a new volume with the id -1, and no device path. Hence a volume comes back
  as it was, but for the device path, exactly when it has an id, its ids are canonical and its
  texts are trimmed.
\<close>

theorem resize_item_roundtrip:
  assumes "small64 (vol_SizeGiB v)" "sint (vol_SizeGiB v) \<le> 2 ^ 30"
    and "if vol_ID v = [] then \<not> vol_RootVolume v else TrimSpace (vol_ID v) \<noteq> []"
  shows "parseVolume (asMap (json_wire (resize_item v))) = Some (read_back v)
    \<and> (parseVolume (asMap (json_wire (resize_item v))) = Some (v\<lparr>vol_DevicePath := []\<rparr>)
        \<longleftrightarrow> sendable v)"
proof -
  have size: "storageSizeGiB (item_map v) = vol_SizeGiB v"
    using assms by (intro storageSizeGiB_item) auto
  have id: "wire_id (vol_ID v) \<noteq> []" if "vol_ID v \<noteq> []"
    using assms(3) that by (auto simp: wire_id_def split: prod.splits option.splits)
  have read: "parseVolume (item_map v) = Some (read_back v)"
    using assms(3) id
    by (auto simp: parseVolume_def Let_def any_get_def size stringValue_jsonID asMap_jsonID
        item_fields item_absent_keys read_back_def minus_one_text)
  moreover have "read_back v = v\<lparr>vol_DevicePath := []\<rparr> \<longleftrightarrow> sendable v"
    using assms(3) by (cases v) (auto simp: read_back_def sendable_def wire_id_eq_iff trimmed_iff)
  ultimately show ?thesis by simp
qed

theorem resize_item_roundtrip_witness:
  "parseVolume (asMap (json_wire (resize_item
       \<lparr>vol_ID = ''77'', vol_Name = ''pvc-1'', vol_SizeGiB = 10, vol_RootVolume = False,
        vol_StorageTypeID = ''38'', vol_DatastoreID = ''ds-2'', vol_ControllerMountPoint = ''0:1'',
        vol_DevicePath = ''/dev/sdb''\<rparr>))) =
   Some \<lparr>vol_ID = ''77'', vol_Name = ''pvc-1'', vol_SizeGiB = 10, vol_RootVolume = False,
        vol_StorageTypeID = ''38'', vol_DatastoreID = ''ds-2'', vol_ControllerMountPoint = ''0:1'',
        vol_DevicePath = []\<rparr>"
proof -
  let ?v = "\<lparr>vol_ID = ''77'', vol_Name = ''pvc-1'', vol_SizeGiB = 10, vol_RootVolume = False,
        vol_StorageTypeID = ''38'', vol_DatastoreID = ''ds-2'', vol_ControllerMountPoint = ''0:1'',
        vol_DevicePath = ''/dev/sdb''\<rparr>"
  have "sendable ?v" "TrimSpace ''77'' \<noteq> []" by code_simp+
  then have "parseVolume (asMap (json_wire (resize_item ?v))) = Some (?v\<lparr>vol_DevicePath := []\<rparr>)"
    using resize_item_roundtrip [of ?v, THEN conjunct2, THEN iffD2] by (simp add: small64_def)
  then show ?thesis by simp
qed

text \<open>Every odd number beyond 2 to the 53 is read as another id, since numbers are decoded to \<open>float64\<close>.\<close>

lemma odd_id_misread:
  assumes "odd (sint n)" and "2 ^ 53 \<le> \<bar>sint n\<bar>"
  shows "wire_id (FormatInt n) \<noteq> FormatInt n"
proof -
  let ?e = "bit_length (nat \<bar>sint n\<bar>) - 53"
  define i where "i = round_half_even (sint n) (2 ^ ?e) * 2 ^ ?e"
  have "2 ^ 53 \<le> nat \<bar>sint n\<bar>" using assms(2) by simp
  then have "0 < ?e" using bit_length_large [of 53 "nat \<bar>sint n\<bar>"] by simp
  then have "even i" by (simp add: i_def)
  moreover have "wire_int n = (if - (2 ^ 63) \<le> i \<and> i < 2 ^ 63 then word_of_int i
      else word_of_int (- (2 ^ 63)))"
    by (simp add: wire_int_def int64_of_float64_def trunc_float64_def float64_of_int64_def Let_def
        i_def)
  ultimately have "even (sint (wire_int n))"
    using sint_of_int64 [of i] sint_of_int64 [of "- (2 ^ 63)"] by (auto split: if_splits)
  with assms(1) have "wire_int n \<noteq> n" by auto
  then show ?thesis by (simp add: wire_id_def FormatInt_inject)
qed

section \<open>Sizes\<close>

lemma int_div_le: "0 \<le> (a :: int) \<Longrightarrow> 0 < b \<Longrightarrow> a div b \<le> a"
  by (metis div_by_1 int_one_le_iff_zero_less zdiv_mono2 zero_less_one)

text \<open>
  C22: without a field in GiB, a positive byte count of \<open>maxStorage\<close> above one GiB is rounded up to
  whole GiB, but one of at most a GiB is taken for a number of GiB.
\<close>

theorem storageSizeGiB_bytes:
  assumes gib: "map_of m ''sizeGiB'' = None" "map_of m ''sizeGB'' = None" "map_of m ''sizeGb'' = None"
    and bytes: "map_of m ''maxStorage'' = Some (AFloat (Float64 n 0))"
    and n: "0 < n" "n < 2 ^ 63 - 2 ^ 30"
  shows "sint (storageSizeGiB m) = (if n \<le> 2 ^ 30 then n else (n + (2 ^ 30 - 1)) div 2 ^ 30)"
proof -
  let ?bytes = "word_of_int n :: int64"
  have val: "int64Value (AFloat (Float64 n 0)) = ?bytes" "sint ?bytes = n"
    using n by (auto simp: int64_of_float64_def trunc_float64_def sint_of_int64)
  have "?bytes + bytesPerGiB - 1 = word_of_int (n + (2 ^ 30 - 1))"
    by (simp add: bytesPerGiB_def)
  then have sum: "sint (?bytes + bytesPerGiB - 1) = n + (2 ^ 30 - 1)"
    unfolding \<open>?bytes + bytesPerGiB - 1 = word_of_int (n + (2 ^ 30 - 1))\<close>
    using n by (intro sint_of_int64) auto
  have "(n + (2 ^ 30 - 1)) div 2 ^ 30 \<le> n + (2 ^ 30 - 1)" "0 \<le> (n + (2 ^ 30 - 1)) div 2 ^ 30"
    using n int_div_le by (auto simp: pos_imp_zdiv_nonneg_iff)
  then have "sint (quo64 (?bytes + bytesPerGiB - 1) bytesPerGiB) = (n + (2 ^ 30 - 1)) div 2 ^ 30"
    using n sum by (simp add: quo64_def bytesPerGiB_def sint_of_int64 signed_divide_int_def)
  then show ?thesis
    using val gib bytes by (simp add: storageSizeGiB_def Let_def bytesPerGiB_def)
qed

theorem storageSizeGiB_bytes_witness:
  "sint (storageSizeGiB [(''maxStorage'', AFloat (Float64 (2 ^ 30) 0))]) = 2 ^ 30
   \<and> sint (storageSizeGiB [(''maxStorage'', AFloat (Float64 (2 ^ 30 + 1) 0))]) = 2"
  using storageSizeGiB_bytes [of "[(''maxStorage'', AFloat (Float64 (2 ^ 30) 0))]" "2 ^ 30"]
    storageSizeGiB_bytes [of "[(''maxStorage'', AFloat (Float64 (2 ^ 30 + 1) 0))]" "2 ^ 30 + 1"]
  by simp

end
