(* ===== verification/Go_Filepath.thy ===== *)
theory Go_Filepath
  imports Go_Strings
begin

text \<open>
  The lexical functions of Go's \<open>path/filepath\<close> on Unix that the node code uses (\<open>Clean\<close>, \<open>Join\<close>,
  \<open>Base\<close>, \<open>Dir\<close>), and \<open>strings.Fields\<close>.
\<close>

section \<open>Paths\<close>

fun join_slash :: "string list \<Rightarrow> string" where
  "join_slash [] = []"
| "join_slash [x] = x"
| "join_slash (x # y # xs) = x @ ''/'' @ join_slash (y # xs)"

text \<open>\<open>acc\<close> holds the elements kept so far, the last one first.\<close>

fun clean_parts :: "bool \<Rightarrow> string list \<Rightarrow> string list \<Rightarrow> string list" where
  "clean_parts rooted acc [] = rev acc"
| "clean_parts rooted acc (p # ps) =
     (if p = [] \<or> p = ''.'' then clean_parts rooted acc ps
      else if p = ''..'' then
        (case acc of
           q # qs \<Rightarrow>
             if q = ''..'' then clean_parts rooted (p # acc) ps else clean_parts rooted qs ps
         | [] \<Rightarrow> if rooted then clean_parts rooted [] ps else clean_parts rooted [p] ps)
      else clean_parts rooted (p # acc) ps)"

definition Clean :: "string \<Rightarrow> string" where
  "Clean path =
     (let rooted = HasPrefix path ''/'';
          parts = clean_parts rooted [] (Split_on (CHR ''/'') path)
      in if rooted then ''/'' @ join_slash parts
         else if parts = [] then ''.'' else join_slash parts)"

definition Join :: "string list \<Rightarrow> string" where
  "Join elems =
     (case dropWhile (\<lambda>e. e = []) elems of [] \<Rightarrow> [] | es \<Rightarrow> Clean (join_slash es))"

definition Base :: "string \<Rightarrow> string" where
  "Base path =
     (if path = [] then ''.''
      else
        let stripped = TrimRight_slash path
        in if stripped = [] then ''/''
           else rev (takeWhile (\<lambda>c. c \<noteq> CHR ''/'') (rev stripped)))"

definition Dir :: "string \<Rightarrow> string" where
  "Dir path = Clean (rev (dropWhile (\<lambda>c. c \<noteq> CHR ''/'') (rev path)))"

section \<open>Fields\<close>

definition starts_with_space :: "string \<Rightarrow> bool" where
  "starts_with_space s \<longleftrightarrow> list_ex (\<lambda>e. prefix e s) space_encodings"

fun take_word :: "string \<Rightarrow> string \<times> string" where
  "take_word [] = ([], [])"
| "take_word (c # s) =
     (if starts_with_space (c # s) then ([], c # s)
      else case take_word s of (w, r) \<Rightarrow> (c # w, r))"

lemma length_take_word: "length (snd (take_word s)) \<le> length s"
  by (induction s) (auto split: prod.splits)

lemma length_strip_front: "length (strip_front es s) \<le> length s"
  by (intro suffix_length_le strip_front_suffix)

function Fields :: "string \<Rightarrow> string list" where
  "Fields s =
     (case strip_front space_encodings s of
        [] \<Rightarrow> []
      | c # t \<Rightarrow> (let (w, r) = take_word t in (c # w) # Fields r))"
  by pat_completeness auto
termination
proof (relation "measure length")
  fix s c t x w r
  assume "strip_front space_encodings s = c # t" "x = take_word t" "(w, r) = x"
  then show "(r, s) \<in> measure length"
    using length_take_word [of t] length_strip_front [of space_encodings s]
    by (auto dest: sym)
qed simp

declare Fields.simps [simp del]

end
