(* ===== verification/Sha256.thy ===== *)
theory Sha256
  imports "HOL-Library.Word"
begin

text \<open>
  SHA-256 (\<open>crypto/sha256\<close>) and lower case hexadecimal text (\<open>encoding/hex\<close>), from which the node
  code derives file names.
\<close>

unbundle bit_operations_syntax

text \<open>
  The constants are the first 32 bits of the fractional parts of the cube roots of the first 64
  primes and, to start with, of the square roots of the first eight. \<open>root_bits k n i r\<close> is the
  integer \<open>k\<close>-th root of \<open>n\<close>, its bits below \<open>i\<close> added to \<open>r\<close>.
\<close>

definition first_primes :: "nat list" where
  "first_primes = filter (\<lambda>p. list_all (\<lambda>d. p mod d \<noteq> 0) [2..<p]) [2..<312]"

fun root_bits :: "nat \<Rightarrow> nat \<Rightarrow> nat \<Rightarrow> nat \<Rightarrow> nat" where
  "root_bits k n 0 r = r"
| "root_bits k n (Suc i) r = root_bits k n i (if (r + 2 ^ i) ^ k \<le> n then r + 2 ^ i else r)"

definition root_fraction :: "nat \<Rightarrow> nat \<Rightarrow> 32 word" where
  "root_fraction k p = of_nat (root_bits k (p * 2 ^ (32 * k)) 37 0)"

definition sha_constants :: "32 word list" where
  "sha_constants = map (root_fraction 3) first_primes"

definition sha_initial :: "32 word list" where
  "sha_initial = map (root_fraction 2) (take 8 first_primes)"

definition rotr :: "nat \<Rightarrow> 32 word \<Rightarrow> 32 word" where
  "rotr n x = drop_bit n x OR push_bit (32 - n) x"

text \<open>The message schedule: \<open>extend\<close> adds the words from 16 on, the latest one first.\<close>

fun extend :: "nat \<Rightarrow> 32 word list \<Rightarrow> 32 word list" where
  "extend 0 ws = ws"
| "extend (Suc n) ws =
     (let a = ws ! 14; b = ws ! 1;
          s0 = xor (xor (rotr 7 a) (rotr 18 a)) (drop_bit 3 a);
          s1 = xor (xor (rotr 17 b) (rotr 19 b)) (drop_bit 10 b)
      in extend n ((ws ! 15 + s0 + ws ! 6 + s1) # ws))"

definition schedule :: "32 word list \<Rightarrow> 32 word list" where
  "schedule block = rev (extend 48 (rev block))"

definition sha_round :: "32 word \<times> 32 word \<Rightarrow> 32 word list \<Rightarrow> 32 word list" where
  "sha_round kw st =
     (let a = st ! 0; b = st ! 1; c = st ! 2; d = st ! 3; e = st ! 4; f = st ! 5; g = st ! 6; h = st ! 7;
          s1 = xor (xor (rotr 6 e) (rotr 11 e)) (rotr 25 e);
          ch = xor (e AND f) ((NOT e) AND g);
          t1 = h + s1 + ch + fst kw + snd kw;
          s0 = xor (xor (rotr 2 a) (rotr 13 a)) (rotr 22 a);
          maj = xor (xor (a AND b) (a AND c)) (b AND c);
          t2 = s0 + maj
      in [t1 + t2, a, b, c, d + t1, e, f, g])"

definition sha_block :: "32 word list \<Rightarrow> 32 word list \<Rightarrow> 32 word list" where
  "sha_block block st = map2 (+) st (fold sha_round (zip sha_constants (schedule block)) st)"

text \<open>Padding: a one bit, zeros, and the length in bits as eight bytes.\<close>

definition big_endian :: "nat \<Rightarrow> nat \<Rightarrow> nat list" where
  "big_endian k n = map (\<lambda>i. n div 256 ^ (k - 1 - i) mod 256) [0..<k]"

definition padded :: "nat list \<Rightarrow> nat list" where
  "padded bytes =
     (let l = length bytes
      in bytes @ [128] @ replicate ((119 - l mod 64) mod 64) 0 @ big_endian 8 (8 * l))"

fun words_of :: "nat list \<Rightarrow> 32 word list" where
  "words_of (a # b # c # d # rest) =
     of_nat (((a * 256 + b) * 256 + c) * 256 + d) # words_of rest"
| "words_of _ = []"

fun sha_blocks :: "nat \<Rightarrow> 32 word list \<Rightarrow> 32 word list \<Rightarrow> 32 word list" where
  "sha_blocks 0 ws st = st"
| "sha_blocks (Suc n) ws st = sha_blocks n (drop 16 ws) (sha_block (take 16 ws) st)"

definition Sum256 :: "string \<Rightarrow> nat list" where
  "Sum256 s =
     (let ws = words_of (padded (map of_char s))
      in concat (map (\<lambda>w. big_endian 4 (unat w)) (sha_blocks (length ws div 16) ws sha_initial)))"

definition EncodeToString :: "nat list \<Rightarrow> string" where
  "EncodeToString bytes =
     concat (map (\<lambda>b. [''0123456789abcdef'' ! (b div 16), ''0123456789abcdef'' ! (b mod 16)]) bytes)"

end
