(* ===== verification/Node_OS.thy ===== *)
theory Node_OS
  imports Go_Filepath Go_Strconv Sha256
begin

text \<open>
  What the node service asks of its operating system, and the errors of the mounter. Questions
  (reading files, resolving links) are functions of the world; commands, writes and waits
  change it and go to the trace.
\<close>

section \<open>The operating system\<close>

text \<open>A file system answer: found, \<open>os.ErrNotExist\<close>, or another error.\<close>

datatype 'a os_answer = Found 'a | NotExist | Failed

text \<open>A command that has succeeded or has ended with an error status (\<open>exec.ExitError\<close>), with
  its output, or that could not be run.\<close>

datatype exec_result = Done string | Exited string | NotStarted

text \<open>The gRPC services of the plugin, and why serving them has ended.\<close>

datatype csi_service = IdentityService | ControllerService | NodeService

datatype serve_end = ContextDone | ServerStopped | ServeFailed

record stagedDeviceMetadata =
  md_VolumeID :: string
  md_DevicePath :: string
  md_StagingPath :: string
  md_Timestamp :: string

text \<open>
  \<open>os_Glob\<close> gives the matches of a pattern, \<open>None\<close> for a malformed one; \<open>os_Marshal\<close> and
  \<open>os_Unmarshal\<close> are the JSON text of the staged device metadata; \<open>os_Sleep\<close> waits for the
  discovery interval, true when the context was done first; \<open>os_Listen\<close> opens a listener of a network
  at an address, and \<open>os_Serve\<close> answers RPCs on it until the context is done or serving ends.
\<close>

record 'w NodeOS =
  os_ReadFile :: "string \<Rightarrow> 'w \<Rightarrow> string os_answer"
  os_Stat :: "string \<Rightarrow> 'w \<Rightarrow> unit os_answer"
  os_ReadDir :: "string \<Rightarrow> 'w \<Rightarrow> (string \<times> bool) list option"
  os_Glob :: "string \<Rightarrow> 'w \<Rightarrow> string list option"
  os_EvalSymlinks :: "string \<Rightarrow> 'w \<Rightarrow> string option"
  os_LookPath :: "string \<Rightarrow> 'w \<Rightarrow> bool"
  os_Now :: "'w \<Rightarrow> string"
  os_Marshal :: "stagedDeviceMetadata \<Rightarrow> string"
  os_Unmarshal :: "string \<Rightarrow> stagedDeviceMetadata option"
  os_Exec :: "string list \<Rightarrow> 'w \<Rightarrow> exec_result \<times> 'w"
  os_WriteFile :: "string \<Rightarrow> string \<Rightarrow> 'w \<Rightarrow> bool \<times> 'w"
  os_MkdirAll :: "string \<Rightarrow> 'w \<Rightarrow> bool \<times> 'w"
  os_Remove :: "string \<Rightarrow> 'w \<Rightarrow> unit os_answer \<times> 'w"
  os_Rename :: "string \<Rightarrow> string \<Rightarrow> 'w \<Rightarrow> bool \<times> 'w"
  os_Sleep :: "'w \<Rightarrow> bool \<times> 'w"
  os_Listen :: "string \<Rightarrow> string \<Rightarrow> 'w \<Rightarrow> bool \<times> 'w"
  os_Serve :: "csi_service list \<Rightarrow> 'w \<Rightarrow> serve_end \<times> 'w"

datatype os_event =
    Ran "string list" exec_result
  | Wrote string string bool
  | MadeDir string bool
  | Removed string "unit os_answer"
  | Renamed string string bool
  | Slept bool
  | Listened string string bool
  | Served "csi_service list" serve_end

datatype mount_error =
    ECommand "string list"
  | EContext
  | EReadFile string
  | EReadDir string
  | EStat string
  | EWriteFile string
  | EMkdirAll string
  | ERemove string
  | ERename string string
  | EBadPattern
  | ENoScanTargets
  | EJoined "mount_error list"
  | EOperation string mount_error
  | ENoMountedSource string
  | EUnsupportedFilesystem string
  | EManyUnformatted "string list"
  | EManyFormatted "string list"
  | ENoDeviceOfSize int64
  | ENoDevice
  | EDevicePathRequired
  | ENonDevicePath string
  | EUnsafeBlockDevice string
  | EPartitionDevice string
  | EPartitionedDevice string
  | EMountedDevice string
  | EVolumeIDMissing
  | EStagingPathRequired
  | EMetadataJson
  | EMetadataMismatch string
  | EMetadataNoDevice

type_synonym 'w node_state = "('w, os_event) world"
type_synonym ('w, 'a) node_io = "('w node_state, mount_error, 'a) io"

section \<open>Primitives\<close>

definition ask :: "('w \<Rightarrow> 'a) \<Rightarrow> ('w, 'a) node_io" where
  "ask f = (\<lambda>s. (Inr (f (ext s)), s))"

definition exec_cmd :: "'w NodeOS \<Rightarrow> string list \<Rightarrow> ('w, exec_result) node_io" where
  "exec_cmd os cmd =
     (\<lambda>s. case os_Exec os cmd (ext s) of
            (r, w) \<Rightarrow> (Inr r, log_event (Ran cmd r) (s\<lparr>ext := w\<rparr>)))"

definition write_file :: "'w NodeOS \<Rightarrow> string \<Rightarrow> string \<Rightarrow> ('w, bool) node_io" where
  "write_file os path data =
     (\<lambda>s. case os_WriteFile os path data (ext s) of
            (ok, w) \<Rightarrow> (Inr ok, log_event (Wrote path data ok) (s\<lparr>ext := w\<rparr>)))"

definition make_dir :: "'w NodeOS \<Rightarrow> string \<Rightarrow> ('w, unit) node_io" where
  "make_dir os path =
     (\<lambda>s. case os_MkdirAll os path (ext s) of
            (ok, w) \<Rightarrow> (if ok then Inr () else Inl (EMkdirAll path),
                       log_event (MadeDir path ok) (s\<lparr>ext := w\<rparr>)))"

definition remove_file :: "'w NodeOS \<Rightarrow> string \<Rightarrow> ('w, unit os_answer) node_io" where
  "remove_file os path =
     (\<lambda>s. case os_Remove os path (ext s) of
            (r, w) \<Rightarrow> (Inr r, log_event (Removed path r) (s\<lparr>ext := w\<rparr>)))"

definition rename_file :: "'w NodeOS \<Rightarrow> string \<Rightarrow> string \<Rightarrow> ('w, unit) node_io" where
  "rename_file os old new =
     (\<lambda>s. case os_Rename os old new (ext s) of
            (ok, w) \<Rightarrow> (if ok then Inr () else Inl (ERename old new),
                       log_event (Renamed old new ok) (s\<lparr>ext := w\<rparr>)))"

definition sleepDiscoveryInterval :: "'w NodeOS \<Rightarrow> ('w, unit) node_io" where
  "sleepDiscoveryInterval os =
     (\<lambda>s. case os_Sleep os (ext s) of
            (d, w) \<Rightarrow> (if d then Inl EContext else Inr (), log_event (Slept d) (s\<lparr>ext := w\<rparr>)))"

section \<open>Commands (\<open>mount_exec.go\<close>)\<close>

definition run_cmd :: "'w NodeOS \<Rightarrow> string list \<Rightarrow> ('w, unit) node_io" where
  "run_cmd os cmd =
     bindE (exec_cmd os cmd) (\<lambda>r. case r of Done _ \<Rightarrow> retE () | _ \<Rightarrow> throwE (ECommand cmd))"

definition commandOutput :: "'w NodeOS \<Rightarrow> string list \<Rightarrow> ('w, string) node_io" where
  "commandOutput os cmd =
     bindE (exec_cmd os cmd)
       (\<lambda>r. case r of Done out \<Rightarrow> retE (TrimSpace out) | _ \<Rightarrow> throwE (ECommand cmd))"

definition hasFilesystem :: "'w NodeOS \<Rightarrow> string \<Rightarrow> ('w, bool) node_io" where
  \<comment> \<open>any error status of \<open>blkid\<close> counts as \<open>no file system\<close>\<close>
  "hasFilesystem os devicePath =
     bindE (exec_cmd os [''blkid'', ''-p'', devicePath])
       (\<lambda>r. case r of
              Done _ \<Rightarrow> retE True
            | Exited _ \<Rightarrow> retE False
            | NotStarted \<Rightarrow> throwE (ECommand [''blkid'', ''-p'', devicePath]))"

definition formatDevice :: "'w NodeOS \<Rightarrow> string \<Rightarrow> string \<Rightarrow> ('w, unit) node_io" where
  "formatDevice os devicePath fsType =
     (let fs = (if TrimSpace fsType = [] then ''ext4'' else TrimSpace fsType)
      in if fs = ''ext4'' then run_cmd os [''mkfs.ext4'', ''-F'', devicePath]
         else if fs = ''xfs'' then run_cmd os [''mkfs.xfs'', ''-f'', devicePath]
         else throwE (EUnsupportedFilesystem fs))"

definition mountedSource :: "'w NodeOS \<Rightarrow> string \<Rightarrow> ('w, string) node_io" where
  "mountedSource os volumePath =
     bindE (commandOutput os [''findmnt'', ''-n'', ''-o'', ''SOURCE'', ''--target'', volumePath])
       (\<lambda>source. if source = [] then throwE (ENoMountedSource volumePath) else retE source)"

section \<open>Roots and constants\<close>

definition sysBlockRoot :: string where "sysBlockRoot = ''/sys/block''"
definition devRoot :: string where "devRoot = ''/dev''"
definition devDiskByPathRoot :: string where "devDiskByPathRoot = ''/dev/disk/by-path''"
definition mountInfoPath :: string where "mountInfoPath = ''/proc/self/mountinfo''"
definition deviceDiscoveryAttempts :: nat where "deviceDiscoveryAttempts = 12"

lemmas root_defs = sysBlockRoot_def devRoot_def devDiskByPathRoot_def mountInfoPath_def

section \<open>Mount table\<close>

text \<open>\<open>None\<close> when the table cannot be read; a missing table is an empty one.\<close>

definition mount_lines :: "'w NodeOS \<Rightarrow> 'w \<Rightarrow> string list list option" where
  "mount_lines os w =
     (case os_ReadFile os mountInfoPath w of
        Found data \<Rightarrow> Some (map Fields (Split_on (CHR 0x0A) data))
      | NotExist \<Rightarrow> Some []
      | Failed \<Rightarrow> None)"

definition resolveDevicePath :: "'w NodeOS \<Rightarrow> 'w \<Rightarrow> string \<Rightarrow> string" where
  "resolveDevicePath os w path =
     (case os_EvalSymlinks os path w of Some resolved \<Rightarrow> resolved | None \<Rightarrow> Clean path)"

definition sameDevicePath :: "'w NodeOS \<Rightarrow> 'w \<Rightarrow> string \<Rightarrow> string \<Rightarrow> bool" where
  "sameDevicePath os w left right \<longleftrightarrow> resolveDevicePath os w left = resolveDevicePath os w right"

definition isDevicePartition :: "string \<Rightarrow> string \<Rightarrow> bool" where
  "isDevicePartition source devicePath \<longleftrightarrow>
     HasPrefix source devicePath \<and> length source \<noteq> length devicePath
   \<and> (let c = hd (TrimPrefix source devicePath) in c \<in> set ''0123456789'' \<or> c = CHR ''p'')"

definition mount_source :: "string list \<Rightarrow> string" where
  \<comment> \<open>the second last field\<close>
  "mount_source fs = fs ! (length fs - 2)"

definition isMounted :: "'w NodeOS \<Rightarrow> string \<Rightarrow> ('w, bool) node_io" where
  "isMounted os target =
     bindE (ask (mount_lines os)) (\<lambda>lines.
       case lines of
         None \<Rightarrow> throwE (EReadFile mountInfoPath)
       | Some entries \<Rightarrow>
           ask (\<lambda>w. list_ex (\<lambda>fs. 5 \<le> length fs \<and> fs ! 4 = resolveDevicePath os w target) entries))"

definition isMountedSource :: "'w NodeOS \<Rightarrow> string \<Rightarrow> ('w, bool) node_io" where
  "isMountedSource os source =
     bindE (ask (mount_lines os)) (\<lambda>lines.
       case lines of
         None \<Rightarrow> throwE (EReadFile mountInfoPath)
       | Some entries \<Rightarrow>
           ask (\<lambda>w. list_ex (\<lambda>fs. 10 \<le> length fs \<and> sameDevicePath os w (mount_source fs) source)
                  entries))"

definition isBlockDeviceMounted :: "'w NodeOS \<Rightarrow> string \<Rightarrow> ('w, bool) node_io" where
  "isBlockDeviceMounted os deviceName =
     bindE (ask (mount_lines os)) (\<lambda>lines.
       case lines of
         None \<Rightarrow> throwE (EReadFile mountInfoPath)
       | Some entries \<Rightarrow>
           ask (\<lambda>w. list_ex
                  (\<lambda>fs. 10 \<le> length fs \<and>
                     (let source = resolveDevicePath os w (mount_source fs);
                          devicePath = Join [devRoot, deviceName]
                      in sameDevicePath os w source devicePath \<or> isDevicePartition source devicePath))
                  entries))"

end
