(* ===== verification/Block_Devices.thy ===== *)
theory Block_Devices
  imports Node_OS Driver_Types "HOL-Library.Char_ord" "HOL-Library.List_Lexorder"
begin

text \<open>
  Block devices as the node code sees them (\<open>node.go\<close>): rescans, which devices are candidates for
  staging, which may be removed.
\<close>

section \<open>Rescans\<close>

definition join_errors :: "mount_error list \<Rightarrow> ('w, unit) node_io" where
  "join_errors errs = (if errs = [] then retE () else throwE (EJoined errs))"

definition settleUdev :: "'w NodeOS \<Rightarrow> ('w, unit) node_io" where
  "settleUdev os =
     bindE (ask (os_LookPath os ''udevadm''))
       (\<lambda>found. if found then run_cmd os [''udevadm'', ''settle''] else retE ())"

fun write_scans :: "'w NodeOS \<Rightarrow> string list \<Rightarrow> ('w, mount_error list) node_io" where
  "write_scans os [] = retE []"
| "write_scans os (path # paths) =
     bindE (write_file os path (''- - -'' @ [CHR 0x0A])) (\<lambda>ok.
     bindE (write_scans os paths) (\<lambda>errs.
       retE (if ok then errs else EOperation path (EWriteFile path) # errs)))"

definition scsi_scan_pattern :: string where
  "scsi_scan_pattern = ''/sys/class/scsi_host/host*/scan''"

definition rescanSCSIHosts :: "'w NodeOS \<Rightarrow> ('w, unit) node_io" where
  "rescanSCSIHosts os =
     bindE (ask (os_Glob os scsi_scan_pattern)) (\<lambda>matches.
       case matches of
         None \<Rightarrow> throwE EBadPattern
       | Some paths \<Rightarrow>
           if paths = [] then throwE ENoScanTargets
           else bindE (write_scans os paths) join_errors)"

definition rescanDevices :: "'w NodeOS \<Rightarrow> ('w, unit) node_io" where
  "rescanDevices os =
     tryE (rescanSCSIHosts os) (\<lambda>r1.
     tryE (settleUdev os) (\<lambda>r2.
       join_errors ((case r1 of Inl e \<Rightarrow> [e] | Inr _ \<Rightarrow> [])
         @ (case r2 of Inl e \<Rightarrow> [e] | Inr _ \<Rightarrow> []))))"

section \<open>Devices\<close>

definition skipBlockDevice :: "string \<Rightarrow> bool" where
  "skipBlockDevice name =
     list_ex (HasPrefix name) [''loop'', ''nbd'', ''ram'', ''zram'', ''dm-'', ''sr'', ''fd'']"

definition glob :: "'w NodeOS \<Rightarrow> 'w \<Rightarrow> string \<Rightarrow> string list" where
  \<comment> \<open>where the code ignores the error\<close>
  "glob os w pattern = (case os_Glob os pattern w of None \<Rightarrow> [] | Some paths \<Rightarrow> paths)"

definition hasPartitions :: "'w NodeOS \<Rightarrow> 'w \<Rightarrow> string \<Rightarrow> bool" where
  "hasPartitions os w name \<longleftrightarrow>
     list_ex (\<lambda>m. os_Stat os (Join [m, ''partition'']) w = Found ())
       (glob os w (Join [sysBlockRoot, name, name @ ''*'']))"

definition blockDeviceSizeGiB :: "'w NodeOS \<Rightarrow> 'w \<Rightarrow> string \<Rightarrow> int64 option" where
  "blockDeviceSizeGiB os w name =
     (case os_ReadFile os (Join [sysBlockRoot, name, ''size'']) w of
        Found data \<Rightarrow>
          (case ParseInt (TrimSpace data) of
             (sectors, None) \<Rightarrow> Some (quo64 (sectors * 512 + gibibyte - 1) gibibyte)
           | _ \<Rightarrow> None)
      | _ \<Rightarrow> None)"

definition stableDevicePath :: "'w NodeOS \<Rightarrow> 'w \<Rightarrow> string \<Rightarrow> string" where
  "stableDevicePath os w name =
     (let devicePath = Join [devRoot, name]
      in case find (\<lambda>m. os_EvalSymlinks os m w = Some devicePath)
                (glob os w (Join [devDiskByPathRoot, ''*''])) of
           Some m \<Rightarrow> m
         | None \<Rightarrow> devicePath)"

text \<open>The entries that are looked at: no skipped, partitioned or (given a size) other-sized device.\<close>

definition right_size :: "'w NodeOS \<Rightarrow> 'w \<Rightarrow> int64 \<Rightarrow> string \<Rightarrow> bool" where
  "right_size os w sizeGiB name \<longleftrightarrow>
     0 < sint sizeGiB \<longrightarrow> blockDeviceSizeGiB os w name = Some sizeGiB"

definition considered :: "'w NodeOS \<Rightarrow> 'w \<Rightarrow> int64 \<Rightarrow> string \<times> bool \<Rightarrow> bool" where
  "considered os w sizeGiB entry =
     (case entry of
        (name, isDir) \<Rightarrow>
          isDir \<and> \<not> skipBlockDevice name \<and> \<not> hasPartitions os w name \<and> right_size os w sizeGiB name)"

fun classify_entries ::
  "'w NodeOS \<Rightarrow> int64 \<Rightarrow> (string \<times> bool) list \<Rightarrow> ('w, string list \<times> string list) node_io" where
  "classify_entries os sizeGiB [] = retE ([], [])"
| "classify_entries os sizeGiB (entry # rest) =
     bindE (ask (\<lambda>w. considered os w sizeGiB entry)) (\<lambda>go.
       if \<not> go then classify_entries os sizeGiB rest
       else
         let path = Join [devRoot, fst entry] in
         bindE (isMountedSource os path) (\<lambda>mounted.
           if mounted then classify_entries os sizeGiB rest
           else
             bindE (hasFilesystem os path) (\<lambda>hasFS.
             bindE (ask (\<lambda>w. stableDevicePath os w (fst entry))) (\<lambda>stable.
             bindE (classify_entries os sizeGiB rest) (\<lambda>(unformatted, formatted).
               retE (if hasFS then (unformatted, stable # formatted)
                     else (stable # unformatted, formatted)))))))"

definition classifyBlockDevices ::
  "'w NodeOS \<Rightarrow> int64 \<Rightarrow> ('w, string list \<times> string list) node_io" where
  "classifyBlockDevices os sizeGiB =
     bindE (ask (os_ReadDir os sysBlockRoot)) (\<lambda>entries.
       case entries of
         None \<Rightarrow> throwE (EReadDir sysBlockRoot)
       | Some es \<Rightarrow>
           bindE (classify_entries os sizeGiB es) (\<lambda>(unformatted, formatted).
             retE (sort unformatted, sort formatted)))"

definition candidateBlockDevices :: "'w NodeOS \<Rightarrow> int64 \<Rightarrow> ('w, string list) node_io" where
  "candidateBlockDevices os sizeGiB =
     bindE (classifyBlockDevices os sizeGiB) (\<lambda>(unformatted, _). retE unformatted)"

section \<open>Devices that may be removed\<close>

definition removableBlockDeviceName :: "'w NodeOS \<Rightarrow> 'w \<Rightarrow> string \<Rightarrow> mount_error + string" where
  "removableBlockDeviceName os w path =
     (let devicePath = TrimSpace path in
      if devicePath = [] then Inl EDevicePathRequired
      else
        let resolved = resolveDevicePath os w devicePath;
            root = Clean devRoot;
            name = Base resolved
        in if resolved \<noteq> root \<and> \<not> HasPrefix resolved (root @ ''/'') then Inl (ENonDevicePath devicePath)
           else if name = ''.'' \<or> name = ''/'' \<or> skipBlockDevice name
           then Inl (EUnsafeBlockDevice name)
           else if os_Stat os (Join [sysBlockRoot, name, ''partition'']) w = Found ()
           then Inl (EPartitionDevice name)
           else if hasPartitions os w name then Inl (EPartitionedDevice name)
           else if os_Stat os (Join [sysBlockRoot, name, ''device'', ''delete'']) w = Failed
           then Inl (EStat (Join [sysBlockRoot, name, ''device'', ''delete'']))
           else Inr name)"

end
