(* ===== verification/Real_Mounter.thy ===== *)
theory Real_Mounter
  imports Block_Devices
begin

text \<open>
  The mounter (\<open>realMounter\<close> of \<open>node.go\<close>): staging, bind mounts, unmounting, resizing, discovery and
  removal of devices, and the files that remember which device was staged.
\<close>

section \<open>Waiting for devices\<close>

text \<open>
  Attempts are counted down; before each but the first the code waits and rescans. The loops run
  over \<open>attempt < deviceDiscoveryAttempts\<close>; a \<open>None\<close> for the last error is the nil it starts with.
\<close>

function waitForDevice_loop ::
  "'w NodeOS \<Rightarrow> string \<Rightarrow> nat \<Rightarrow> mount_error option \<Rightarrow> ('w, unit) node_io" where
  "waitForDevice_loop os devicePath attempt lastErr =
     (if attempt < deviceDiscoveryAttempts then
        bindE (if 0 < attempt
               then bindE (sleepDiscoveryInterval os) (\<lambda>_. tryE (rescanDevices os) (\<lambda>_. retE ()))
               else retE ())
          (\<lambda>_. bindE (ask (os_Stat os devicePath))
            (\<lambda>st. if st = Found () then retE ()
                  else waitForDevice_loop os devicePath (attempt + 1) (Some (EStat devicePath))))
      else case lastErr of None \<Rightarrow> retE () | Some e \<Rightarrow> throwE e)"
  by pat_completeness auto
termination
  by (relation "measure (\<lambda>(os, devicePath, attempt, lastErr). deviceDiscoveryAttempts - attempt)") auto

declare waitForDevice_loop.simps [simp del]

definition waitForDevice :: "'w NodeOS \<Rightarrow> string \<Rightarrow> ('w, unit) node_io" where
  "waitForDevice os devicePath = waitForDevice_loop os devicePath 0 None"

text \<open>What one attempt of the discovery makes of the candidates: a device, a refusal, or another try.\<close>

definition no_candidate :: "int64 \<Rightarrow> mount_error" where
  "no_candidate sizeGiB = (if 0 < sint sizeGiB then ENoDeviceOfSize sizeGiB else ENoDevice)"

definition choose_device ::
  "int64 \<Rightarrow> string list \<Rightarrow> string list \<Rightarrow> (mount_error + string) option" where
  "choose_device sizeGiB unformatted formatted =
     (case unformatted of
        [d] \<Rightarrow> Some (Inr d)
      | _ # _ # _ \<Rightarrow> Some (Inl (EManyUnformatted unformatted))
      | [] \<Rightarrow>
          if 0 < sint sizeGiB then
            (case formatted of
               [d] \<Rightarrow> Some (Inr d)
             | _ # _ # _ \<Rightarrow> Some (Inl (EManyFormatted formatted))
             | [] \<Rightarrow> None)
          else None)"

function DiscoverDevicePath_loop ::
  "'w NodeOS \<Rightarrow> int64 \<Rightarrow> nat \<Rightarrow> mount_error option \<Rightarrow> ('w, string) node_io" where
  "DiscoverDevicePath_loop os sizeGiB attempt lastErr =
     (if attempt < deviceDiscoveryAttempts then
        bindE (if 0 < attempt
               then bindE (sleepDiscoveryInterval os) (\<lambda>_. tryE (rescanDevices os) retE)
               else retE (Inr ()))
          (\<lambda>rescanned.
             case rescanned of
               Inl e \<Rightarrow> DiscoverDevicePath_loop os sizeGiB (attempt + 1) (Some e)
             | Inr _ \<Rightarrow>
                 tryE (classifyBlockDevices os sizeGiB)
                   (\<lambda>r. case r of
                          Inl e \<Rightarrow> DiscoverDevicePath_loop os sizeGiB (attempt + 1) (Some e)
                        | Inr (unformatted, formatted) \<Rightarrow>
                            (case choose_device sizeGiB unformatted formatted of
                               Some (Inr d) \<Rightarrow> retE d
                             | Some (Inl e) \<Rightarrow> throwE e
                             | None \<Rightarrow>
                                 DiscoverDevicePath_loop os sizeGiB (attempt + 1)
                                   (Some (no_candidate sizeGiB)))))
      else case lastErr of None \<Rightarrow> retE [] | Some e \<Rightarrow> throwE e)"
  by pat_completeness auto
termination
  by (relation "measure (\<lambda>(os, sizeGiB, attempt, lastErr). deviceDiscoveryAttempts - attempt)") auto

declare DiscoverDevicePath_loop.simps [simp del]

definition Mounter_DiscoverDevicePath :: "'w NodeOS \<Rightarrow> int64 \<Rightarrow> ('w, string) node_io" where
  "Mounter_DiscoverDevicePath os sizeGiB = DiscoverDevicePath_loop os sizeGiB 0 None"

section \<open>Mounting\<close>

text \<open>\<open>fmtMountError\<close>.\<close>

definition in_operation :: "string \<Rightarrow> ('w, 'a) node_io \<Rightarrow> ('w, 'a) node_io" where
  "in_operation operation m = wrap_error (EOperation operation) m"

definition Mounter_Stage ::
  "'w NodeOS \<Rightarrow> string \<Rightarrow> string \<Rightarrow> string \<Rightarrow> bool \<Rightarrow> ('w, unit) node_io" where
  "Mounter_Stage os devicePath stagingPath fsType readOnly =
     bindE (in_operation ''find attached device'' (waitForDevice os devicePath)) (\<lambda>_.
     bindE (make_dir os stagingPath) (\<lambda>_.
     bindE (isMounted os stagingPath) (\<lambda>mounted.
       if mounted then retE ()
       else
         bindE (if readOnly then retE ()
                else
                  bindE (hasFilesystem os devicePath) (\<lambda>formatted.
                    if formatted then retE () else formatDevice os devicePath fsType)) (\<lambda>_.
           run_cmd os ([''mount''] @ (if readOnly then [''-o'', ''ro''] else [])
             @ [devicePath, stagingPath])))))"

definition Mounter_BindMount ::
  "'w NodeOS \<Rightarrow> string \<Rightarrow> string \<Rightarrow> bool \<Rightarrow> ('w, unit) node_io" where
  "Mounter_BindMount os source target readOnly =
     bindE (make_dir os target) (\<lambda>_.
     bindE (isMounted os target) (\<lambda>mounted.
       if mounted then retE ()
       else
         bindE (run_cmd os [''mount'', ''--bind'', source, target]) (\<lambda>_.
           if readOnly then run_cmd os [''mount'', ''-o'', ''remount,bind,ro'', target]
           else retE ())))"

definition Mounter_Unmount :: "'w NodeOS \<Rightarrow> string \<Rightarrow> ('w, unit) node_io" where
  "Mounter_Unmount os target =
     bindE (isMounted os target) (\<lambda>mounted.
     bindE (if mounted then run_cmd os [''umount'', target] else retE ()) (\<lambda>_.
     bindE (remove_file os target) (\<lambda>_. retE ())))"

definition Mounter_ExpandFilesystem :: "'w NodeOS \<Rightarrow> string \<Rightarrow> string \<Rightarrow> ('w, unit) node_io" where
  "Mounter_ExpandFilesystem os volumePath fsType =
     (if TrimSpace fsType = [] \<or> TrimSpace fsType = ''ext4'' then
        bindE (mountedSource os volumePath) (\<lambda>source. run_cmd os [''resize2fs'', source])
      else if TrimSpace fsType = ''xfs'' then run_cmd os [''xfs_growfs'', volumePath]
      else throwE (EOperation ''expand filesystem'' (EUnsupportedFilesystem fsType)))"

section \<open>Removing devices\<close>

definition Mounter_RemoveDevice :: "'w NodeOS \<Rightarrow> string \<Rightarrow> ('w, unit) node_io" where
  "Mounter_RemoveDevice os path =
     bindE (bindE (ask (\<lambda>w. removableBlockDeviceName os w path)) liftE) (\<lambda>deviceName.
     bindE (isBlockDeviceMounted os deviceName) (\<lambda>mounted.
       if mounted then throwE (EMountedDevice deviceName)
       else
         let deletePath = Join [sysBlockRoot, deviceName, ''device'', ''delete''] in
         bindE (ask (os_Stat os deletePath)) (\<lambda>st.
           case st of
             NotExist \<Rightarrow> retE ()
           | Failed \<Rightarrow> throwE (EStat deletePath)
           | Found _ \<Rightarrow>
               bindE (write_file os deletePath (''1'' @ [CHR 0x0A])) (\<lambda>ok.
                 if ok then settleUdev os
                 else throwE (EOperation deletePath (EWriteFile deletePath))))))"

section \<open>Metadata of staged devices\<close>

record realMounter =
  rm_kubeletRootPath :: string
  rm_driverName :: string

definition newRealMounter :: "string \<Rightarrow> string \<Rightarrow> realMounter" where
  "newRealMounter kubeletRootPath driverName =
     \<lparr>rm_kubeletRootPath = kubeletRootPath, rm_driverName = driverName\<rparr>"

text \<open>
  The length of the UTF-8 sequence a string starts with, 1 for a byte that starts none: \<open>range\<close>
  over a string goes over these.
\<close>

definition byte_in :: "nat \<Rightarrow> nat \<Rightarrow> char \<Rightarrow> bool" where
  "byte_in lo hi c \<longleftrightarrow> lo \<le> (of_char c :: nat) \<and> (of_char c :: nat) \<le> hi"

definition continuation :: "char \<Rightarrow> bool" where
  "continuation = byte_in 0x80 0xBF"

definition second_byte_ok :: "char \<Rightarrow> char \<Rightarrow> bool" where
  "second_byte_ok a b =
     (if a = CHR 0xE0 then byte_in 0xA0 0xBF b
      else if a = CHR 0xED then byte_in 0x80 0x9F b
      else if a = CHR 0xF0 then byte_in 0x90 0xBF b
      else if a = CHR 0xF4 then byte_in 0x80 0x8F b
      else continuation b)"

fun rune_length :: "string \<Rightarrow> nat" where
  "rune_length (a # b # c # d # s) =
     (if byte_in 0xC2 0xDF a \<and> continuation b then 2
      else if byte_in 0xE0 0xEF a \<and> second_byte_ok a b \<and> continuation c then 3
      else if byte_in 0xF0 0xF4 a \<and> second_byte_ok a b \<and> continuation c \<and> continuation d then 4
      else 1)"
| "rune_length (a # b # c # []) =
     (if byte_in 0xC2 0xDF a \<and> continuation b then 2
      else if byte_in 0xE0 0xEF a \<and> second_byte_ok a b \<and> continuation c then 3
      else 1)"
| "rune_length (a # b # []) = (if byte_in 0xC2 0xDF a \<and> continuation b then 2 else 1)"
| "rune_length s = 1"

lemma rune_length_pos: "0 < rune_length s"
  by (induction s rule: rune_length.induct) auto

function runes :: "string \<Rightarrow> string list" where
  "runes s = (if s = [] then [] else take (rune_length s) s # runes (drop (rune_length s) s))"
  by pat_completeness auto
termination
  by (relation "measure length") (auto simp: rune_length_pos)

declare runes.simps [simp del]

definition safe_rune :: "string \<Rightarrow> string" where
  "safe_rune r = (if length r = 1 \<and> set r \<subseteq> set (alphanumeric @ ''._-'') then r else ''_'')"

definition safeVolumeMetadataName :: "string \<Rightarrow> string" where
  "safeVolumeMetadataName volumeID =
     (let trimmed = TrimSpace volumeID;
          built = concat (map safe_rune (runes trimmed))
      in (if built = [] then ''volume'' else built)
         @ ''-'' @ take 12 (EncodeToString (Sum256 trimmed)))"

definition stagedDeviceMetadataDir :: "realMounter \<Rightarrow> string" where
  "stagedDeviceMetadataDir m =
     (let root = TrimSpace (rm_kubeletRootPath m); name = TrimSpace (rm_driverName m)
      in Join [if root = [] then ''/var/lib/kubelet'' else root, ''plugins'',
               if name = [] then ''csi.morpheusdata.com'' else name, ''volumes''])"

definition stagedDeviceMetadataPath :: "realMounter \<Rightarrow> string \<Rightarrow> string" where
  "stagedDeviceMetadataPath m volumeID =
     Join [stagedDeviceMetadataDir m, safeVolumeMetadataName volumeID @ ''.json'']"

definition Mounter_RecordStagedDevice ::
  "'w NodeOS \<Rightarrow> realMounter \<Rightarrow> string \<Rightarrow> string \<Rightarrow> string \<Rightarrow> ('w, unit) node_io" where
  "Mounter_RecordStagedDevice os m volumeID devicePath stagingPath =
     bindE (ask (os_Now os)) (\<lambda>now.
       let metadata = \<lparr>md_VolumeID = TrimSpace volumeID, md_DevicePath = TrimSpace devicePath,
                       md_StagingPath = TrimSpace stagingPath, md_Timestamp = now\<rparr>;
           path = stagedDeviceMetadataPath m volumeID;
           tmpPath = path @ ''.tmp''
       in if md_VolumeID metadata = [] then throwE EVolumeIDMissing
          else if md_DevicePath metadata = [] then throwE EDevicePathRequired
          else if md_StagingPath metadata = [] then throwE EStagingPathRequired
          else
            bindE (make_dir os (stagedDeviceMetadataDir m)) (\<lambda>_.
            bindE (write_file os tmpPath (os_Marshal os metadata @ [CHR 0x0A])) (\<lambda>ok.
              if ok then rename_file os tmpPath path else throwE (EWriteFile tmpPath))))"

definition Mounter_StagedDevicePath ::
  "'w NodeOS \<Rightarrow> realMounter \<Rightarrow> string \<Rightarrow> ('w, string) node_io" where
  "Mounter_StagedDevicePath os m volumeID =
     (let path = stagedDeviceMetadataPath m volumeID in
      bindE (ask (os_ReadFile os path)) (\<lambda>r.
        case r of
          Found data \<Rightarrow>
            (case os_Unmarshal os data of
               None \<Rightarrow> throwE EMetadataJson
             | Some metadata \<Rightarrow>
                 if md_VolumeID metadata \<noteq> TrimSpace volumeID
                 then throwE (EMetadataMismatch (md_VolumeID metadata))
                 else if TrimSpace (md_DevicePath metadata) = [] then throwE EMetadataNoDevice
                 else retE (TrimSpace (md_DevicePath metadata)))
        | _ \<Rightarrow> throwE (EReadFile path)))"

definition Mounter_ForgetStagedDevice ::
  "'w NodeOS \<Rightarrow> realMounter \<Rightarrow> string \<Rightarrow> ('w, unit) node_io" where
  "Mounter_ForgetStagedDevice os m volumeID =
     (let path = stagedDeviceMetadataPath m volumeID in
      bindE (remove_file os path) (\<lambda>r. if r = Failed then throwE (ERemove path) else retE ()))"

section \<open>The mounter as an interface value\<close>

definition real_mounter ::
  "'w NodeOS \<Rightarrow> realMounter \<Rightarrow> ('w node_state, mount_error) Mounter" where
  "real_mounter os m =
     \<lparr>mt_Stage = Mounter_Stage os, mt_BindMount = Mounter_BindMount os,
      mt_MountedSource = mountedSource os, mt_Unmount = Mounter_Unmount os,
      mt_ExpandFilesystem = Mounter_ExpandFilesystem os, mt_RescanDevices = rescanDevices os,
      mt_DiscoverDevicePath = Mounter_DiscoverDevicePath os,
      mt_RemoveDevice = Mounter_RemoveDevice os,
      mt_RecordStagedDevice = Mounter_RecordStagedDevice os m,
      mt_StagedDevicePath = Mounter_StagedDevicePath os m,
      mt_ForgetStagedDevice = Mounter_ForgetStagedDevice os m\<rparr>"

end
