(* ===== verification/Node_Traces.thy ===== *)
theory Node_Traces
  imports Real_Mounter
begin

text \<open>
  What each operation of the mounter does to its node, as relations between the trace of its
  commands and its result; every run of the operation is in its relation.
\<close>

section \<open>Primitives\<close>

lemma ask_apply [simp]: "ask f s = (Inr (f (ext s)), s)"
  by (simp add: ask_def)

lemma exec_cmd_cases:
  assumes "exec_cmd os cmd s = (r, s')"
  obtains x where "trace s' = trace s @ [Ran cmd x]" "r = Inr x"
  using assms that by (auto simp: exec_cmd_def split: prod.splits)

lemma write_file_cases:
  assumes "write_file os path data s = (r, s')"
  obtains ok where "trace s' = trace s @ [Wrote path data ok]" "r = Inr ok"
  using assms that by (auto simp: write_file_def split: prod.splits)

lemma make_dir_cases:
  assumes "make_dir os path s = (r, s')"
  obtains ok where "trace s' = trace s @ [MadeDir path ok]"
    "r = (if ok then Inr () else Inl (EMkdirAll path))"
  using assms that by (auto simp: make_dir_def split: prod.splits)

lemma remove_file_cases:
  assumes "remove_file os path s = (r, s')"
  obtains x where "trace s' = trace s @ [Removed path x]" "r = Inr x"
  using assms that by (auto simp: remove_file_def split: prod.splits)

lemma rename_file_cases:
  assumes "rename_file os old new s = (r, s')"
  obtains ok where "trace s' = trace s @ [Renamed old new ok]"
    "r = (if ok then Inr () else Inl (ERename old new))"
  using assms that by (auto simp: rename_file_def split: prod.splits)

lemma sleep_cases:
  assumes "sleepDiscoveryInterval os s = (r, s')"
  obtains d where "trace s' = trace s @ [Slept d]" "r = (if d then Inl EContext else Inr ())"
  using assms that by (auto simp: sleepDiscoveryInterval_def split: prod.splits)

fun is_done :: "exec_result \<Rightarrow> bool" where
  "is_done (Done out) \<longleftrightarrow> True"
| "is_done _ \<longleftrightarrow> False"

abbreviation ran :: "string list \<Rightarrow> exec_result \<Rightarrow> mount_error + unit" where
  "ran cmd x \<equiv> if is_done x then Inr () else Inl (ECommand cmd)"

lemma run_cmd_cases:
  assumes "run_cmd os cmd s = (r, s')"
  obtains x where "trace s' = trace s @ [Ran cmd x]" "r = ran cmd x"
proof (rule bindE_cases [OF assms [unfolded run_cmd_def]])
  fix x t
  assume "exec_cmd os cmd s = (Inr x, t)"
    and rest: "(case x of Done _ \<Rightarrow> retE () | _ \<Rightarrow> throwE (ECommand cmd)) t = (r, s')"
  then have "trace t = trace s @ [Ran cmd x]" by (auto elim: exec_cmd_cases)
  with rest that show thesis by (cases x) auto
qed (auto elim: exec_cmd_cases)

lemma commandOutput_cases:
  assumes "commandOutput os cmd s = (r, s')"
  obtains x where "trace s' = trace s @ [Ran cmd x]"
    "r = (case x of Done out \<Rightarrow> Inr (TrimSpace out) | _ \<Rightarrow> Inl (ECommand cmd))"
proof (rule bindE_cases [OF assms [unfolded commandOutput_def]])
  fix x t
  assume "exec_cmd os cmd s = (Inr x, t)"
    and rest: "(case x of Done out \<Rightarrow> retE (TrimSpace out) | _ \<Rightarrow> throwE (ECommand cmd)) t = (r, s')"
  then have "trace t = trace s @ [Ran cmd x]" by (auto elim: exec_cmd_cases)
  with rest that show thesis by (cases x) auto
qed (auto elim: exec_cmd_cases)

abbreviation blkid :: "string \<Rightarrow> string list" where
  "blkid devicePath \<equiv> [''blkid'', ''-p'', devicePath]"

lemma hasFilesystem_cases:
  assumes "hasFilesystem os dev s = (r, s')"
  obtains (formatted) out where "trace s' = trace s @ [Ran (blkid dev) (Done out)]" "r = Inr True"
  | (blank) out where "trace s' = trace s @ [Ran (blkid dev) (Exited out)]" "r = Inr False"
  | (fails) "trace s' = trace s @ [Ran (blkid dev) NotStarted]" "r = Inl (ECommand (blkid dev))"
proof (rule bindE_cases [OF assms [unfolded hasFilesystem_def]])
  fix x t
  assume "exec_cmd os (blkid dev) s = (Inr x, t)"
    and rest: "(case x of Done _ \<Rightarrow> retE True | Exited _ \<Rightarrow> retE False
      | NotStarted \<Rightarrow> throwE (ECommand (blkid dev))) t = (r, s')"
  then have "trace t = trace s @ [Ran (blkid dev) x]" by (auto elim: exec_cmd_cases)
  with rest that show thesis by (cases x) auto
qed (auto elim: exec_cmd_cases)

text \<open>The command that formats, when the file system is supported.\<close>

definition mkfs_command :: "string \<Rightarrow> string \<Rightarrow> string list option" where
  "mkfs_command fsType devicePath =
     (if TrimSpace fsType = [] \<or> TrimSpace fsType = ''ext4'' then Some [''mkfs.ext4'', ''-F'', devicePath]
      else if TrimSpace fsType = ''xfs'' then Some [''mkfs.xfs'', ''-f'', devicePath]
      else None)"

lemma formatDevice_eq:
  "formatDevice os dev fs =
     (case mkfs_command fs dev of
        Some cmd \<Rightarrow> run_cmd os cmd
      | None \<Rightarrow> throwE (EUnsupportedFilesystem (TrimSpace fs)))"
  by (simp add: formatDevice_def mkfs_command_def Let_def)

text \<open>The mount table is only read.\<close>

lemma mount_table_cases:
  assumes "bindE (ask (mount_lines os))
      (\<lambda>lines. case lines of None \<Rightarrow> throwE (EReadFile mountInfoPath) | Some es \<Rightarrow> ask (f es)) s = (r, s')"
  shows "s' = s \<and> (r = Inl (EReadFile mountInfoPath) \<or> isl r = False)"
  using assms by (cases "mount_lines os (ext s)") auto

lemma isMounted_state:
  assumes "isMounted os target s = (r, s')"
  shows "s' = s" "r = Inl e \<Longrightarrow> e = EReadFile mountInfoPath"
  using mount_table_cases [OF assms [unfolded isMounted_def]] by auto

lemma isMountedSource_state:
  assumes "isMountedSource os source s = (r, s')"
  shows "s' = s" "r = Inl e \<Longrightarrow> e = EReadFile mountInfoPath"
  using mount_table_cases [OF assms [unfolded isMountedSource_def]] by auto

lemma isBlockDeviceMounted_state:
  assumes "isBlockDeviceMounted os name s = (r, s')"
  shows "s' = s" "r = Inl e \<Longrightarrow> e = EReadFile mountInfoPath"
  using mount_table_cases [OF assms [unfolded isBlockDeviceMounted_def]] by auto

end
