(* ===== verification/Mounter_Steps.thy ===== *)
theory Mounter_Steps
  imports Node_Traces
begin

text \<open>
  Staging, unmounting, removing and recording as step relations: a relation lists the traces the
  operation may leave, each with the result it then has; the lemmas \<open>_steps\<close> show that
  every run is listed, whatever the operating system answers.
\<close>

section \<open>Rescans and waiting\<close>

text \<open>What a rescan or a wait between attempts may do.\<close>

fun waiting :: "os_event \<Rightarrow> bool" where
  "waiting (Slept d) \<longleftrightarrow> True"
| "waiting (Wrote path data ok) \<longleftrightarrow> data = ''- - -'' @ [CHR 0x0A]"
| "waiting (Ran cmd x) \<longleftrightarrow> cmd = [''udevadm'', ''settle'']"
| "waiting _ \<longleftrightarrow> False"

lemma emits_ask [emits_intros]: "emits P (ask f)"
  by (simp add: emits_def)

lemma emits_exec [emits_intros]: "(\<And>x. P (Ran cmd x)) \<Longrightarrow> emits P (exec_cmd os cmd)"
  by (rule emitsI) (auto elim!: exec_cmd_cases)

lemma emits_run_cmd [emits_intros]: "(\<And>x. P (Ran cmd x)) \<Longrightarrow> emits P (run_cmd os cmd)"
  by (rule emitsI) (auto elim!: run_cmd_cases)

lemma emits_write_file [emits_intros]: "(\<And>ok. P (Wrote path data ok)) \<Longrightarrow> emits P (write_file os path data)"
  by (rule emitsI) (auto elim!: write_file_cases)

lemma emits_sleep [emits_intros]: "(\<And>d. P (Slept d)) \<Longrightarrow> emits P (sleepDiscoveryInterval os)"
  by (rule emitsI) (auto elim!: sleep_cases)

lemma emits_settleUdev [emits_intros]: "emits waiting (settleUdev os)"
  unfolding settleUdev_def by (auto intro!: emits_intros)

lemma emits_join_errors [emits_intros]: "emits P (join_errors errs)"
  by (simp add: join_errors_def)

lemma emits_write_scans [emits_intros]: "emits waiting (write_scans os paths)"
  by (induction paths) (auto intro!: emits_intros)

lemma emits_rescanSCSIHosts [emits_intros]: "emits waiting (rescanSCSIHosts os)"
  unfolding rescanSCSIHosts_def by (auto intro!: emits_intros split: option.split)

lemma emits_rescanDevices [emits_intros]: "emits waiting (rescanDevices os)"
  unfolding rescanDevices_def by (auto intro!: emits_intros)

lemma emits_waitForDevice_loop: "emits waiting (waitForDevice_loop os dev attempt lastErr)"
proof (induction os dev attempt lastErr rule: waitForDevice_loop.induct)
  case (1 os dev attempt lastErr)
  then show ?case
    unfolding waitForDevice_loop.simps [of os dev attempt lastErr]
    by (auto intro!: emits_intros simp del: bindE_retE split: option.split)
qed

lemma emits_waitForDevice [emits_intros]: "emits waiting (waitForDevice os dev)"
  unfolding waitForDevice_def by (rule emits_waitForDevice_loop)

section \<open>Staging\<close>

definition mount_command :: "bool \<Rightarrow> string \<Rightarrow> string \<Rightarrow> string list" where
  "mount_command readOnly devicePath stagingPath =
     [''mount''] @ (if readOnly then [''-o'', ''ro''] else []) @ [devicePath, stagingPath]"

text \<open>Staging a device that has been found; \<open>mounted\<close> is what the mount table says of the path.\<close>

inductive stage_steps ::
  "string \<Rightarrow> string \<Rightarrow> string \<Rightarrow> bool \<Rightarrow> (mount_error + bool) \<Rightarrow> os_event list \<Rightarrow> mount_error + unit \<Rightarrow> bool"
  for dev path fs ro where
  table_unreadable: "stage_steps dev path fs ro (Inl e) [] (Inl e)"
| already: "stage_steps dev path fs ro (Inr True) [] (Inr ())"
| read_only: "ro \<Longrightarrow>
    stage_steps dev path fs ro (Inr False) [Ran (mount_command ro dev path) x] (ran (mount_command ro dev path) x)"
| no_blkid: "\<not> ro \<Longrightarrow>
    stage_steps dev path fs ro (Inr False) [Ran (blkid dev) NotStarted] (Inl (ECommand (blkid dev)))"
| formatted: "\<not> ro \<Longrightarrow>
    stage_steps dev path fs ro (Inr False)
      [Ran (blkid dev) (Done out), Ran (mount_command ro dev path) x] (ran (mount_command ro dev path) x)"
| unsupported: "\<not> ro \<Longrightarrow> mkfs_command fs dev = None \<Longrightarrow>
    stage_steps dev path fs ro (Inr False)
      [Ran (blkid dev) (Exited out)] (Inl (EUnsupportedFilesystem (TrimSpace fs)))"
| mkfs_fails: "\<not> ro \<Longrightarrow> mkfs_command fs dev = Some cmd \<Longrightarrow> \<not> is_done x \<Longrightarrow>
    stage_steps dev path fs ro (Inr False)
      [Ran (blkid dev) (Exited out), Ran cmd x] (Inl (ECommand cmd))"
| blank: "\<not> ro \<Longrightarrow> mkfs_command fs dev = Some cmd \<Longrightarrow> is_done x \<Longrightarrow>
    stage_steps dev path fs ro (Inr False)
      [Ran (blkid dev) (Exited out), Ran cmd x, Ran (mount_command ro dev path) y]
      (ran (mount_command ro dev path) y)"

lemma prepare_device_cases:
  assumes "bindE (if ro then retE () else bindE (hasFilesystem os dev)
      (\<lambda>formatted. if formatted then retE () else formatDevice os dev fs)) m s = (r, s')"
    and m: "\<And>t r s'. m () t = (r, s') \<Longrightarrow>
      \<exists>x. trace s' = trace t @ [Ran (mount_command ro dev path) x] \<and> r = ran (mount_command ro dev path) x"
  obtains evs where "trace s' = trace s @ evs" "stage_steps dev path fs ro (Inr False) evs r"
proof (cases ro)
  case True
  with assms obtain x where "trace s' = trace s @ [Ran (mount_command ro dev path) x]"
    "r = ran (mount_command ro dev path) x" by force
  with that stage_steps.read_only True show thesis by metis
next
  case ro: False
  let ?prep = "bindE (hasFilesystem os dev)
      (\<lambda>formatted. if formatted then retE () else formatDevice os dev fs)"
  from assms(1) ro have "bindE ?prep m s = (r, s')" by simp
  then show thesis
  proof (cases rule: bindE_cases)
    case (fails e)
    from fails(1) show thesis
    proof (cases rule: bindE_cases)
      case (fails e')
      then show thesis
        using that stage_steps.no_blkid ro \<open>r = Inl e\<close> by (auto elim!: hasFilesystem_cases)
    next
      case (goes_on b t)
      then obtain out where blank: "trace t = trace s @ [Ran (blkid dev) (Exited out)]" "b = False"
        by (auto elim!: hasFilesystem_cases)
      show thesis
      proof (cases "mkfs_command fs dev")
        case None
        with goes_on blank that stage_steps.unsupported [OF ro None] \<open>r = Inl e\<close> show thesis
          by (auto simp: formatDevice_eq)
      next
        case (Some cmd)
        with goes_on(2) blank obtain x where "trace s' = trace t @ [Ran cmd x]" "Inl e = ran cmd x"
          by (auto simp: formatDevice_eq elim!: run_cmd_cases)
        with blank that stage_steps.mkfs_fails [OF ro Some] \<open>r = Inl e\<close> show thesis
          by (auto split: if_splits)
      qed
    qed
  next
    case (goes_on u t)
    then obtain y where y: "trace s' = trace t @ [Ran (mount_command ro dev path) y]"
      "r = ran (mount_command ro dev path) y" using m by (metis (full_types) old.unit.exhaust)
    from goes_on(1) obtain b v where b: "hasFilesystem os dev s = (Inr b, v)"
      and rest: "(if b then retE () else formatDevice os dev fs) v = (Inr u, t)"
      by (rule bindE_Inr_cases)
    from b show thesis
    proof (cases rule: hasFilesystem_cases)
      case (formatted out)
      with rest y that stage_steps.formatted [OF ro] show thesis by auto
    next
      case (blank out)
      show thesis
      proof (cases "mkfs_command fs dev")
        case (Some cmd)
        with rest blank obtain x where "trace t = trace v @ [Ran cmd x]" "is_done x"
          by (auto simp: formatDevice_eq elim!: run_cmd_cases split: if_splits)
        with blank y that stage_steps.blank [OF ro Some] show thesis by auto
      qed (use rest blank in \<open>simp add: formatDevice_eq\<close>)
    qed simp
  qed
qed

text \<open>The whole of \<open>Stage\<close>: waiting, the directory, the steps.\<close>

lemma Mounter_Stage_steps:
  assumes run: "Mounter_Stage os dev path fs ro s = (r, s')"
  obtains (lost) waits e where "trace s' = trace s @ waits" "\<forall>ev \<in> set waits. waiting ev"
      "r = Inl (EOperation ''find attached device'' e)"
  | (directory) waits where "trace s' = trace s @ waits @ [MadeDir path False]"
      "\<forall>ev \<in> set waits. waiting ev" "r = Inl (EMkdirAll path)"
  | (steps) waits t mounted evs where "trace t = trace s @ waits @ [MadeDir path True]"
      "\<forall>ev \<in> set waits. waiting ev" "isMounted os path t = (mounted, t)"
      "trace s' = trace t @ evs" "stage_steps dev path fs ro mounted evs r"
proof (rule bindE_cases [OF run [unfolded Mounter_Stage_def]])
  fix e
  assume lost': "in_operation ''find attached device'' (waitForDevice os dev) s = (Inl e, s')" "r = Inl e"
  then obtain e' where "waitForDevice os dev s = (Inl e', s')" "e = EOperation ''find attached device'' e'"
    by (auto simp: in_operation_def wrap_error_def split: prod.splits sum.splits)
  with lost' that(1) show thesis by (metis emitsD emits_waitForDevice)
next
  fix u t1
  assume "in_operation ''find attached device'' (waitForDevice os dev) s = (Inr u, t1)"
    and rest: "bindE (make_dir os path) (\<lambda>_. bindE (isMounted os path) (\<lambda>mounted.
      if mounted then retE ()
      else bindE (if ro then retE () else bindE (hasFilesystem os dev)
              (\<lambda>formatted. if formatted then retE () else formatDevice os dev fs))
            (\<lambda>_. run_cmd os ([''mount''] @ (if ro then [''-o'', ''ro''] else []) @ [dev, path])))) t1 = (r, s')"
  then have "waitForDevice os dev s = (Inr u, t1)"
    by (auto simp: in_operation_def wrap_error_def split: prod.splits sum.splits)
  then obtain waits where waits: "trace t1 = trace s @ waits" "\<forall>ev \<in> set waits. waiting ev"
    by (metis emitsD emits_waitForDevice)
  from rest show thesis
  proof (cases rule: bindE_cases)
    case (fails e)
    with waits that(2) show thesis by (auto elim!: make_dir_cases split: if_splits)
  next
    case (goes_on u t)
    with waits have t: "trace t = trace s @ waits @ [MadeDir path True]"
      by (auto elim!: make_dir_cases split: if_splits)
    obtain mounted where m: "isMounted os path t = (mounted, t)"
      using isMounted_state(1) by (metis prod.collapse)
    show thesis
    proof (cases mounted)
      case (Inl e)
      with goes_on m have "r = Inl e" "s' = t" by simp_all
      with Inl that(3) [OF t waits(2) m] stage_steps.table_unreadable show thesis by auto
    next
      case (Inr b)
      show thesis
      proof (cases b)
        case True
        with goes_on m Inr have "r = Inr ()" "s' = t" by simp_all
        with Inr True that(3) [OF t waits(2) m] stage_steps.already show thesis by auto
      next
        case False
        with goes_on m Inr have "bindE (if ro then retE () else bindE (hasFilesystem os dev)
              (\<lambda>formatted. if formatted then retE () else formatDevice os dev fs))
            (\<lambda>_. run_cmd os (mount_command ro dev path)) t = (r, s')"
          by (simp add: mount_command_def)
        then obtain evs where "trace s' = trace t @ evs" "stage_steps dev path fs ro (Inr False) evs r"
          by (rule prepare_device_cases) (auto elim!: run_cmd_cases)
        with Inr False that(3) [OF t waits(2) m] show thesis by auto
      qed
    qed
  qed
qed

section \<open>Unmounting\<close>

inductive unmount_steps :: "string \<Rightarrow> (mount_error + bool) \<Rightarrow> os_event list \<Rightarrow> mount_error + unit \<Rightarrow> bool"
  for target where
  table_unreadable: "unmount_steps target (Inl e) [] (Inl e)"
| not_mounted: "unmount_steps target (Inr False) [Removed target x] (Inr ())"
| busy: "\<not> is_done x \<Longrightarrow>
    unmount_steps target (Inr True) [Ran [''umount'', target] x] (Inl (ECommand [''umount'', target]))"
| unmounted: "is_done x \<Longrightarrow>
    unmount_steps target (Inr True) [Ran [''umount'', target] x, Removed target y] (Inr ())"

lemma Mounter_Unmount_steps:
  assumes run: "Mounter_Unmount os target s = (r, s')"
  obtains mounted evs where "isMounted os target s = (mounted, s)"
    "trace s' = trace s @ evs" "unmount_steps target mounted evs r"
proof -
  obtain mounted where m: "isMounted os target s = (mounted, s)"
    using isMounted_state(1) by (metis prod.collapse)
  have clean: "\<exists>x. trace s' = trace t @ [Removed target x] \<and> r = Inr ()"
    if "bindE (remove_file os target) (\<lambda>_. retE ()) t = (r, s')" for t
    using that by (auto elim!: bindE_cases remove_file_cases)
  show thesis
  proof (cases mounted)
    case (Inl e)
    with run m that [OF m] unmount_steps.table_unreadable show thesis
      by (auto simp: Mounter_Unmount_def)
  next
    case (Inr b)
    with run m have rest: "bindE (if b then run_cmd os [''umount'', target] else retE ())
        (\<lambda>_. bindE (remove_file os target) (\<lambda>_. retE ())) s = (r, s')"
      by (simp add: Mounter_Unmount_def)
    show thesis
    proof (cases b)
      case False
      with rest clean [of s] Inr that [OF m] unmount_steps.not_mounted show thesis by auto
    next
      case True
      from rest show thesis
      proof (cases rule: bindE_cases)
        case (fails e)
        with True Inr that [OF m] unmount_steps.busy show thesis
          by (auto elim!: run_cmd_cases split: if_splits)
      next
        case (goes_on u t)
        with True clean [of t] Inr that [OF m] unmount_steps.unmounted show thesis
          by (fastforce elim!: run_cmd_cases split: if_splits)
      qed
    qed
  qed
qed

section \<open>Removing a device\<close>

definition delete_path :: "string \<Rightarrow> string" where
  "delete_path name = Join [sysBlockRoot, name, ''device'', ''delete'']"

lemma settleUdev_cases:
  assumes "settleUdev os s = (r, s')"
  obtains "s' = s" "r = Inr ()"
  | x where "trace s' = trace s @ [Ran [''udevadm'', ''settle''] x]" "r = ran [''udevadm'', ''settle''] x"
  using assms by (auto simp: settleUdev_def split: if_splits elim!: run_cmd_cases)

lemma Mounter_RemoveDevice_steps:
  assumes run: "Mounter_RemoveDevice os path s = (r, s')"
  obtains (quiet) "s' = s"
  | (delete) name ok settle where "removableBlockDeviceName os (ext s) path = Inr name"
      "isBlockDeviceMounted os name s = (Inr False, s)" "os_Stat os (delete_path name) (ext s) = Found ()"
      "trace s' = trace s @ Wrote (delete_path name) (''1'' @ [CHR 0x0A]) ok # settle"
      "\<forall>ev \<in> set settle. \<exists>x. ev = Ran [''udevadm'', ''settle''] x" "r = Inr () \<Longrightarrow> ok"
proof (cases "removableBlockDeviceName os (ext s) path")
  case (Inl e)
  with run that(1) show thesis by (simp add: Mounter_RemoveDevice_def bindE_def)
next
  case (Inr name)
  obtain m where m: "isBlockDeviceMounted os name s = (m, s)"
    using isBlockDeviceMounted_state(1) by (metis prod.collapse)
  show thesis
  proof (cases "m = Inr False \<and> os_Stat os (delete_path name) (ext s) = Found ()")
    case False
    with run Inr m have "s' = s"
      by (cases "os_Stat os (delete_path name) (ext s)"; cases m)
        (auto simp: Mounter_RemoveDevice_def bindE_def [of "bindE _ _"] delete_path_def Let_def
          split: if_splits)
    then show thesis by (rule that(1))
  next
    case True
    with run Inr m have "bindE (write_file os (delete_path name) (''1'' @ [CHR 0x0A]))
        (\<lambda>ok. if ok then settleUdev os
             else throwE (EOperation (delete_path name) (EWriteFile (delete_path name)))) s = (r, s')"
      by (simp add: Mounter_RemoveDevice_def bindE_eq [of "bindE _ _"]
          bindE_eq [of "isBlockDeviceMounted _ _"] Let_def delete_path_def [symmetric])
    then show thesis
    proof (cases rule: bindE_cases)
      case (goes_on ok t)
      from goes_on(1) have t: "trace t = trace s @ [Wrote (delete_path name) (''1'' @ [CHR 0x0A]) ok]"
        by (auto elim!: write_file_cases)
      show thesis
      proof (cases ok)
        case False
        with goes_on t True m Inr that(2) [of name ok "[]"] show thesis by auto
      next
        case ok: True
        with goes_on(2) have "settleUdev os t = (r, s')" by simp
        then show thesis
          by (cases rule: settleUdev_cases)
            (use t True m Inr ok that(2) [of name ok] in auto)
      qed
    qed (auto elim!: write_file_cases)
  qed
qed

section \<open>Recording\<close>

inductive record_steps :: "string \<Rightarrow> string \<Rightarrow> os_event list \<Rightarrow> mount_error + unit \<Rightarrow> bool"
  for dir path where
  refused: "record_steps dir path [] (Inl e)"
| directory: "record_steps dir path [MadeDir dir False] (Inl (EMkdirAll dir))"
| not_written: "record_steps dir path [MadeDir dir True, Wrote (path @ ''.tmp'') data False]
    (Inl (EWriteFile (path @ ''.tmp'')))"
| renamed: "record_steps dir path [MadeDir dir True, Wrote (path @ ''.tmp'') data True,
      Renamed (path @ ''.tmp'') path ok] (if ok then Inr () else Inl (ERename (path @ ''.tmp'') path))"

lemma Mounter_RecordStagedDevice_steps:
  assumes run: "Mounter_RecordStagedDevice os m volumeID dev staging s = (r, s')"
  obtains evs where "trace s' = trace s @ evs"
    "record_steps (stagedDeviceMetadataDir m) (stagedDeviceMetadataPath m volumeID) evs r"
proof (cases "TrimSpace volumeID = [] \<or> TrimSpace dev = [] \<or> TrimSpace staging = []")
  case True
  with run that record_steps.refused show thesis
    by (auto simp: Mounter_RecordStagedDevice_def Let_def bindE_eq split: if_splits)
next
  case False
  let ?path = "stagedDeviceMetadataPath m volumeID"
  obtain data where "bindE (make_dir os (stagedDeviceMetadataDir m)) (\<lambda>_.
      bindE (write_file os (?path @ ''.tmp'') data) (\<lambda>ok.
        if ok then rename_file os (?path @ ''.tmp'') ?path else throwE (EWriteFile (?path @ ''.tmp''))))
      s = (r, s')"
    using run False by (auto simp: Mounter_RecordStagedDevice_def Let_def bindE_eq [of "ask _"])
  then show thesis
  proof (cases rule: bindE_cases)
    case (fails e)
    with that record_steps.directory show thesis by (auto elim!: make_dir_cases split: if_splits)
  next
    case (goes_on u t)
    then have t: "trace t = trace s @ [MadeDir (stagedDeviceMetadataDir m) True]"
      by (auto elim!: make_dir_cases split: if_splits)
    from goes_on(2) show thesis
    proof (cases rule: bindE_cases)
      case (goes_on ok v)
      then have v: "trace v = trace t @ [Wrote (?path @ ''.tmp'') data ok]"
        by (auto elim!: write_file_cases)
      show thesis
      proof (cases ok)
        case True
        with goes_on(2) v t that record_steps.renamed show thesis by (auto elim!: rename_file_cases)
      next
        case False
        with goes_on(2) v t that record_steps.not_written show thesis by auto
      qed
    qed (auto elim!: write_file_cases)
  qed
qed

lemma Mounter_ForgetStagedDevice_steps:
  assumes "Mounter_ForgetStagedDevice os m volumeID s = (r, s')"
  obtains x where "trace s' = trace s @ [Removed (stagedDeviceMetadataPath m volumeID) x]"
    "r = (if x = Failed then Inl (ERemove (stagedDeviceMetadataPath m volumeID)) else Inr ())"
  using assms unfolding Mounter_ForgetStagedDevice_def Let_def
  by (auto elim!: bindE_cases remove_file_cases split: if_splits)

lemma Mounter_StagedDevicePath_state:
  assumes "Mounter_StagedDevicePath os m volumeID s = (r, s')"
  shows "s' = s"
  using assms unfolding Mounter_StagedDevicePath_def Let_def
  by (auto simp: bindE_eq split: os_answer.splits option.splits if_splits)

lemma mountedSource_steps:
  assumes "mountedSource os path s = (r, s')"
  obtains x where
    "trace s' = trace s @ [Ran [''findmnt'', ''-n'', ''-o'', ''SOURCE'', ''--target'', path] x]"
    "r = Inr src \<Longrightarrow> src \<noteq> []"
  using assms unfolding mountedSource_def
  by (auto elim!: bindE_cases commandOutput_cases split: if_splits exec_result.splits)

end
