(* ===== verification/Device_Discovery.thy ===== *)
theory Device_Discovery
  imports Mounter_Steps
begin

text \<open>
  Which device the discovery may return: how candidates are classified, how one is chosen, and how
  long the search and the wait for a device may take.
\<close>

section \<open>Classification\<close>

text \<open>A device that was examined: its name, what \<open>blkid\<close> answered, and the path it goes by.\<close>

type_synonym pick = "string \<times> exec_result \<times> string"

definition dev_path :: "string \<Rightarrow> string" where
  "dev_path name = Join [devRoot, name]"

definition blank_picks :: "pick list \<Rightarrow> string list" where
  "blank_picks picks = [link. (name, x, link) \<leftarrow> picks, \<not> is_done x]"

definition formatted_picks :: "pick list \<Rightarrow> string list" where
  "formatted_picks picks = [link. (name, x, link) \<leftarrow> picks, is_done x]"

lemma picks_simps [simp]:
  "blank_picks [] = []" "formatted_picks [] = []"
  "blank_picks ((n, x, st) # ps) = (if is_done x then blank_picks ps else st # blank_picks ps)"
  "formatted_picks ((n, x, st) # ps) = (if is_done x then st # formatted_picks ps else formatted_picks ps)"
  by (simp_all add: blank_picks_def formatted_picks_def)

text \<open>Some moment at which a device was eligible: considered for the size, and mounted nowhere.\<close>

definition eligible :: "'w NodeOS \<Rightarrow> int64 \<Rightarrow> string \<times> bool \<Rightarrow> bool" where
  "eligible os sz entry \<longleftrightarrow>
     (\<exists>t. considered os (ext t) sz entry \<and> isMountedSource os (dev_path (fst entry)) t = (Inr False, t))"

definition rejected :: "'w NodeOS \<Rightarrow> int64 \<Rightarrow> string \<times> bool \<Rightarrow> bool" where
  "rejected os sz entry \<longleftrightarrow>
     (\<exists>t. \<not> considered os (ext t) sz entry \<or> isMountedSource os (dev_path (fst entry)) t = (Inr True, t))"

text \<open>
  The examined devices \<open>picks\<close> among the entries: each was eligible and \<open>blkid\<close> was run on it, in
  order; every other entry was rejected.
\<close>

inductive examined :: "'w NodeOS \<Rightarrow> int64 \<Rightarrow> (string \<times> bool) list \<Rightarrow> pick list \<Rightarrow> bool"
  for os sz where
  none: "examined os sz [] []"
| skip: "rejected os sz e \<Longrightarrow> examined os sz es picks \<Longrightarrow> examined os sz (e # es) picks"
| pick: "eligible os sz e \<Longrightarrow> x \<noteq> NotStarted \<Longrightarrow> examined os sz es picks \<Longrightarrow>
    examined os sz (e # es) ((fst e, x, link) # picks)"

lemma examined_eligible:
  assumes "examined os sz es picks" and "(name, x, link) \<in> set picks"
  shows "eligible os sz (name, True) \<and> (name, True) \<in> set es \<and> x \<noteq> NotStarted"
  using assms
proof (induction rule: examined.induct)
  case (pick e x' es picks link')
  then show ?case by (cases e) (auto simp: eligible_def considered_def)
qed auto

definition blkid_events :: "pick list \<Rightarrow> os_event list" where
  "blkid_events picks = map (\<lambda>(name, x, link). Ran (blkid (dev_path name)) x) picks"

lemma classify_entries_steps:
  assumes "classify_entries os sz es s = (Inr (unformatted, formatted), s')"
  shows "\<exists>picks. examined os sz es picks \<and> trace s' = trace s @ blkid_events picks
    \<and> unformatted = blank_picks picks \<and> formatted = formatted_picks picks"
  using assms
proof (induction es arbitrary: s unformatted formatted)
  case Nil
  then show ?case using examined.none by (fastforce simp: blkid_events_def)
next
  case (Cons e es)
  show ?case
  proof (cases "considered os (ext s) sz e")
    case False
    with Cons.prems have "classify_entries os sz es s = (Inr (unformatted, formatted), s')"
      by (simp add: bindE_eq [of "ask _"])
    moreover have "rejected os sz e" using False unfolding rejected_def by blast
    ultimately show ?thesis using Cons.IH examined.skip by blast
  next
    case True
    let ?path = "dev_path (fst e)"
    from Cons.prems True obtain b t where b: "isMountedSource os ?path s = (Inr b, t)"
      and rest: "(if b then classify_entries os sz es
        else bindE (hasFilesystem os ?path) (\<lambda>hasFS.
             bindE (ask (\<lambda>w. stableDevicePath os w (fst e))) (\<lambda>link.
             bindE (classify_entries os sz es) (\<lambda>(unformatted, formatted).
               retE (if hasFS then (unformatted, link # formatted)
                     else (link # unformatted, formatted)))))) t = (Inr (unformatted, formatted), s')"
      by (auto simp: bindE_eq [of "ask (\<lambda>w. considered os w sz e)"] Let_def
          dev_path_def [symmetric] elim!: bindE_Inr_cases)
    have t: "t = s" using b by (rule isMountedSource_state)
    show ?thesis
    proof (cases b)
      case True
      with b t have "isMountedSource os ?path s = (Inr True, s)" by simp
      then have "rejected os sz e" unfolding rejected_def by blast
      with True rest t Cons.IH examined.skip show ?thesis by fastforce
    next
      case False
      with b t have "isMountedSource os ?path s = (Inr False, s)" by simp
      with \<open>considered os (ext s) sz e\<close> have el: "eligible os sz e"
        unfolding eligible_def by blast
      from False rest obtain hasFS u where fs: "hasFilesystem os ?path t = (Inr hasFS, u)"
        and "bindE (classify_entries os sz es) (\<lambda>(unformatted, formatted).
               retE (if hasFS then (unformatted, stableDevicePath os (ext u) (fst e) # formatted)
                     else (stableDevicePath os (ext u) (fst e) # unformatted, formatted))) u
             = (Inr (unformatted, formatted), s')"
        by (auto simp: bindE_eq [of "ask _"] elim!: bindE_Inr_cases [of "hasFilesystem _ _"])
      then obtain unf fmt where cl: "classify_entries os sz es u = (Inr (unf, fmt), s')"
        and res: "(unformatted, formatted) =
          (if hasFS then (unf, stableDevicePath os (ext u) (fst e) # fmt)
           else (stableDevicePath os (ext u) (fst e) # unf, fmt))"
        by (auto elim!: bindE_Inr_cases)
      from Cons.IH [OF cl] obtain picks where picks: "examined os sz es picks"
        "trace s' = trace u @ blkid_events picks" "unf = blank_picks picks" "fmt = formatted_picks picks"
        by blast
      obtain x where x: "trace u = trace t @ [Ran (blkid ?path) x]" "x \<noteq> NotStarted" "is_done x = hasFS"
        using fs by (auto elim!: hasFilesystem_cases)
      have "examined os sz (e # es) ((fst e, x, stableDevicePath os (ext u) (fst e)) # picks)"
        using el x(2) picks(1) by (rule examined.pick)
      with picks x t res show ?thesis
        by (intro exI [of _ "(fst e, x, stableDevicePath os (ext u) (fst e)) # picks"])
          (auto simp: blkid_events_def split: if_splits)
    qed
  qed
qed

lemma classifyBlockDevices_steps:
  assumes "classifyBlockDevices os sz s = (Inr (unformatted, formatted), s')"
  obtains es picks where "os_ReadDir os sysBlockRoot (ext s) = Some es" "examined os sz es picks"
    "trace s' = trace s @ blkid_events picks"
    "unformatted = sort (blank_picks picks)" "formatted = sort (formatted_picks picks)"
proof -
  obtain es where es: "os_ReadDir os sysBlockRoot (ext s) = Some es"
    using assms by (cases "os_ReadDir os sysBlockRoot (ext s)")
      (auto simp: classifyBlockDevices_def bindE_eq [of "ask _"])
  with assms have "bindE (classify_entries os sz es)
      (\<lambda>(unformatted, formatted). retE (sort unformatted, sort formatted)) s
      = (Inr (unformatted, formatted), s')"
    by (simp add: classifyBlockDevices_def bindE_eq [of "ask _"])
  then obtain unf fmt where "classify_entries os sz es s = (Inr (unf, fmt), s')"
    "unformatted = sort unf" "formatted = sort fmt"
    by (auto elim!: bindE_Inr_cases)
  with es that classify_entries_steps show thesis by metis
qed

section \<open>Choice\<close>

lemma choose_device_Inr:
  "choose_device sz unformatted formatted = Some (Inr d) \<longleftrightarrow>
     unformatted = [d] \<or> unformatted = [] \<and> 0 < sint sz \<and> formatted = [d]"
  by (auto simp: choose_device_def split: list.splits)

lemma sort_single: "sort xs = [x] \<longleftrightarrow> xs = [x]"
proof
  assume sorted: "sort xs = [x]"
  then have "length xs = 1" and set: "set xs = {x}"
    using length_sort [of "\<lambda>y. y" xs] set_sort [of "\<lambda>y. y" xs] by simp_all
  then obtain y where "xs = [y]" by (auto simp: length_Suc_conv)
  with set show "xs = [x]" by simp
qed simp

lemma DiscoverDevicePath_loop_Inr:
  assumes "DiscoverDevicePath_loop os sz attempt lastErr s = (Inr d, s')" and "attempt < 12 \<or> lastErr \<noteq> None"
  shows "\<exists>t unformatted formatted. classifyBlockDevices os sz t = (Inr (unformatted, formatted), s')
    \<and> choose_device sz unformatted formatted = Some (Inr d)"
  using assms
proof (induction os sz attempt lastErr arbitrary: s rule: DiscoverDevicePath_loop.induct)
  case (1 os sz attempt lastErr)
  show ?case
  proof (cases "attempt < deviceDiscoveryAttempts")
    case False
    with "1.prems" show ?thesis
      by (auto simp: DiscoverDevicePath_loop.simps deviceDiscoveryAttempts_def split: option.splits)
  next
    case less: True
    let ?pause = "if 0 < attempt
      then bindE (sleepDiscoveryInterval os) (\<lambda>_. tryE (rescanDevices os) retE) else retE (Inr ())"
    let ?att = "\<lambda>rescanned :: mount_error + unit. case rescanned of
             Inl e \<Rightarrow> DiscoverDevicePath_loop os sz (attempt + 1) (Some e)
           | Inr _ \<Rightarrow> tryE (classifyBlockDevices os sz)
                   (\<lambda>r. case r of
                          Inl e \<Rightarrow> DiscoverDevicePath_loop os sz (attempt + 1) (Some e)
                        | Inr (unformatted, formatted) \<Rightarrow>
                            (case choose_device sz unformatted formatted of
                               Some (Inr d) \<Rightarrow> retE d
                             | Some (Inl e) \<Rightarrow> throwE e
                             | None \<Rightarrow> DiscoverDevicePath_loop os sz (attempt + 1)
                                   (Some (no_candidate sz))))"
    from "1.prems" less have "bindE ?pause ?att s = (Inr d, s')"
      by (simp only: DiscoverDevicePath_loop.simps [of os sz attempt lastErr] if_True)
    then obtain rescanned t where rest: "?att rescanned t = (Inr d, s')"
      by (rule bindE_Inr_cases)
    show ?thesis
    proof (cases rescanned)
      case (Inl e)
      with rest "1.IH"(1) [OF less] show ?thesis by auto
    next
      case (Inr u)
      from rest obtain r v where r: "classifyBlockDevices os sz t = (r, v)"
        and rest: "(case r of
              Inl e \<Rightarrow> DiscoverDevicePath_loop os sz (attempt + 1) (Some e)
            | Inr (unformatted, formatted) \<Rightarrow>
                (case choose_device sz unformatted formatted of
                   Some (Inr d) \<Rightarrow> retE d
                 | Some (Inl e) \<Rightarrow> throwE e
                 | None \<Rightarrow> DiscoverDevicePath_loop os sz (attempt + 1)
                       (Some (no_candidate sz)))) v = (Inr d, s')"
        unfolding Inr sum.case by (rule tryE_cases)
      show ?thesis
      proof (cases r)
        case (Inl e)
        with rest "1.IH"(2) [OF less] show ?thesis by auto
      next
        case found: (Inr lists)
        obtain unf fmt where lists: "lists = (unf, fmt)" by (cases lists)
        show ?thesis
        proof (cases "choose_device sz unf fmt")
          case None
          with found lists rest "1.IH"(3) [OF less] show ?thesis by auto
        next
          case (Some choice)
          with found lists rest r show ?thesis by (cases choice) auto
        qed
      qed
    qed
  qed
qed

text \<open>The discovery itself only waits and examines devices.\<close>

fun searching :: "os_event \<Rightarrow> bool" where
  "searching (Ran cmd x) \<longleftrightarrow> cmd = [''udevadm'', ''settle''] \<or> (\<exists>dev. cmd = blkid dev)"
| "searching ev \<longleftrightarrow> waiting ev"

lemma waiting_searching: "waiting ev \<Longrightarrow> searching ev"
  by (cases ev) auto

lemma emits_searching [emits_intros]:
  "emits searching (sleepDiscoveryInterval os)" "emits searching (rescanDevices os)"
  "emits searching (hasFilesystem os dev)"
  by (auto intro!: emits_intros simp: hasFilesystem_def split: exec_result.split
      intro: emits_weaken [OF emits_rescanDevices] waiting_searching)

lemma emits_isMountedSource [emits_intros]: "emits P (isMountedSource os source)"
  by (rule emitsI) (auto dest: isMountedSource_state)

lemma emits_classify_entries [emits_intros]: "emits searching (classify_entries os sz es)"
  by (induction es) (auto intro!: emits_intros simp: Let_def simp del: ask_apply bindE_Inr)

lemma emits_classify [emits_intros]: "emits searching (classifyBlockDevices os sz)"
  unfolding classifyBlockDevices_def by (auto intro!: emits_intros split: option.split)

lemma emits_discovery_loop: "emits searching (DiscoverDevicePath_loop os sz attempt lastErr)"
proof (induction os sz attempt lastErr rule: DiscoverDevicePath_loop.induct)
  case (1 os sz attempt lastErr)
  then show ?case
    unfolding DiscoverDevicePath_loop.simps [of os sz attempt lastErr]
    by (auto intro!: emits_intros simp del: bindE_retE split: option.split sum.split)
qed

lemma emits_discovery [emits_intros]: "emits searching (Mounter_DiscoverDevicePath os sz)"
  unfolding Mounter_DiscoverDevicePath_def by (rule emits_discovery_loop)

section \<open>How long it takes\<close>

text \<open>\<open>at_most n m\<close>: a run of \<open>m\<close> waits for the discovery interval at most \<open>n\<close> times.\<close>

fun is_sleep :: "os_event \<Rightarrow> bool" where
  "is_sleep (Slept d) \<longleftrightarrow> True"
| "is_sleep _ \<longleftrightarrow> False"

definition sleeps :: "os_event list \<Rightarrow> nat" where
  "sleeps evs = length (filter is_sleep evs)"

definition at_most :: "nat \<Rightarrow> ('w node_state, 'e, 'a) io \<Rightarrow> bool" where
  "at_most n m \<longleftrightarrow> (\<forall>s. \<exists>evs. trace (snd (m s)) = trace s @ evs \<and> sleeps evs \<le> n)"

lemma at_most_emits: "emits (\<lambda>ev. \<not> is_sleep ev) m \<Longrightarrow> at_most n m"
  unfolding at_most_def emits_def sleeps_def by (metis (no_types) filter_False le0 list.size(3))

lemma at_most_mono: "at_most m f \<Longrightarrow> m \<le> n \<Longrightarrow> at_most n f"
  unfolding at_most_def by (meson le_trans)

lemma at_most_bindE:
  assumes m: "at_most k m" and f: "\<And>x. at_most n (f x)"
  shows "at_most (k + n) (bindE m f)"
  unfolding at_most_def
proof
  fix s
  obtain r t where r: "m s = (r, t)" by (cases "m s")
  with m obtain as where as: "trace t = trace s @ as" "sleeps as \<le> k"
    unfolding at_most_def by (metis snd_conv)
  show "\<exists>evs. trace (snd (bindE m f s)) = trace s @ evs \<and> sleeps evs \<le> k + n"
  proof (cases r)
    case (Inl e)
    with r as show ?thesis by (auto simp: bindE_def)
  next
    case (Inr x)
    obtain bs where "trace (snd (f x t)) = trace t @ bs" "sleeps bs \<le> n"
      using f unfolding at_most_def by blast
    with r Inr as show ?thesis
      by (intro exI [of _ "as @ bs"]) (simp add: bindE_def sleeps_def)
  qed
qed

lemma at_most_tryE:
  assumes m: "at_most k m" and f: "\<And>x. at_most n (f x)"
  shows "at_most (k + n) (tryE m f)"
  unfolding at_most_def
proof
  fix s
  obtain r t where r: "m s = (r, t)" by (cases "m s")
  with m obtain as where as: "trace t = trace s @ as" "sleeps as \<le> k"
    unfolding at_most_def by (metis snd_conv)
  obtain bs where "trace (snd (f r t)) = trace t @ bs" "sleeps bs \<le> n"
    using f unfolding at_most_def by blast
  with r as show "\<exists>evs. trace (snd (tryE m f s)) = trace s @ evs \<and> sleeps evs \<le> k + n"
    by (intro exI [of _ "as @ bs"]) (simp add: tryE_def sleeps_def)
qed

lemma at_most_sleep: "at_most 1 (sleepDiscoveryInterval os)"
  unfolding at_most_def
proof
  fix s
  obtain r t where "sleepDiscoveryInterval os s = (r, t)" by (cases "sleepDiscoveryInterval os s")
  moreover from this obtain d where "trace t = trace s @ [Slept d]" by (rule sleep_cases)
  ultimately show "\<exists>evs. trace (snd (sleepDiscoveryInterval os s)) = trace s @ evs \<and> sleeps evs \<le> 1"
    by (auto simp: sleeps_def)
qed

lemma no_sleep_rescan [emits_intros]: "emits (\<lambda>ev. \<not> is_sleep ev) (rescanDevices os)"
proof -
  have "emits (\<lambda>ev. \<not> is_sleep ev) (write_scans os paths)" for paths
    by (induction paths) (auto intro!: emits_intros)
  then show ?thesis
    unfolding rescanDevices_def rescanSCSIHosts_def settleUdev_def
    by (auto intro!: emits_intros split: option.split)
qed

lemma no_sleep_classify [emits_intros]: "emits (\<lambda>ev. \<not> is_sleep ev) (classifyBlockDevices os sz)"
proof -
  have fs: "emits (\<lambda>ev. \<not> is_sleep ev) (hasFilesystem os dev)" for dev
    unfolding hasFilesystem_def by (auto intro!: emits_intros split: exec_result.split)
  have "emits (\<lambda>ev. \<not> is_sleep ev) (classify_entries os sz es)" for es
    by (induction es) (auto intro!: emits_intros fs simp: Let_def simp del: ask_apply bindE_Inr)
  then show ?thesis
    unfolding classifyBlockDevices_def by (auto intro!: emits_intros split: option.split)
qed

text \<open>Both loops wait before each attempt but the first.\<close>

definition waits_left :: "nat \<Rightarrow> nat" where
  "waits_left attempt = (if attempt = 0 then 11 else 12 - attempt)"

lemma at_most_pause:
  assumes "emits (\<lambda>ev. \<not> is_sleep ev) m"
  shows "at_most (if 0 < attempt then 1 else 0)
    (if 0 < attempt then bindE (sleepDiscoveryInterval os) (\<lambda>_. m) else retE x)"
  using at_most_bindE [OF at_most_sleep at_most_emits [OF assms, THEN at_most_mono [of 0 _ 0]]]
  by (simp add: at_most_emits at_most_mono)

lemma waits_left_step:
  "attempt < 12 \<Longrightarrow> (if 0 < attempt then 1 else 0) + waits_left (attempt + 1) \<le> waits_left attempt"
  by (simp add: waits_left_def)

lemma at_most_retE [simp]: "at_most n (retE x)" "at_most n (throwE e)"
  by (simp_all add: at_most_def sleeps_def)

lemma at_most_waitForDevice_loop: "at_most (waits_left attempt) (waitForDevice_loop os dev attempt lastErr)"
proof (induction os dev attempt lastErr rule: waitForDevice_loop.induct)
  case (1 os dev attempt lastErr)
  show ?case
  proof (cases "attempt < deviceDiscoveryAttempts")
    case less: True
    have rest: "at_most (0 + waits_left (attempt + 1)) (bindE (ask (os_Stat os dev))
        (\<lambda>st. if st = Found () then retE ()
              else waitForDevice_loop os dev (attempt + 1) (Some (EStat dev))))"
    proof (rule at_most_bindE)
      show "at_most 0 (ask (os_Stat os dev))" by (rule at_most_emits) (rule emits_ask)
      show "at_most (waits_left (attempt + 1)) (if st = Found () then retE ()
          else waitForDevice_loop os dev (attempt + 1) (Some (EStat dev)))" for st
        using "1.IH" [OF less, of st] by simp
    qed
    have pause: "emits (\<lambda>ev. \<not> is_sleep ev) (tryE (rescanDevices os) (\<lambda>_. retE ()))"
      by (auto intro!: emits_intros)
    show ?thesis
      unfolding waitForDevice_loop.simps [of os dev attempt lastErr] if_P [OF less]
      using less waits_left_step [of attempt]
      by (intro at_most_mono [OF at_most_bindE [OF at_most_pause [OF pause] rest]])
        (simp add: deviceDiscoveryAttempts_def)
  next
    case False
    then show ?thesis
      by (auto simp: waitForDevice_loop.simps [of os dev attempt lastErr] split: option.split)
  qed
qed

lemma at_most_discovery_loop: "at_most (waits_left attempt) (DiscoverDevicePath_loop os sz attempt lastErr)"
proof (induction os sz attempt lastErr rule: DiscoverDevicePath_loop.induct)
  case (1 os sz attempt lastErr)
  show ?case
  proof (cases "attempt < deviceDiscoveryAttempts")
    case less: True
    let ?again = "\<lambda>e. DiscoverDevicePath_loop os sz (attempt + 1) (Some e)"
    have IH: "at_most (waits_left (attempt + 1)) (?again e)" for e
      by (rule "1.IH"(1) [OF less])
    have search: "at_most (0 + waits_left (attempt + 1)) (tryE (classifyBlockDevices os sz)
        (\<lambda>r. case r of
               Inl e \<Rightarrow> ?again e
             | Inr (unformatted, formatted) \<Rightarrow>
                 (case choose_device sz unformatted formatted of
                    Some (Inr d) \<Rightarrow> retE d
                  | Some (Inl e) \<Rightarrow> throwE e
                  | None \<Rightarrow> ?again (no_candidate sz))))"
      by (rule at_most_tryE [OF at_most_emits [OF no_sleep_classify, THEN at_most_mono [of 0 _ 0]]])
        (auto simp: IH [simplified] split: sum.split option.split prod.split)
    have pause: "emits (\<lambda>ev. \<not> is_sleep ev) (tryE (rescanDevices os) retE)"
      by (auto intro!: emits_intros)
    show ?thesis
      unfolding DiscoverDevicePath_loop.simps [of os sz attempt lastErr] if_P [OF less]
      using less waits_left_step [of attempt]
      by (intro at_most_mono [OF at_most_bindE [OF at_most_pause [OF pause]]])
        (use search in \<open>auto simp: deviceDiscoveryAttempts_def IH [simplified] split: sum.split\<close>)
  next
    case False
    then show ?thesis
      by (auto simp: DiscoverDevicePath_loop.simps [of os sz attempt lastErr] split: option.split)
  qed
qed

lemma at_most_waitForDevice: "at_most 11 (waitForDevice os dev)"
  using at_most_waitForDevice_loop [of 0] by (simp add: waitForDevice_def waits_left_def)

lemma at_most_discovery: "at_most 11 (Mounter_DiscoverDevicePath os sz)"
  using at_most_discovery_loop [of 0] by (simp add: Mounter_DiscoverDevicePath_def waits_left_def)

section \<open>Waiting for a device as a search\<close>

text \<open>The state after a wait and a rescan, and the attempts as the iteration of that pause.\<close>

definition pause :: "'w NodeOS \<Rightarrow> ('w, unit) node_io" where
  "pause os = bindE (sleepDiscoveryInterval os) (\<lambda>_. tryE (rescanDevices os) (\<lambda>_. retE ()))"

definition after_pauses :: "'w NodeOS \<Rightarrow> nat \<Rightarrow> 'w node_state \<Rightarrow> 'w node_state" where
  "after_pauses os n = (\<lambda>s. snd (pause os s)) ^^ n"

definition present :: "'w NodeOS \<Rightarrow> string \<Rightarrow> 'w node_state \<Rightarrow> bool" where
  "present os dev s \<longleftrightarrow> os_Stat os dev (ext s) = Found ()"

lemma pause_uninterrupted:
  assumes "\<And>w. \<not> fst (os_Sleep os w)"
  shows "fst (pause os s) = Inr ()"
  using assms [of "ext s"]
  by (cases "os_Sleep os (ext s)")
    (auto simp: pause_def bindE_eq tryE_eq sleepDiscoveryInterval_def split: prod.split)

lemma after_pauses_0 [simp]: "after_pauses os 0 s = s"
  by (simp add: after_pauses_def)

lemma waitForDevice_loop_later:
  assumes sleep: "\<And>w. \<not> fst (os_Sleep os w)" and "0 < attempt" and "attempt + k = 12"
    and "lastErr = Some (EStat dev)"
  shows "waitForDevice_loop os dev attempt lastErr s =
    (case find (\<lambda>n. present os dev (after_pauses os n s)) [1..<Suc k] of
       Some n \<Rightarrow> (Inr (), after_pauses os n s)
     | None \<Rightarrow> (Inl (EStat dev), after_pauses os k s))"
  using assms(2-)
proof (induction k arbitrary: attempt lastErr s)
  case 0
  then show ?case
    by (simp add: waitForDevice_loop.simps deviceDiscoveryAttempts_def after_pauses_def)
next
  case (Suc k)
  obtain t where t: "pause os s = (Inr (), t)" by (metis pause_uninterrupted [OF sleep] prod.collapse)
  have shift: "after_pauses os (Suc n) s = after_pauses os n t" for n
    using t by (simp add: after_pauses_def funpow_Suc_right del: funpow.simps)
  have range: "[1..<Suc (Suc k)] = 1 # map Suc [1..<Suc k]"
    by (metis One_nat_def map_Suc_upt upt_conv_Cons Suc_less_eq zero_less_Suc)
  have find_map: "find P (map Suc ns) = map_option Suc (find (\<lambda>n. P (Suc n)) ns)" for P ns
    by (induction ns) auto
  have "waitForDevice_loop os dev attempt lastErr s =
      (if present os dev t then (Inr (), t)
       else waitForDevice_loop os dev (attempt + 1) (Some (EStat dev)) t)"
    using Suc.prems t unfolding waitForDevice_loop.simps [of os dev attempt lastErr] pause_def [symmetric]
    by (simp add: deviceDiscoveryAttempts_def present_def bindE_eq)
  also have "\<dots> = (case find (\<lambda>n. present os dev (after_pauses os n s)) [1..<Suc (Suc k)] of
       Some n \<Rightarrow> (Inr (), after_pauses os n s)
     | None \<Rightarrow> (Inl (EStat dev), after_pauses os (Suc k) s))"
    using Suc.IH [of "attempt + 1" "Some (EStat dev)" t] Suc.prems
    unfolding range find_map find.simps
    by (simp add: shift [of 0, simplified] shift del: upt_Suc split: option.split)
  finally show ?case .
qed

lemma waitForDevice_search:
  assumes sleep: "\<And>w. \<not> fst (os_Sleep os w)"
  shows "waitForDevice os dev s =
    (case find (\<lambda>n. present os dev (after_pauses os n s)) [0..<12] of
       Some n \<Rightarrow> (Inr (), after_pauses os n s)
     | None \<Rightarrow> (Inl (EStat dev), after_pauses os 11 s))"
proof -
  have "waitForDevice os dev s = (if present os dev s then (Inr (), s)
      else waitForDevice_loop os dev 1 (Some (EStat dev)) s)"
    unfolding waitForDevice_def waitForDevice_loop.simps [of os dev 0 None]
    by (simp add: deviceDiscoveryAttempts_def present_def bindE_eq)
  moreover have "[0..<12] = 0 # [1..<Suc 11]" by (simp add: upt_conv_Cons)
  ultimately show ?thesis
    using waitForDevice_loop_later [OF sleep, of 1 11 "Some (EStat dev)"]
    by (simp add: after_pauses_def)
qed

end
