(* ===== verification/Simulated_Node.thy ===== *)
theory Simulated_Node
  imports Real_Mounter "HOL-Library.Code_Target_Nat" "HOL-Library.Code_Target_Int"
begin

text \<open>
  A small simulated node, on which the witnesses of the node properties run: disks without
  partitions, file systems, a mount table, regular files.
\<close>

record node_sim =
  sm_disks :: "(string \<times> string) list"
  sm_formatted :: "string list"
  sm_mounts :: "(string \<times> string) list"
  sm_files :: "(string \<times> string) list"

definition sim_mountinfo :: "node_sim \<Rightarrow> string" where
  "sim_mountinfo w =
     concat (map (\<lambda>(dev, target). ''36 35 8:0 / '' @ target @ '' rw shared:1 - ext4 '' @ dev @ '' rw'' @ [CHR 0x0A])
       (sm_mounts w))"

definition sim_read :: "string \<Rightarrow> node_sim \<Rightarrow> string os_answer" where
  "sim_read path w =
     (if path = mountInfoPath then Found (sim_mountinfo w)
      else case find (\<lambda>(name, sectors). path = sysBlockRoot @ ''/'' @ name @ ''/size'') (sm_disks w) of
             Some (name, sectors) \<Rightarrow> Found sectors
           | None \<Rightarrow> (case map_of (sm_files w) path of Some data \<Rightarrow> Found data | None \<Rightarrow> NotExist))"

definition sim_stat :: "string \<Rightarrow> node_sim \<Rightarrow> unit os_answer" where
  "sim_stat path w =
     (if list_ex (\<lambda>(name, sectors). path = devRoot @ ''/'' @ name
          \<or> path = sysBlockRoot @ ''/'' @ name @ ''/device/delete'') (sm_disks w)
        \<or> map_of (sm_files w) path \<noteq> None
      then Found () else NotExist)"

definition sim_glob :: "string \<Rightarrow> node_sim \<Rightarrow> string list option" where
  "sim_glob pattern w =
     Some (if pattern = ''/sys/class/scsi_host/host*/scan'' then [''/sys/class/scsi_host/host0/scan''] else [])"

text \<open>Metadata as text: each field is followed by a line feed.\<close>

definition sim_marshal :: "stagedDeviceMetadata \<Rightarrow> string" where
  "sim_marshal m =
     concat (map (\<lambda>t. t @ [CHR 0x0A]) [md_VolumeID m, md_DevicePath m, md_StagingPath m, md_Timestamp m])"

definition sim_unmarshal :: "string \<Rightarrow> stagedDeviceMetadata option" where
  "sim_unmarshal t =
     (case Split_on (CHR 0x0A) t of
        a # b # c # d # rest \<Rightarrow>
          Some \<lparr>md_VolumeID = a, md_DevicePath = b, md_StagingPath = c, md_Timestamp = d\<rparr>
      | _ \<Rightarrow> None)"

definition sim_exec :: "string list \<Rightarrow> node_sim \<Rightarrow> exec_result \<times> node_sim" where
  "sim_exec cmd w =
     (case cmd of
        [name, a, b] \<Rightarrow>
          if name = ''blkid'' then (if b \<in> set (sm_formatted w) then Done [] else Exited [], w)
          else if name = ''mkfs.ext4'' \<or> name = ''mkfs.xfs''
          then (Done [], w\<lparr>sm_formatted := b # sm_formatted w\<rparr>)
          else if name = ''mount'' then (Done [], w\<lparr>sm_mounts := (a, b) # sm_mounts w\<rparr>)
          else (NotStarted, w)
      | [name, a] \<Rightarrow>
          if name = ''umount''
          then (if list_ex (\<lambda>(dev, target). target = a) (sm_mounts w)
                then (Done [], w\<lparr>sm_mounts := filter (\<lambda>(dev, target). target \<noteq> a) (sm_mounts w)\<rparr>)
                else (Exited ''not mounted'', w))
          else (Done [], w)
      | [name, a, b, c, d, e] \<Rightarrow>
          (case find (\<lambda>(dev, target). target = e) (sm_mounts w) of
             Some (dev, target) \<Rightarrow> (Done (dev @ [CHR 0x0A]), w)
           | None \<Rightarrow> (Exited [], w))
      | _ \<Rightarrow> (NotStarted, w))"

definition sim_write :: "string \<Rightarrow> string \<Rightarrow> node_sim \<Rightarrow> bool \<times> node_sim" where
  \<comment> \<open>a disk whose \<open>delete\<close> file is written goes away\<close>
  "sim_write path data w =
     (True, w\<lparr>sm_disks :=
            filter (\<lambda>(name, sectors). path \<noteq> sysBlockRoot @ ''/'' @ name @ ''/device/delete'') (sm_disks w),
          sm_files := (path, data) # filter (\<lambda>(p, d). p \<noteq> path) (sm_files w)\<rparr>)"

definition sim_remove :: "string \<Rightarrow> node_sim \<Rightarrow> unit os_answer \<times> node_sim" where
  "sim_remove path w =
     (if map_of (sm_files w) path = None then (NotExist, w)
      else (Found (), w\<lparr>sm_files := filter (\<lambda>(p, d). p \<noteq> path) (sm_files w)\<rparr>))"

definition sim_rename :: "string \<Rightarrow> string \<Rightarrow> node_sim \<Rightarrow> bool \<times> node_sim" where
  "sim_rename old new w =
     (case map_of (sm_files w) old of
        None \<Rightarrow> (False, w)
      | Some data \<Rightarrow>
          (True, w\<lparr>sm_files := (new, data) # filter (\<lambda>(p, d). p \<noteq> old \<and> p \<noteq> new) (sm_files w)\<rparr>))"

definition sim_os :: "node_sim NodeOS" where
  "sim_os =
     \<lparr>os_ReadFile = sim_read, os_Stat = sim_stat,
      os_ReadDir = (\<lambda>path w. Some (map (\<lambda>(name, sectors). (name, True)) (sm_disks w))),
      os_Glob = sim_glob, os_EvalSymlinks = (\<lambda>path w. Some path), os_LookPath = (\<lambda>name w. True),
      os_Now = (\<lambda>w. ''2024-01-01T00:00:00Z''), os_Marshal = sim_marshal, os_Unmarshal = sim_unmarshal,
      os_Exec = sim_exec, os_WriteFile = sim_write, os_MkdirAll = (\<lambda>path w. (True, w)),
      os_Remove = sim_remove, os_Rename = sim_rename, os_Sleep = (\<lambda>w. (False, w)),
      os_Listen = (\<lambda>network addr w. (True, w)), os_Serve = (\<lambda>services w. (ContextDone, w))\<rparr>"

text \<open>A node with its system disk, which is mounted, and a blank disk of 5 GiB.\<close>

definition sim_node :: "node_sim node_state" where
  "sim_node =
     \<lparr>ext = \<lparr>sm_disks = [(''sda'', ''83886080''), (''sdb'', ''10485760'')],
             sm_formatted = [''/dev/sda''], sm_mounts = [(''/dev/sda'', ''/'')], sm_files = []\<rparr>,
      trace = []\<rparr>"

definition sim_mounter :: realMounter where
  "sim_mounter = newRealMounter [] []"

end
