(* ===== verification/Node_Service.thy ===== *)
theory Node_Service
  imports Driver_Types
begin

text \<open>
  The node service (\<open>internal/driver/node.go\<close>) and the identity service (\<open>identity.go\<close>) over the
  driver's mounter.
\<close>

section \<open>Helpers\<close>

definition device_keys :: "string list" where
  "device_keys =
     [VolumeContextDevicePath, ''morpheus.deviceName'', ''morpheus.device'', ''devicePath'',
      ''deviceName'', ''device'']"

definition normalizeNodeDevicePath :: "string \<Rightarrow> string" where
  "normalizeNodeDevicePath v =
     (let device = TrimSpace v
      in if device = [] then []
         else if HasPrefix device ''/dev/'' then device
         else if list_ex (HasPrefix device) [''sd'', ''vd'', ''xvd'', ''nvme''] then ''/dev/'' @ device
         else device)"

fun device_in :: "string_map \<Rightarrow> string list \<Rightarrow> string option" where
  "device_in m [] = None"
| "device_in m (key # keys) =
     (if TrimSpace (map_get m key) \<noteq> [] then Some (normalizeNodeDevicePath (TrimSpace (map_get m key)))
      else device_in m keys)"

fun devicePath :: "string_map list \<Rightarrow> string" where
  "devicePath [] = []"
| "devicePath (m # ms) =
     (case device_in m device_keys of Some device \<Rightarrow> device | None \<Rightarrow> devicePath ms)"

fun volumeSizeGiB :: "string_map list \<Rightarrow> int64" where
  "volumeSizeGiB [] = 0"
| "volumeSizeGiB (m # ms) =
     (let text = TrimSpace (map_get m VolumeContextSizeGiB); parsed = fst (ParseInt text)
      in if text \<noteq> [] \<and> 0 < sint parsed then parsed else volumeSizeGiB ms)"

definition filesystemType :: "VolumeCapability option \<Rightarrow> string_map \<Rightarrow> string" where
  "filesystemType capability volumeContext =
     (let asked = TrimSpace (case Option.bind capability GetMount of None \<Rightarrow> [] | Some fs \<Rightarrow> fs);
          context = TrimSpace (map_get volumeContext ''csi.storage.k8s.io/fstype'')
      in if asked \<noteq> [] then asked else if context \<noteq> [] then context else ''ext4'')"

definition no_mount :: "VolumeCapability option \<Rightarrow> bool" where
  "no_mount capability \<longleftrightarrow> Option.bind capability GetMount = None"

abbreviation invalid :: "string \<Rightarrow> ('n, 'm, 'a) rpc" where
  "invalid \<equiv> refuse InvalidArgument"

section \<open>Information\<close>

definition Driver_NodeGetInfo :: "('s, 'e, 'n, 'm) Driver \<Rightarrow> string" where
  "Driver_NodeGetInfo d = cfg_NodeID (dr_cfg d)"

datatype node_rpc = STAGE_UNSTAGE_VOLUME | NODE_EXPAND_VOLUME

definition Driver_NodeGetCapabilities :: "node_rpc list" where
  "Driver_NodeGetCapabilities = [STAGE_UNSTAGE_VOLUME, NODE_EXPAND_VOLUME]"

definition Driver_GetPluginInfo :: "('s, 'e, 'n, 'm) Driver \<Rightarrow> string \<times> string" where
  "Driver_GetPluginInfo d = (cfg_DriverName (dr_cfg d), ''dev'')"

datatype plugin_service = CONTROLLER_SERVICE

definition Driver_GetPluginCapabilities :: "plugin_service list" where
  "Driver_GetPluginCapabilities = [CONTROLLER_SERVICE]"

definition Driver_Probe :: bool where
  "Driver_Probe = True"

section \<open>Staging\<close>

definition discovery_message :: string where
  "discovery_message =
     ''Morpheus attach response did not include morpheus.devicePath and node discovery failed after repeated SCSI rescans: %v''"

definition stage_device ::
  "('n, 'm) Mounter \<Rightarrow> NodeStageVolumeRequest \<Rightarrow> ('n, 'm, string) rpc" where
  \<comment> \<open>the device the request names, or else a discovered one\<close>
  "stage_device mounter req =
     (let device = devicePath [ns_publish_context req, ns_volume_context req]
      in if device \<noteq> [] then retE device
         else failing FailedPrecondition (Wrapped discovery_message [])
                (mt_DiscoverDevicePath mounter
                   (volumeSizeGiB [ns_publish_context req, ns_volume_context req])))"

definition Driver_NodeStageVolume ::
  "('s, 'e, 'n, 'm) Driver \<Rightarrow> NodeStageVolumeRequest \<Rightarrow> ('n, 'm, unit) rpc" where
  "Driver_NodeStageVolume d req =
     (let volumeID = TrimSpace (ns_volume_id req);
          stagingPath = TrimSpace (ns_staging_target_path req);
          mounter = dr_mounter d
      in if volumeID = [] then invalid ''volume id is required''
         else if stagingPath = [] then invalid ''staging target path is required''
         else if no_mount (ns_volume_capability req)
         then invalid ''mount volume capability is required''
         else
           bindE (failing Internal
               (Wrapped ''rescan node devices before staging Morpheus volume %q: %v'' [volumeID])
               (mt_RescanDevices mounter)) (\<lambda>_.
           bindE (stage_device mounter req) (\<lambda>device.
           bindE (failing Internal
               (Wrapped ''stage Morpheus volume %q from %s: %v'' [volumeID, device])
               (mt_Stage mounter device stagingPath
                  (filesystemType (ns_volume_capability req) (ns_volume_context req)) False)) (\<lambda>_.
           failing Internal
             (Wrapped ''record staged Morpheus volume %q device %s: %v'' [volumeID, device])
             (mt_RecordStagedDevice mounter volumeID device stagingPath)))))"

definition staged_source ::
  "('n, 'm) Mounter \<Rightarrow> string \<Rightarrow> string \<Rightarrow> ('n, 'm, string) rpc" where
  \<comment> \<open>the device mounted at the staging path, or else the recorded one, or else none\<close>
  "staged_source mounter volumeID stagingPath =
     tryE (mt_MountedSource mounter stagingPath) (\<lambda>r.
       let source = (case r of Inr src \<Rightarrow> src | Inl _ \<Rightarrow> [])
       in if source \<noteq> [] then retE source
          else
            tryE (mt_StagedDevicePath mounter volumeID)
              (\<lambda>r. retE (case r of Inr recorded \<Rightarrow> recorded | Inl _ \<Rightarrow> [])))"

definition Driver_NodeUnstageVolume ::
  "('s, 'e, 'n, 'm) Driver \<Rightarrow> NodeUnstageVolumeRequest \<Rightarrow> ('n, 'm, unit) rpc" where
  "Driver_NodeUnstageVolume d req =
     (let volumeID = TrimSpace (nu_volume_id req);
          stagingPath = TrimSpace (nu_staging_target_path req);
          mounter = dr_mounter d
      in if volumeID = [] then invalid ''volume id is required''
         else if stagingPath = [] then invalid ''staging target path is required''
         else
           bindE (staged_source mounter volumeID stagingPath) (\<lambda>source.
           bindE (failing Internal (Wrapped ''unstage Morpheus volume: %v'' [])
               (mt_Unmount mounter stagingPath)) (\<lambda>_.
             if source = [] then retE ()
             else
               bindE (failing Internal
                   (Wrapped ''remove local Morpheus volume device %q after unstage: %v'' [source])
                   (mt_RemoveDevice mounter source)) (\<lambda>_.
                 failing Internal
                   (Wrapped ''remove staged Morpheus volume metadata for %q: %v'' [volumeID])
                   (mt_ForgetStagedDevice mounter volumeID)))))"

section \<open>Publishing\<close>

definition Driver_NodePublishVolume ::
  "('s, 'e, 'n, 'm) Driver \<Rightarrow> NodePublishVolumeRequest \<Rightarrow> ('n, 'm, unit) rpc" where
  "Driver_NodePublishVolume d req =
     (let stagingPath = TrimSpace (np_staging_target_path req);
          targetPath = TrimSpace (np_target_path req)
      in if TrimSpace (np_volume_id req) = [] then invalid ''volume id is required''
         else if stagingPath = [] then invalid ''staging target path is required''
         else if targetPath = [] then invalid ''target path is required''
         else if no_mount (np_volume_capability req)
         then invalid ''mount volume capability is required''
         else failing Internal (Wrapped ''publish Morpheus volume: %v'' [])
                (mt_BindMount (dr_mounter d) stagingPath targetPath (np_readonly req)))"

definition Driver_NodeUnpublishVolume ::
  "('s, 'e, 'n, 'm) Driver \<Rightarrow> NodeUnpublishVolumeRequest \<Rightarrow> ('n, 'm, unit) rpc" where
  "Driver_NodeUnpublishVolume d req =
     (let targetPath = TrimSpace (nup_target_path req)
      in if TrimSpace (nup_volume_id req) = [] then invalid ''volume id is required''
         else if targetPath = [] then invalid ''target path is required''
         else failing Internal (Wrapped ''unpublish Morpheus volume: %v'' [])
                (mt_Unmount (dr_mounter d) targetPath))"

definition Driver_NodeExpandVolume ::
  "('s, 'e, 'n, 'm) Driver \<Rightarrow> NodeExpandVolumeRequest \<Rightarrow> ('n, 'm, int64) rpc" where
  "Driver_NodeExpandVolume d req =
     (let volumePath = TrimSpace (ne_volume_path req)
      in if TrimSpace (ne_volume_id req) = [] then invalid ''volume id is required''
         else if volumePath = [] then invalid ''volume path is required''
         else if no_mount (ne_volume_capability req)
         then invalid ''mount volume capability is required''
         else
           case requestedSizeGiB (ne_capacity_range req) of
             Inl m \<Rightarrow> invalid m
           | Inr sizeGiB \<Rightarrow>
               bindE (failing Internal
                   (Wrapped ''expand Morpheus volume filesystem at %s: %v'' [volumePath])
                   (mt_ExpandFilesystem (dr_mounter d) volumePath
                      (filesystemType (ne_volume_capability req) Map.empty)))
                 (\<lambda>_. retE (sizeGiB * gibibyte)))"

end
