(* ===== verification/Node_Safety.thy ===== *)
theory Node_Safety
  imports Device_Discovery Simulated_Node Node_Service Driver_Interfaces
begin

text \<open>
  What the node service may do to the disks of its node, whatever the operating system answers.
\<close>

section \<open>Formatting\<close>

definition formats :: "string list \<Rightarrow> bool" where
  "formats cmd \<longleftrightarrow> (\<exists>args. cmd = ''mkfs.ext4'' # args \<or> cmd = ''mkfs.xfs'' # args)"

lemma formats_mkfs [simp]: "mkfs_command fs dev = Some cmd \<Longrightarrow> formats cmd"
  by (auto simp: mkfs_command_def formats_def split: if_splits)

lemma formats_other [simp]: "\<not> formats (blkid dev)" "\<not> formats (mount_command ro dev path)"
  by (simp_all add: formats_def mount_command_def)

lemma waiting_formats: "\<forall>ev \<in> set evs. waiting ev \<Longrightarrow> Ran cmd x \<in> set evs \<Longrightarrow> \<not> formats cmd"
  by (force simp: formats_def)

lemma searching_formats: "\<forall>ev \<in> set evs. searching ev \<Longrightarrow> Ran cmd x \<in> set evs \<Longrightarrow> \<not> formats cmd"
  by (force simp: formats_def)

lemma split_at_mkfs:
  assumes "us @ vs = pre @ Ran cmd x # post" and "formats cmd"
    and "\<And>y. Ran cmd y \<in> set us \<Longrightarrow> \<not> formats cmd"
  obtains pre' where "pre = us @ pre'" "vs = pre' @ Ran cmd x # post"
proof -
  from assms(2,3) have "Ran cmd x \<notin> set us" by blast
  with assms(1) show thesis by (auto simp: append_eq_append_conv2 append_eq_Cons_conv intro: that)
qed

lemma stage_steps_mkfs:
  assumes "stage_steps dev path fs ro mounted evs r" and "evs = pre @ Ran cmd x # post" "formats cmd"
  shows "mounted = Inr False \<and> \<not> ro \<and> mkfs_command fs dev = Some cmd
    \<and> (\<exists>out. pre = [Ran (blkid dev) (Exited out)])
    \<and> (if is_done x then \<exists>y. post = [Ran (mount_command ro dev path) y] else post = [] \<and> r = Inl (ECommand cmd))"
  using assms
  by (cases rule: stage_steps.cases) (auto simp: append_eq_Cons_conv Cons_eq_append_conv)

lemma Stage_formats_split:
  assumes run: "Mounter_Stage os dev path fs ro s = (r, s')"
    and evs: "trace s' = trace s @ pre @ Ran cmd x # post" and mkfs: "formats cmd"
  shows "\<not> ro \<and> mkfs_command fs dev = Some cmd
    \<and> (\<exists>waits out t. pre = waits @ [MadeDir path True, Ran (blkid dev) (Exited out)]
         \<and> trace t = trace s @ waits @ [MadeDir path True] \<and> isMounted os path t = (Inr False, t))
    \<and> (if is_done x then \<exists>y. post = [Ran (mount_command ro dev path) y] else post = [] \<and> r = Inl (ECommand cmd))"
  using run
proof (cases rule: Mounter_Stage_steps)
  case (lost waits e)
  with evs have "Ran cmd x \<in> set waits" by simp
  with lost mkfs waiting_formats show ?thesis by blast
next
  case (directory waits)
  with evs have "waits @ [MadeDir path False] = pre @ Ran cmd x # post" by simp
  moreover have "Ran cmd y \<in> set waits \<Longrightarrow> \<not> formats cmd" for y
    using directory(2) by (rule waiting_formats)
  ultimately show ?thesis
    using mkfs by (auto elim!: split_at_mkfs simp: append_eq_Cons_conv Cons_eq_append_conv)
next
  case (steps waits t mounted evs')
  with evs have "(waits @ [MadeDir path True]) @ evs' = pre @ Ran cmd x # post" by simp
  moreover note mkfs
  moreover have "Ran cmd y \<in> set (waits @ [MadeDir path True]) \<Longrightarrow> \<not> formats cmd" for y
    using waiting_formats [OF steps(2)] by auto
  ultimately obtain pre' where pre: "pre = (waits @ [MadeDir path True]) @ pre'"
    and evs': "evs' = pre' @ Ran cmd x # post" by (rule split_at_mkfs)
  from stage_steps_mkfs [OF steps(5) evs' mkfs] steps pre show ?thesis by auto
qed

text \<open>
  C27: staging formats a device only for writing, only when the mount table does not have the staging
  path, and immediately after \<open>blkid\<close> has ended with an error status on that same device; then
  it runs the \<open>mkfs\<close> command of the file system type on that device and, if this succeeds, one
  \<open>mount\<close> as its last command.
\<close>

theorem Stage_formats_only_blank:
  assumes run: "Mounter_Stage os dev path fs ro s = (r, s')"
    and evs: "trace s' = trace s @ pre @ Ran cmd x # post" and mkfs: "formats cmd"
  shows "\<not> ro \<and> mkfs_command fs dev = Some cmd
    \<and> (\<exists>waits out t. pre = waits @ [MadeDir path True, Ran (blkid dev) (Exited out)]
         \<and> trace t = trace s @ waits @ [MadeDir path True] \<and> isMounted os path t = (Inr False, t))
    \<and> (if is_done x then \<exists>y. post = [Ran (mount_command ro dev path) y] else post = [] \<and> r = Inl (ECommand cmd))"
  using run evs mkfs by (rule Stage_formats_split)

lemma sim_stage_run:
  "case Mounter_Stage sim_os ''/dev/sdb'' ''/stg'' ''xfs'' False sim_node of
     (r, s) \<Rightarrow> r = Inr () \<and> trace s =
       [MadeDir ''/stg'' True, Ran (blkid ''/dev/sdb'') (Exited [])]
       @ Ran [''mkfs.xfs'', ''-f'', ''/dev/sdb''] (Done []) # [Ran [''mount'', ''/dev/sdb'', ''/stg''] (Done [])]"
  by code_simp

theorem Stage_formats_only_blank_witness:
  "\<exists>waits out t. [MadeDir ''/stg'' True, Ran (blkid ''/dev/sdb'') (Exited [])]
       = waits @ [MadeDir ''/stg'' True, Ran (blkid ''/dev/sdb'') (Exited out)]
     \<and> isMounted sim_os ''/stg'' t = (Inr False, t)"
proof -
  obtain s' where run: "Mounter_Stage sim_os ''/dev/sdb'' ''/stg'' ''xfs'' False sim_node = (Inr (), s')"
    and trace: "trace s' = [MadeDir ''/stg'' True, Ran (blkid ''/dev/sdb'') (Exited [])]
       @ Ran [''mkfs.xfs'', ''-f'', ''/dev/sdb''] (Done []) # [Ran [''mount'', ''/dev/sdb'', ''/stg''] (Done [])]"
    using sim_stage_run by (auto split: prod.splits)
  have "trace sim_node = []" by (simp add: sim_node_def)
  with trace have evs: "trace s' = trace sim_node @ [MadeDir ''/stg'' True, Ran (blkid ''/dev/sdb'') (Exited [])]
       @ Ran [''mkfs.xfs'', ''-f'', ''/dev/sdb''] (Done []) # [Ran [''mount'', ''/dev/sdb'', ''/stg''] (Done [])]"
    by simp
  have "formats [''mkfs.xfs'', ''-f'', ''/dev/sdb'']" by (simp add: formats_def)
  from Stage_formats_only_blank [OF run evs this] show ?thesis by blast
qed

text \<open>
  C29: a staging that succeeds has found the path in the mount table after making it, and run
  nothing else, or its last command was a successful \<open>mount\<close> of the device at the path.
\<close>

theorem Stage_success:
  assumes "Mounter_Stage os dev path fs ro s = (Inr (), s')" and "trace s' = trace s @ evs"
  shows "(\<exists>waits t. evs = waits @ [MadeDir path True] \<and> trace t = trace s @ evs
      \<and> isMounted os path t = (Inr True, t))
    \<or> (\<exists>before out. evs = before @ [Ran (mount_command ro dev path) (Done out)])"
  using assms(1)
proof (cases rule: Mounter_Stage_steps)
  case (steps waits t mounted evs')
  with assms(2) have evs: "evs = waits @ [MadeDir path True] @ evs'" by simp
  have finished: "is_done x \<Longrightarrow> \<exists>out. x = Done out" for x by (cases x) auto
  from steps(5) show ?thesis
    by (cases rule: stage_steps.cases)
      (use steps evs finished in \<open>auto simp: append_eq_append_conv2 split: if_splits\<close>)
qed auto

theorem Stage_success_witness:
  "\<exists>s' evs. Mounter_Stage sim_os ''/dev/sdb'' ''/stg'' ''xfs'' False sim_node = (Inr (), s')
     \<and> trace s' = trace sim_node @ evs
     \<and> (\<exists>before out. evs = before @ [Ran (mount_command False ''/dev/sdb'' ''/stg'') (Done out)])"
proof -
  obtain s' where run: "Mounter_Stage sim_os ''/dev/sdb'' ''/stg'' ''xfs'' False sim_node = (Inr (), s')"
    and trace: "trace s' = [MadeDir ''/stg'' True, Ran (blkid ''/dev/sdb'') (Exited []),
       Ran [''mkfs.xfs'', ''-f'', ''/dev/sdb''] (Done []), Ran [''mount'', ''/dev/sdb'', ''/stg''] (Done [])]"
    using sim_stage_run by (auto split: prod.splits)
  have "trace sim_node = []" by (simp add: sim_node_def)
  with trace have "trace s' = trace sim_node @ trace s'" by simp
  from Stage_success [OF run this] trace run \<open>trace sim_node = []\<close> show ?thesis by auto
qed

section \<open>Discovering\<close>

text \<open>
  C28: a discovered device is the only candidate there is: at some moment the classification, which ran
  \<open>blkid\<close> on every entry of \<open>/sys/block\<close> that is a directory, is not skipped, has no
  partitions, has the size asked for and is not mounted, gave it as the only device without a
  file system, or, for a known size only, as the only device with one when there was none without.
\<close>

theorem DiscoverDevicePath_single:
  fixes os :: "'w NodeOS"
  assumes run: "Mounter_DiscoverDevicePath os sz s = (Inr d, s')"
  shows "\<exists>(t :: 'w node_state) es picks name x. os_ReadDir os sysBlockRoot (ext t) = Some es \<and> examined os sz es picks
    \<and> trace s' = trace t @ blkid_events picks
    \<and> (name, x, d) \<in> set picks \<and> (name, True) \<in> set es \<and> eligible os sz (name, True)
    \<and> (blank_picks picks = [d] \<or> blank_picks picks = [] \<and> formatted_picks picks = [d] \<and> 0 < sint sz)"
proof -
  obtain t unf fmt where cl: "classifyBlockDevices os sz t = (Inr (unf, fmt), s')"
    and choice: "choose_device sz unf fmt = Some (Inr d)"
    using DiscoverDevicePath_loop_Inr [of os sz 0 None s d s'] run
    by (auto simp: Mounter_DiscoverDevicePath_def)
  from cl obtain es picks where picks: "os_ReadDir os sysBlockRoot (ext t) = Some es" "examined os sz es picks"
    "trace s' = trace t @ blkid_events picks"
    and lists: "unf = sort (blank_picks picks)" "fmt = sort (formatted_picks picks)"
    by (rule classifyBlockDevices_steps)
  have single: "blank_picks picks = [d] \<or> blank_picks picks = [] \<and> formatted_picks picks = [d] \<and> 0 < sint sz"
    using choice unfolding choose_device_Inr lists sort_single
    by (metis length_0_conv length_sort)
  then have "d \<in> set (blank_picks picks) \<union> set (formatted_picks picks)" by auto
  then obtain name x where pick: "(name, x, d) \<in> set picks"
    by (auto simp: blank_picks_def formatted_picks_def)
  from examined_eligible [OF picks(2) this] picks pick single show ?thesis by blast
qed

lemma DiscoverDevicePath_at_once:
  assumes "classifyBlockDevices os sz s = (Inr (unformatted, formatted), s')"
    and "choose_device sz unformatted formatted = Some (Inr d)"
  shows "Mounter_DiscoverDevicePath os sz s = (Inr d, s')"
  unfolding Mounter_DiscoverDevicePath_def DiscoverDevicePath_loop.simps [of os sz 0 None]
  using assms by (simp add: deviceDiscoveryAttempts_def)

lemma sim_classifies: "fst (classifyBlockDevices sim_os 0 sim_node) = Inr ([''/dev/sdb''], [])"
  by code_simp

lemma sim_discovers: "fst (Mounter_DiscoverDevicePath sim_os 0 sim_node) = Inr ''/dev/sdb''"
proof -
  obtain s' where "classifyBlockDevices sim_os 0 sim_node = (Inr ([''/dev/sdb''], []), s')"
    using sim_classifies by (metis prod.collapse)
  then show ?thesis by (simp add: DiscoverDevicePath_at_once choose_device_def)
qed

theorem DiscoverDevicePath_single_witness:
  "\<exists>name. eligible sim_os 0 (name, True)
     \<and> fst (Mounter_DiscoverDevicePath sim_os 0 sim_node) = Inr ''/dev/sdb''"
proof -
  obtain s' where "Mounter_DiscoverDevicePath sim_os 0 sim_node = (Inr ''/dev/sdb'', s')"
    using sim_discovers by (metis prod.collapse)
  from DiscoverDevicePath_single [OF this] sim_discovers show ?thesis by blast
qed

section \<open>Removing\<close>

lemma removable_name:
  assumes "removableBlockDeviceName os w path = Inr name"
  shows "name = Base (resolveDevicePath os w (TrimSpace path)) \<and> name \<notin> {''.'', ''/''}
    \<and> \<not> skipBlockDevice name \<and> \<not> hasPartitions os w name
    \<and> os_Stat os (Join [sysBlockRoot, name, ''partition'']) w \<noteq> Found ()
    \<and> (resolveDevicePath os w (TrimSpace path) = ''/dev''
         \<or> HasPrefix (resolveDevicePath os w (TrimSpace path)) ''/dev/'')"
proof -
  have "Clean devRoot = ''/dev''" by (simp add: devRoot_def) code_simp
  then show ?thesis
    using assms unfolding removableBlockDeviceName_def Let_def by (auto split: if_splits)
qed

text \<open>
  C7: the only file the removal of a device writes is the \<open>delete\<close> file of one block device, the base
  name of what the path resolves to below \<open>/dev\<close>; that device is of no skipped kind, is no
  partition and has none, and neither it nor a partition of it is in the mount table.
\<close>

theorem RemoveDevice_writes_idle_disk_only:
  assumes run: "Mounter_RemoveDevice os path s = (r, s')" and evs: "trace s' = trace s @ evs"
    and wrote: "Wrote file data ok \<in> set evs"
  shows "\<exists>name. file = delete_path name \<and> data = ''1'' @ [CHR 0x0A]
    \<and> name = Base (resolveDevicePath os (ext s) (TrimSpace path))
    \<and> (resolveDevicePath os (ext s) (TrimSpace path) = ''/dev''
         \<or> HasPrefix (resolveDevicePath os (ext s) (TrimSpace path)) ''/dev/'')
    \<and> name \<notin> {''.'', ''/''} \<and> \<not> skipBlockDevice name \<and> \<not> hasPartitions os (ext s) name
    \<and> os_Stat os (Join [sysBlockRoot, name, ''partition'']) (ext s) \<noteq> Found ()
    \<and> isBlockDeviceMounted os name s = (Inr False, s)"
  using run
proof (cases rule: Mounter_RemoveDevice_steps)
  case quiet
  with evs wrote show ?thesis by simp
next
  case (delete name ok' settle)
  with evs have "evs = Wrote (delete_path name) (''1'' @ [CHR 0x0A]) ok' # settle" by simp
  with wrote delete(5) have "file = delete_path name" "data = ''1'' @ [CHR 0x0A]" by auto
  with removable_name [OF delete(1)] delete(2) show ?thesis by blast
qed

lemma sim_remove_run:
  "case Mounter_RemoveDevice sim_os ''/dev/sdb'' sim_node of
     (r, s) \<Rightarrow> r = Inr () \<and> trace s = [Wrote ''/sys/block/sdb/device/delete'' (''1'' @ [CHR 0x0A]) True,
       Ran [''udevadm'', ''settle''] (Done [])]"
  by code_simp

theorem RemoveDevice_writes_idle_disk_only_witness:
  "\<exists>name. ''/sys/block/sdb/device/delete'' = delete_path name
     \<and> isBlockDeviceMounted sim_os name sim_node = (Inr False, sim_node)"
proof -
  obtain s' where run: "Mounter_RemoveDevice sim_os ''/dev/sdb'' sim_node = (Inr (), s')"
    and trace: "trace s' = trace sim_node @ [Wrote ''/sys/block/sdb/device/delete'' (''1'' @ [CHR 0x0A]) True,
       Ran [''udevadm'', ''settle''] (Done [])]"
    using sim_remove_run by (auto simp: sim_node_def split: prod.splits)
  from RemoveDevice_writes_idle_disk_only [OF run trace, of "''/sys/block/sdb/device/delete''"]
  show ?thesis by fastforce
qed

section \<open>Staging a volume\<close>

lemma real_mounter_simps [simp]:
  "mt_Stage (real_mounter os m) = Mounter_Stage os"
  "mt_BindMount (real_mounter os m) = Mounter_BindMount os"
  "mt_MountedSource (real_mounter os m) = mountedSource os"
  "mt_Unmount (real_mounter os m) = Mounter_Unmount os"
  "mt_ExpandFilesystem (real_mounter os m) = Mounter_ExpandFilesystem os"
  "mt_RescanDevices (real_mounter os m) = rescanDevices os"
  "mt_DiscoverDevicePath (real_mounter os m) = Mounter_DiscoverDevicePath os"
  "mt_RemoveDevice (real_mounter os m) = Mounter_RemoveDevice os"
  "mt_RecordStagedDevice (real_mounter os m) = Mounter_RecordStagedDevice os m"
  "mt_StagedDevicePath (real_mounter os m) = Mounter_StagedDevicePath os m"
  "mt_ForgetStagedDevice (real_mounter os m) = Mounter_ForgetStagedDevice os m"
  by (simp_all add: real_mounter_def)

definition stage_maps :: "NodeStageVolumeRequest \<Rightarrow> string_map list" where
  "stage_maps req = [ns_publish_context req, ns_volume_context req]"

definition stage_fs :: "NodeStageVolumeRequest \<Rightarrow> string" where
  "stage_fs req = filesystemType (ns_volume_capability req) (ns_volume_context req)"

text \<open>Where the staged device comes from: the request, or else a discovery.\<close>

definition device_origin :: "'w NodeOS \<Rightarrow> NodeStageVolumeRequest \<Rightarrow> string \<Rightarrow> bool" where
  "device_origin os req dev \<longleftrightarrow>
     (if devicePath (stage_maps req) \<noteq> [] then dev = devicePath (stage_maps req)
      else \<exists>t t'. Mounter_DiscoverDevicePath os (volumeSizeGiB (stage_maps req)) t = (Inr dev, t'))"

lemma stage_device_origin:
  "stage_device (real_mounter os m) req s = (Inr dev, s') \<Longrightarrow> device_origin os req dev"
  by (auto simp: stage_device_def device_origin_def stage_maps_def Let_def failing_Inr split: if_splits)

lemma emits_stage_device [emits_intros]: "emits searching (stage_device (real_mounter os m) req)"
  by (auto simp: stage_device_def Let_def intro!: emits_intros)

lemma NodeStage_steps:
  fixes os :: "'w NodeOS"
  assumes mounter: "dr_mounter d = real_mounter os m"
    and run: "Driver_NodeStageVolume d req s = (r, s')"
  obtains (early) search e where "trace s' = trace s @ search" "\<forall>ev \<in> set search. searching ev" "r = Inl e"
  | (staged) search dev t u q where "trace t = trace s @ search" "\<forall>ev \<in> set search. searching ev"
      "device_origin os req dev"
      "Mounter_Stage os dev (TrimSpace (ns_staging_target_path req)) (stage_fs req) False t = (q, u)"
      "case q of Inl e \<Rightarrow> s' = u \<and> isl r
       | Inr _ \<Rightarrow> \<exists>p. Mounter_RecordStagedDevice os m (TrimSpace (ns_volume_id req)) dev
                    (TrimSpace (ns_staging_target_path req)) u = (p, s') \<and> (r = Inr () \<longleftrightarrow> p = Inr ())"
proof -
  let ?path = "TrimSpace (ns_staging_target_path req)" and ?id = "TrimSpace (ns_volume_id req)"
  let ?mounter = "real_mounter os m"
  let ?f = "Wrapped ''rescan node devices before staging Morpheus volume %q: %v'' [?id]"
  let ?g = "\<lambda>device. Wrapped ''stage Morpheus volume %q from %s: %v'' [?id, device]"
  let ?h = "\<lambda>device. Wrapped ''record staged Morpheus volume %q device %s: %v'' [?id, device]"
  let ?recorded = "\<lambda>device. failing Internal (?h device) (Mounter_RecordStagedDevice os m ?id device ?path)"
  let ?rest = "bindE (stage_device ?mounter req) (\<lambda>device.
        bindE (failing Internal (?g device) (Mounter_Stage os device ?path (stage_fs req) False))
          (\<lambda>_. ?recorded device))"
  consider (refused) m where "Driver_NodeStageVolume d req = refuse InvalidArgument m"
    | (goes) "Driver_NodeStageVolume d req = bindE (failing Internal ?f (rescanDevices os)) (\<lambda>_. ?rest)"
    unfolding Driver_NodeStageVolume_def Let_def stage_fs_def mounter real_mounter_simps
    by (cases "?id = []"; cases "?path = []"; cases "no_mount (ns_volume_capability req)")
      (simp_all only: if_True if_False, auto)
  then show thesis
  proof cases
    case refused
    with run that(1) [of "[]"] show thesis by auto
  next
    case goes
    show thesis
    proof (rule bindE_cases [OF run [unfolded goes]])
      fix e assume fails: "failing Internal ?f (rescanDevices os) s = (Inl e, s')" "r = Inl e"
      obtain as where "trace s' = trace s @ as" "\<forall>ev \<in> set as. searching ev"
        using emits_failing [OF emits_searching(2)] fails(1) by (rule emitsD)
      then show thesis using fails(2) by (rule that(1))
    next
      fix u1 t1
      assume rescan: "failing Internal ?f (rescanDevices os) s = (Inr u1, t1)"
        and rest: "?rest t1 = (r, s')"
      obtain as where as: "trace t1 = trace s @ as" "\<forall>ev \<in> set as. searching ev"
        using emits_failing [OF emits_searching(2)] rescan by (rule emitsD)
      from rest show thesis
      proof (cases rule: bindE_cases)
        case (fails e)
        obtain bs where "trace s' = trace t1 @ bs" "\<forall>ev \<in> set bs. searching ev"
          using emits_stage_device fails(1) by (rule emitsD)
        with as fails that(1) [of "as @ bs"] show thesis by auto
      next
        case (goes_on dev t)
        obtain bs where bs: "trace t = trace t1 @ bs" "\<forall>ev \<in> set bs. searching ev"
          using emits_stage_device goes_on(1) by (rule emitsD)
        obtain q u where q: "Mounter_Stage os dev ?path (stage_fs req) False t = (q, u)"
          by (cases "Mounter_Stage os dev ?path (stage_fs req) False t")
        have "case q of Inl e \<Rightarrow> s' = u \<and> isl r
          | Inr _ \<Rightarrow> \<exists>p. Mounter_RecordStagedDevice os m ?id dev ?path u = (p, s') \<and> (r = Inr () \<longleftrightarrow> p = Inr ())"
        proof (cases q)
          case (Inl e)
          with goes_on(2) q show ?thesis by (auto simp: failing_def wrap_error_def bindE_eq)
        next
          case (Inr x)
          with goes_on(2) q have "?recorded dev u = (r, s')" by (simp add: failing_def wrap_error_def bindE_eq)
          then show ?thesis using Inr
            by (auto simp: failing_def wrap_error_def split: prod.splits sum.splits)
        qed
        with as bs q stage_device_origin [OF goes_on(1)] that(2) [of t "as @ bs" dev q u]
        show thesis by auto
      qed
    qed
  qed
qed

lemma record_steps_formats:
  "record_steps dir path evs r \<Longrightarrow> Ran cmd x \<notin> set evs"
  by (cases rule: record_steps.cases) auto

lemma Mounter_Stage_trace:
  assumes "Mounter_Stage os dev path fs ro s = (r, s')"
  obtains evs where "trace s' = trace s @ evs"
  using assms by (cases rule: Mounter_Stage_steps) auto

text \<open>
  C4: whatever the operating system answers, the only device a NodeStageVolume call formats is the one
  the request names or, if it names none, a discovered one; it formats it with the file system
  type of the request, immediately after \<open>blkid\<close> has ended with an error status on it.
\<close>

theorem NodeStageVolume_formats_only_blank:
  assumes mounter: "dr_mounter d = real_mounter os m"
    and run: "Driver_NodeStageVolume d req s = (r, s')"
    and evs: "trace s' = trace s @ pre @ Ran cmd x # post" and mkfs: "formats cmd"
  shows "\<exists>dev before out. device_origin os req dev \<and> mkfs_command (stage_fs req) dev = Some cmd
    \<and> pre = before @ [Ran (blkid dev) (Exited out)]"
  using mounter run
proof (cases rule: NodeStage_steps)
  case (early search e)
  with evs have "Ran cmd x \<in> set search" by simp
  with early(2) mkfs searching_formats show ?thesis by blast
next
  case (staged search dev t u q)
  let ?path = "TrimSpace (ns_staging_target_path req)"
  obtain stage where stage: "trace u = trace t @ stage" using staged(4) by (rule Mounter_Stage_trace)
  obtain recorded where recorded: "trace s' = trace u @ recorded" "\<And>y. Ran cmd y \<notin> set recorded"
  proof (cases q)
    case (Inl e)
    with staged(5) that [of "[]"] show thesis by simp
  next
    case (Inr y)
    with staged(5) that show thesis
      by (auto elim!: Mounter_RecordStagedDevice_steps dest: record_steps_formats)
  qed
  from evs staged(1) stage recorded have "search @ (stage @ recorded) = pre @ Ran cmd x # post" by simp
  moreover note mkfs
  moreover have "Ran cmd y \<in> set search \<Longrightarrow> \<not> formats cmd" for y
    using staged(2) by (rule searching_formats)
  ultimately obtain pre' where pre: "pre = search @ pre'" and eq: "stage @ recorded = pre' @ Ran cmd x # post"
    by (rule split_at_mkfs)
  from eq recorded(2) [of x] obtain post' where "stage = pre' @ Ran cmd x # post'"
    by (auto simp: append_eq_append_conv2 append_eq_Cons_conv Cons_eq_append_conv)
  with stage have "trace u = trace t @ pre' @ Ran cmd x # post'" by simp
  from Stage_formats_split [OF staged(4) this mkfs] staged(3) pre show ?thesis by auto
qed

text \<open>
  C14: a NodeStageVolume call that succeeds has staged the device the request names or a discovered
  one, and then recorded it: its last steps write the metadata to a temporary file and rename
  that file to the volume's metadata path.
\<close>

theorem NodeStageVolume_success:
  fixes os :: "'w NodeOS"
  assumes mounter: "dr_mounter d = real_mounter os m"
    and run: "Driver_NodeStageVolume d req s = (Inr (), s')" and evs: "trace s' = trace s @ evs"
  shows "\<exists>(t :: 'w node_state) u search stage dev data.
    (let path = stagedDeviceMetadataPath m (TrimSpace (ns_volume_id req))
     in evs = search @ stage @ [MadeDir (stagedDeviceMetadataDir m) True,
          Wrote (path @ ''.tmp'') data True, Renamed (path @ ''.tmp'') path True]
      \<and> (\<forall>ev \<in> set search. searching ev) \<and> device_origin os req dev
      \<and> trace t = trace s @ search \<and> trace u = trace t @ stage
      \<and> Mounter_Stage os dev (TrimSpace (ns_staging_target_path req)) (stage_fs req) False t = (Inr (), u))"
  using mounter run
proof (cases rule: NodeStage_steps)
  case (staged search dev t u q)
  from staged(5) have q: "q = Inr ()" by (cases q) auto
  with staged(5) have record': "Mounter_RecordStagedDevice os m (TrimSpace (ns_volume_id req)) dev
                    (TrimSpace (ns_staging_target_path req)) u = (Inr (), s')"
    by auto
  obtain recorded where recorded: "trace s' = trace u @ recorded"
    "record_steps (stagedDeviceMetadataDir m) (stagedDeviceMetadataPath m (TrimSpace (ns_volume_id req)))
       recorded (Inr ())"
    using record' by (rule Mounter_RecordStagedDevice_steps)
  obtain stage where stage: "trace u = trace t @ stage" using staged(4) by (rule Mounter_Stage_trace)
  from recorded(2) obtain data where "recorded = [MadeDir (stagedDeviceMetadataDir m) True,
      Wrote (stagedDeviceMetadataPath m (TrimSpace (ns_volume_id req)) @ ''.tmp'') data True,
      Renamed (stagedDeviceMetadataPath m (TrimSpace (ns_volume_id req)) @ ''.tmp'')
        (stagedDeviceMetadataPath m (TrimSpace (ns_volume_id req))) True]"
    by (cases rule: record_steps.cases) (auto split: if_splits)
  with evs staged recorded(1) stage q show ?thesis
    by (intro exI [of _ t] exI [of _ u] exI [of _ search] exI [of _ stage] exI [of _ dev] exI [of _ data])
      (simp add: Let_def)
qed simp

text \<open>A call on the simulated node: the request names the blank disk.\<close>

definition sim_node_driver :: "(unit, unit, node_sim node_state, mount_error) Driver" where
  "sim_node_driver =
     \<lparr>dr_cfg = Default, dr_volumes = None, dr_discovery = None,
      dr_mounter = real_mounter sim_os sim_mounter, dr_nodes = None\<rparr>"

definition sim_stage :: NodeStageVolumeRequest where
  "sim_stage =
     \<lparr>ns_volume_id = ''12:77'', ns_publish_context = [VolumeContextDevicePath \<mapsto> ''sdb''],
      ns_staging_target_path = ''/stg'',
      ns_volume_capability =
        Some \<lparr>vc_access_type = MountVolume ''xfs'', vc_access_mode = Some AM_SINGLE_NODE_WRITER\<rparr>,
      ns_volume_context = Map.empty\<rparr>"

lemma sim_stage_parts:
  "TrimSpace ''12:77'' = ''12:77''" "TrimSpace ''/stg'' = ''/stg''" "TrimSpace ''/dev/sdb'' = ''/dev/sdb''"
  "devicePath [ns_publish_context sim_stage, ns_volume_context sim_stage] = ''/dev/sdb''"
  "filesystemType (ns_volume_capability sim_stage) (ns_volume_context sim_stage) = ''xfs''"
  "no_mount (ns_volume_capability sim_stage) = False"
  by code_simp+

lemma sim_record:
  assumes "TrimSpace v \<noteq> []" "TrimSpace dev \<noteq> []" "TrimSpace p \<noteq> []"
  shows "fst (Mounter_RecordStagedDevice sim_os m v dev p s) = Inr ()"
  using assms
  by (simp add: Mounter_RecordStagedDevice_def make_dir_def write_file_def rename_file_def sim_os_def
      sim_write_def sim_rename_def bindE_eq Let_def)

lemma sim_rescan_stage:
  "case rescanDevices sim_os sim_node of (q, t) \<Rightarrow> q = Inr () \<and>
     (case Mounter_Stage sim_os ''/dev/sdb'' ''/stg'' ''xfs'' False t of (q', u) \<Rightarrow> q' = Inr () \<and>
        trace u =
          [Wrote ''/sys/class/scsi_host/host0/scan'' (''- - -'' @ [CHR 0x0A]) True,
           Ran [''udevadm'', ''settle''] (Done []), MadeDir ''/stg'' True,
           Ran (blkid ''/dev/sdb'') (Exited [])]
          @ Ran [''mkfs.xfs'', ''-f'', ''/dev/sdb''] (Done []) # [Ran [''mount'', ''/dev/sdb'', ''/stg''] (Done [])])"
  by code_simp

lemma sim_stage_succeeds:
  obtains s' post where "Driver_NodeStageVolume sim_node_driver sim_stage sim_node = (Inr (), s')"
    and "trace s' = trace sim_node @
      [Wrote ''/sys/class/scsi_host/host0/scan'' (''- - -'' @ [CHR 0x0A]) True,
       Ran [''udevadm'', ''settle''] (Done []), MadeDir ''/stg'' True, Ran (blkid ''/dev/sdb'') (Exited [])]
      @ Ran [''mkfs.xfs'', ''-f'', ''/dev/sdb''] (Done []) # post"
proof -
  obtain t u where t: "rescanDevices sim_os sim_node = (Inr (), t)"
    and u: "Mounter_Stage sim_os ''/dev/sdb'' ''/stg'' ''xfs'' False t = (Inr (), u)"
    and trace: "trace u =
          [Wrote ''/sys/class/scsi_host/host0/scan'' (''- - -'' @ [CHR 0x0A]) True,
           Ran [''udevadm'', ''settle''] (Done []), MadeDir ''/stg'' True,
           Ran (blkid ''/dev/sdb'') (Exited [])]
          @ Ran [''mkfs.xfs'', ''-f'', ''/dev/sdb''] (Done []) # [Ran [''mount'', ''/dev/sdb'', ''/stg''] (Done [])]"
    using sim_rescan_stage by (auto split: prod.splits)
  have "fst (Mounter_RecordStagedDevice sim_os sim_mounter ''12:77'' ''/dev/sdb'' ''/stg'' u) = Inr ()"
    by (rule sim_record) (simp_all add: sim_stage_parts)
  then obtain s' where s':
    "Mounter_RecordStagedDevice sim_os sim_mounter ''12:77'' ''/dev/sdb'' ''/stg'' u = (Inr (), s')"
    by (metis prod.collapse)
  then obtain rest where rest: "trace s' = trace u @ rest" by (rule Mounter_RecordStagedDevice_steps)
  have "ns_volume_id sim_stage = ''12:77''" "ns_staging_target_path sim_stage = ''/stg''"
    by (simp_all add: sim_stage_def)
  moreover have "stage_device mounter sim_stage = retE ''/dev/sdb''"
    for mounter :: "(node_sim node_state, mount_error) Mounter"
    by (simp only: stage_device_def sim_stage_parts Let_def) simp
  ultimately have "Driver_NodeStageVolume sim_node_driver sim_stage sim_node = (Inr (), s')"
    using t u s'
    by (simp add: Driver_NodeStageVolume_def sim_node_driver_def sim_stage_parts failing_def Let_def)
  then show thesis using that trace rest by (auto simp: sim_node_def)
qed

theorem NodeStageVolume_formats_only_blank_witness:
  "\<exists>dev. mkfs_command (stage_fs sim_stage) dev = Some [''mkfs.xfs'', ''-f'', ''/dev/sdb'']
     \<and> device_origin sim_os sim_stage dev"
proof -
  obtain s' post where run: "Driver_NodeStageVolume sim_node_driver sim_stage sim_node = (Inr (), s')"
    and evs: "trace s' = trace sim_node @
      [Wrote ''/sys/class/scsi_host/host0/scan'' (''- - -'' @ [CHR 0x0A]) True,
       Ran [''udevadm'', ''settle''] (Done []), MadeDir ''/stg'' True, Ran (blkid ''/dev/sdb'') (Exited [])]
      @ Ran [''mkfs.xfs'', ''-f'', ''/dev/sdb''] (Done []) # post"
    by (rule sim_stage_succeeds)
  have "dr_mounter sim_node_driver = real_mounter sim_os sim_mounter"
    "formats [''mkfs.xfs'', ''-f'', ''/dev/sdb'']" by (simp_all add: sim_node_driver_def formats_def)
  from NodeStageVolume_formats_only_blank [OF this(1) run evs this(2)] show ?thesis by blast
qed

theorem NodeStageVolume_success_witness:
  "\<exists>s' data. Driver_NodeStageVolume sim_node_driver sim_stage sim_node = (Inr (), s')
     \<and> Wrote (stagedDeviceMetadataPath sim_mounter ''12:77'' @ ''.tmp'') data True \<in> set (trace s')"
proof -
  obtain s' post where run: "Driver_NodeStageVolume sim_node_driver sim_stage sim_node = (Inr (), s')"
    by (rule sim_stage_succeeds)
  have mounter: "dr_mounter sim_node_driver = real_mounter sim_os sim_mounter"
    by (simp add: sim_node_driver_def)
  have evs: "trace s' = trace sim_node @ trace s'" by (simp add: sim_node_def)
  have "TrimSpace (ns_volume_id sim_stage) = ''12:77''" by (simp add: sim_stage_def sim_stage_parts)
  with NodeStageVolume_success [OF mounter run evs] run show ?thesis
    by (auto simp: Let_def intro!: exI [of _ s'])
qed

end
