(* ===== verification/Node_Lifecycle.thy ===== *)
theory Node_Lifecycle
  imports Node_Safety
begin

text \<open>
  Unstaging, the time staging takes, and the refusals of the node service.
\<close>

section \<open>Unstaging a volume\<close>

definition findmnt :: "string \<Rightarrow> string list" where
  "findmnt path = [''findmnt'', ''-n'', ''-o'', ''SOURCE'', ''--target'', path]"

lemma staged_source_cases:
  assumes "staged_source (real_mounter os m) volumeID path s = (r, s')"
  obtains x source where "trace s' = trace s @ [Ran (findmnt path) x]" "r = Inr source"
    "source = [] \<or> (\<exists>t. mountedSource os path s = (Inr source, s'))
       \<or> Mounter_StagedDevicePath os m volumeID s' = (Inr source, s')"
proof -
  from assms obtain q t where q: "mountedSource os path s = (q, t)"
    and rest: "(let source = (case q of Inr src \<Rightarrow> src | Inl _ \<Rightarrow> [])
       in if source \<noteq> [] then retE source
          else tryE (Mounter_StagedDevicePath os m volumeID)
              (\<lambda>r. retE (case r of Inr recorded \<Rightarrow> recorded | Inl _ \<Rightarrow> []))) t = (r, s')"
    unfolding staged_source_def real_mounter_simps by (rule tryE_cases)
  obtain x where x: "trace t = trace s @ [Ran (findmnt path) x]"
    using q unfolding findmnt_def by (rule mountedSource_steps)
  show thesis
  proof (cases "\<exists>src. q = Inr src \<and> src \<noteq> []")
    case True
    with q rest x that show thesis by auto
  next
    case False
    with rest have "tryE (Mounter_StagedDevicePath os m volumeID)
              (\<lambda>r. retE (case r of Inr recorded \<Rightarrow> recorded | Inl _ \<Rightarrow> [])) t = (r, s')"
      by (cases q) (auto simp: Let_def)
    then obtain p where p: "Mounter_StagedDevicePath os m volumeID t = (p, s')"
      "r = Inr (case p of Inr recorded \<Rightarrow> recorded | Inl _ \<Rightarrow> [])"
      by (auto elim!: tryE_cases)
    then have "s' = t" by (auto dest: Mounter_StagedDevicePath_state)
    with p x that show thesis by (cases p) auto
  qed
qed

text \<open>
  The traces of an unstaging after its look at the mount: the unmount, then, if a source is known
  and the path is unmounted, the removal of the device, then its metadata.
\<close>

lemma NodeUnstage_steps:
  assumes mounter: "dr_mounter d = real_mounter os m"
    and run: "Driver_NodeUnstageVolume d req s = (r, s')"
  obtains (refused) "s' = s" "isl r"
  | (unstage) x source t mounted unmount q u where
      "trace t = trace s @ [Ran (findmnt (TrimSpace (nu_staging_target_path req))) x]"
      "isMounted os (TrimSpace (nu_staging_target_path req)) t = (mounted, t)"
      "trace u = trace t @ unmount"
      "unmount_steps (TrimSpace (nu_staging_target_path req)) mounted unmount q"
      "case q of
         Inl e \<Rightarrow> s' = u \<and> isl r
       | Inr _ \<Rightarrow>
           if source = [] then s' = u \<and> r = Inr ()
           else \<exists>p v. Mounter_RemoveDevice os source u = (p, v)
             \<and> (case p of
                  Inl e \<Rightarrow> s' = v \<and> isl r
                | Inr _ \<Rightarrow> \<exists>f. Mounter_ForgetStagedDevice os m (TrimSpace (nu_volume_id req)) v = (f, s')
                             \<and> (r = Inr () \<longleftrightarrow> f = Inr ()))"
proof -
  let ?path = "TrimSpace (nu_staging_target_path req)" and ?id = "TrimSpace (nu_volume_id req)"
  let ?f = "Wrapped ''unstage Morpheus volume: %v'' []"
  let ?g = "\<lambda>source. Wrapped ''remove local Morpheus volume device %q after unstage: %v'' [source]"
  let ?h = "Wrapped ''remove staged Morpheus volume metadata for %q: %v'' [?id]"
  let ?forget = "failing Internal ?h (Mounter_ForgetStagedDevice os m ?id)"
  let ?tail = "\<lambda>source. if source = [] then retE ()
     else bindE (failing Internal (?g source) (Mounter_RemoveDevice os source)) (\<lambda>_. ?forget)"
  let ?rest = "\<lambda>source. bindE (failing Internal ?f (Mounter_Unmount os ?path)) (\<lambda>_. ?tail source)"
  consider (refused) msg where "Driver_NodeUnstageVolume d req = refuse InvalidArgument msg"
    | (goes) "Driver_NodeUnstageVolume d req = bindE (staged_source (real_mounter os m) ?id ?path) ?rest"
    unfolding Driver_NodeUnstageVolume_def Let_def mounter real_mounter_simps
    by (cases "?id = []"; cases "?path = []") (simp_all only: if_True if_False, auto)
  then show thesis
  proof cases
    case refused
    with run that(1) show thesis by auto
  next
    case goes
    from run obtain source t where src: "staged_source (real_mounter os m) ?id ?path s = (Inr source, t)"
      and rest: "?rest source t = (r, s')"
      unfolding goes by (cases rule: bindE_cases) (auto elim!: staged_source_cases)
    from src obtain x where x: "trace t = trace s @ [Ran (findmnt ?path) x]"
      by (auto elim: staged_source_cases)
    obtain q u where q: "Mounter_Unmount os ?path t = (q, u)" by (cases "Mounter_Unmount os ?path t")
    then obtain mounted unmount where un: "isMounted os ?path t = (mounted, t)"
      "trace u = trace t @ unmount" "unmount_steps ?path mounted unmount q" by (rule Mounter_Unmount_steps)
    have "case q of
         Inl e \<Rightarrow> s' = u \<and> isl r
       | Inr _ \<Rightarrow>
           if source = [] then s' = u \<and> r = Inr ()
           else \<exists>p v. Mounter_RemoveDevice os source u = (p, v)
             \<and> (case p of
                  Inl e \<Rightarrow> s' = v \<and> isl r
                | Inr _ \<Rightarrow> \<exists>f. Mounter_ForgetStagedDevice os m ?id v = (f, s')
                             \<and> (r = Inr () \<longleftrightarrow> f = Inr ()))"
    proof (cases q)
      case (Inl e)
      with rest q show ?thesis by (auto simp: failing_def wrap_error_def bindE_eq)
    next
      case (Inr y)
      with rest q have tail: "?tail source u = (r, s')" by (simp add: failing_def wrap_error_def bindE_eq)
      show ?thesis
      proof (cases "source = []")
        case True
        with tail Inr show ?thesis by auto
      next
        case False
        obtain p v where p: "Mounter_RemoveDevice os source u = (p, v)"
          by (cases "Mounter_RemoveDevice os source u")
        show ?thesis
        proof (cases p)
          case (Inl e)
          with tail False p Inr show ?thesis by (auto simp: failing_def wrap_error_def bindE_eq)
        next
          case (Inr z)
          with tail False p have "?forget v = (r, s')" by (simp add: failing_def wrap_error_def bindE_eq)
          then have "\<exists>f. Mounter_ForgetStagedDevice os m ?id v = (f, s') \<and> (r = Inr () \<longleftrightarrow> f = Inr ())"
            by (auto simp: failing_def wrap_error_def split: prod.splits sum.splits)
          with \<open>q = Inr y\<close> Inr False p show ?thesis by auto
        qed
      qed
    qed
    with x un that(2) show thesis by blast
  qed
qed

text \<open>What an unstaging writes after the unmount \<open>u\<close>, that ended in \<open>q\<close>: at most a \<open>delete\<close> file.\<close>

lemma NodeUnstage_writes:
  assumes "case q of
         Inl e \<Rightarrow> s' = u \<and> isl r
       | Inr _ \<Rightarrow>
           if source = [] then s' = u \<and> r = Inr ()
           else \<exists>p v. Mounter_RemoveDevice os source u = (p, v)
             \<and> (case p of
                  Inl e \<Rightarrow> s' = v \<and> isl r
                | Inr _ \<Rightarrow> \<exists>f. Mounter_ForgetStagedDevice os m volumeID v = (f, s')
                             \<and> (r = Inr () \<longleftrightarrow> f = Inr ()))"
  obtains removed where "trace s' = trace u @ removed"
    and "\<And>f d k. Wrote f d k \<in> set removed \<Longrightarrow> q = Inr () \<and>
      (\<exists>name rest. removed = Wrote (delete_path name) (''1'' @ [CHR 0x0A]) k # rest \<and> f = delete_path name
        \<and> (\<forall>f d k. Wrote f d k \<notin> set rest) \<and> (r = Inr () \<longrightarrow> k))"
proof (cases "q = Inr () \<and> source \<noteq> []")
  case False
  with assms that [of "[]"] show thesis by (cases q) auto
next
  case True
  with assms obtain p v where p: "Mounter_RemoveDevice os source u = (p, v)"
    and rest: "case p of Inl e \<Rightarrow> s' = v \<and> isl r
       | Inr _ \<Rightarrow> \<exists>f. Mounter_ForgetStagedDevice os m volumeID v = (f, s')
                    \<and> (r = Inr () \<longleftrightarrow> f = Inr ())"
    by auto
  obtain forget where forget: "trace s' = trace v @ forget" "\<And>f d k. Wrote f d k \<notin> set forget"
    "r = Inr () \<Longrightarrow> p = Inr ()"
  proof (cases p)
    case (Inl e)
    with rest have "s' = v" "r \<noteq> Inr ()" by auto
    with that [of "[]"] show thesis by simp
  next
    case (Inr z)
    with rest obtain f where "Mounter_ForgetStagedDevice os m volumeID v = (f, s')"
      by auto
    then show thesis using Inr that by (auto elim!: Mounter_ForgetStagedDevice_steps)
  qed
  from p show thesis
  proof (cases rule: Mounter_RemoveDevice_steps)
    case quiet
    with forget that [of forget] show thesis by auto
  next
    case (delete name ok' settle)
    with forget have "trace s' = trace u @ Wrote (delete_path name) (''1'' @ [CHR 0x0A]) ok' # settle @ forget"
      by simp
    moreover have "\<forall>f d k. Wrote f d k \<notin> set (settle @ forget)" using delete(5) forget(2) by auto
    ultimately show thesis
      using that [of "Wrote (delete_path name) (''1'' @ [CHR 0x0A]) ok' # settle @ forget"]
        True forget(3) delete(6) by auto
  qed
qed

text \<open>
  C13: in a NodeUnstageVolume call the only file ever written is the \<open>delete\<close> file of a device, and it
  is written only after the staging path was unmounted by a successful \<open>umount\<close> or found not to
  be mounted, and then removed; the call succeeds only if that write did.
\<close>

theorem NodeUnstageVolume_order:
  assumes mounter: "dr_mounter d = real_mounter os m"
    and run: "Driver_NodeUnstageVolume d req s = (r, s')" and evs: "trace s' = trace s @ evs"
    and wrote: "evs = pre @ Wrote file data ok # post"
  shows "\<exists>x y unmounted. pre = Ran (findmnt (TrimSpace (nu_staging_target_path req))) x # unmounted
        @ [Removed (TrimSpace (nu_staging_target_path req)) y]
    \<and> (unmounted = [] \<and> (\<exists>t. trace t = trace s @ [Ran (findmnt (TrimSpace (nu_staging_target_path req))) x]
           \<and> isMounted os (TrimSpace (nu_staging_target_path req)) t = (Inr False, t))
       \<or> (\<exists>out. unmounted = [Ran [''umount'', TrimSpace (nu_staging_target_path req)] (Done out)]))
    \<and> (\<exists>name. file = delete_path name) \<and> (r = Inr () \<longrightarrow> ok)"
  using mounter run
proof (cases rule: NodeUnstage_steps)
  case refused
  with evs wrote show ?thesis by simp
next
  case (unstage x source t mounted unmount q u)
  let ?path = "TrimSpace (nu_staging_target_path req)"
  obtain removed where removed: "trace s' = trace u @ removed"
    and writes: "\<And>f d k. Wrote f d k \<in> set removed \<Longrightarrow> q = Inr () \<and>
      (\<exists>name rest. removed = Wrote (delete_path name) (''1'' @ [CHR 0x0A]) k # rest \<and> f = delete_path name
        \<and> (\<forall>f d k. Wrote f d k \<notin> set rest) \<and> (r = Inr () \<longrightarrow> k))"
    using NodeUnstage_writes [OF unstage(5)] by blast
  have no_write: "Wrote file data ok \<notin> set unmount"
    using unstage(4) by (cases rule: unmount_steps.cases) auto
  let ?first = "Ran (findmnt ?path) x"
  have all: "?first # unmount @ removed = pre @ Wrote file data ok # post"
    using evs wrote unstage(1,3) removed by simp
  then have "Wrote file data ok \<in> set (?first # unmount @ removed)" by simp
  with no_write have in_removed: "Wrote file data ok \<in> set removed" by simp
  with writes obtain name rest where name: "removed = Wrote (delete_path name) (''1'' @ [CHR 0x0A]) ok # rest"
    "file = delete_path name" and no_more: "\<forall>f d k. Wrote f d k \<notin> set rest" and q: "q = Inr ()"
    and ok: "r = Inr () \<longrightarrow> ok" by blast
  have "Wrote file data ok \<notin> set rest" using no_more by blast
  with all no_write have pre: "pre = ?first # unmount"
    unfolding name(1)
    by (auto simp: append_eq_append_conv2 Cons_eq_append_conv append_eq_Cons_conv)
  have finished: "is_done z \<Longrightarrow> \<exists>out. z = Done out" for z by (cases z) auto
  from unstage(4) show ?thesis
    by (cases rule: unmount_steps.cases)
      (use q pre name(2) ok finished unstage(1,2) in \<open>auto\<close>)
qed

definition sim_staged :: "node_sim node_state" where
  "sim_staged = sim_node\<lparr>ext := (ext sim_node)\<lparr>sm_mounts := [(''/dev/sdb'', ''/stg''), (''/dev/sda'', ''/'')]\<rparr>\<rparr>"

definition sim_unstage :: NodeUnstageVolumeRequest where
  "sim_unstage = \<lparr>nu_volume_id = ''12:77'', nu_staging_target_path = ''/stg''\<rparr>"

lemma sim_unstage_parts:
  "case staged_source (real_mounter sim_os sim_mounter) ''12:77'' ''/stg'' sim_staged of
     (q, t) \<Rightarrow> q = Inr ''/dev/sdb'' \<and>
     (case Mounter_Unmount sim_os ''/stg'' t of (q', u) \<Rightarrow> q' = Inr () \<and>
       (case Mounter_RemoveDevice sim_os ''/dev/sdb'' u of (q'', v) \<Rightarrow> q'' = Inr () \<and>
         trace v = [Ran (findmnt ''/stg'') (Done (''/dev/sdb'' @ [CHR 0x0A])), Ran [''umount'', ''/stg''] (Done []),
           Removed ''/stg'' NotExist] @ Wrote ''/sys/block/sdb/device/delete'' (''1'' @ [CHR 0x0A]) True
           # [Ran [''udevadm'', ''settle''] (Done [])]))"
proof -
  have "mountedSource sim_os ''/stg'' sim_staged =
      (Inr ''/dev/sdb'', log_event (Ran (findmnt ''/stg'') (Done (''/dev/sdb'' @ [CHR 0x0A]))) sim_staged)"
    by code_simp
  then have "staged_source (real_mounter sim_os sim_mounter) ''12:77'' ''/stg'' sim_staged =
      (Inr ''/dev/sdb'', log_event (Ran (findmnt ''/stg'') (Done (''/dev/sdb'' @ [CHR 0x0A]))) sim_staged)"
    by (simp add: staged_source_def)
  moreover have "case Mounter_Unmount sim_os ''/stg''
        (log_event (Ran (findmnt ''/stg'') (Done (''/dev/sdb'' @ [CHR 0x0A]))) sim_staged) of
       (q', u) \<Rightarrow> q' = Inr () \<and>
       (case Mounter_RemoveDevice sim_os ''/dev/sdb'' u of (q'', v) \<Rightarrow> q'' = Inr () \<and>
         trace v = [Ran (findmnt ''/stg'') (Done (''/dev/sdb'' @ [CHR 0x0A])), Ran [''umount'', ''/stg''] (Done []),
           Removed ''/stg'' NotExist] @ Wrote ''/sys/block/sdb/device/delete'' (''1'' @ [CHR 0x0A]) True
           # [Ran [''udevadm'', ''settle''] (Done [])])"
    by code_simp
  ultimately show ?thesis by simp
qed

lemma sim_forget: "fst (Mounter_ForgetStagedDevice sim_os m v s) = Inr ()"
  by (simp add: Mounter_ForgetStagedDevice_def remove_file_def sim_os_def sim_remove_def bindE_eq Let_def)

theorem NodeUnstageVolume_order_witness:
  "\<exists>s'. Driver_NodeUnstageVolume sim_node_driver sim_unstage sim_staged = (Inr (), s')
     \<and> (\<exists>name. ''/sys/block/sdb/device/delete'' = delete_path name)"
proof -
  obtain t u v where src: "staged_source (real_mounter sim_os sim_mounter) ''12:77'' ''/stg'' sim_staged = (Inr ''/dev/sdb'', t)"
    and un: "Mounter_Unmount sim_os ''/stg'' t = (Inr (), u)"
    and rm: "Mounter_RemoveDevice sim_os ''/dev/sdb'' u = (Inr (), v)"
    and trace: "trace v = [Ran (findmnt ''/stg'') (Done (''/dev/sdb'' @ [CHR 0x0A])), Ran [''umount'', ''/stg''] (Done []),
           Removed ''/stg'' NotExist] @ Wrote ''/sys/block/sdb/device/delete'' (''1'' @ [CHR 0x0A]) True
           # [Ran [''udevadm'', ''settle''] (Done [])]"
    using sim_unstage_parts by (auto split: prod.splits)
  obtain s' where forget: "Mounter_ForgetStagedDevice sim_os sim_mounter ''12:77'' v = (Inr (), s')"
    by (metis sim_forget prod.collapse)
  then obtain rest where rest: "trace s' = trace v @ rest"
    using Mounter_ForgetStagedDevice_steps by metis
  have mounter: "dr_mounter sim_node_driver = real_mounter sim_os sim_mounter"
    by (simp add: sim_node_driver_def)
  have run: "Driver_NodeUnstageVolume sim_node_driver sim_unstage sim_staged = (Inr (), s')"
    using src un rm forget
    by (simp add: Driver_NodeUnstageVolume_def mounter sim_unstage_def sim_stage_parts failing_def Let_def)
  have "trace sim_staged = []" by (simp add: sim_staged_def sim_node_def)
  with trace rest have "trace s' = trace sim_staged @ ([Ran (findmnt ''/stg'') (Done (''/dev/sdb'' @ [CHR 0x0A])),
        Ran [''umount'', ''/stg''] (Done []), Removed ''/stg'' NotExist]
      @ Wrote ''/sys/block/sdb/device/delete'' (''1'' @ [CHR 0x0A]) True
      # ([Ran [''udevadm'', ''settle''] (Done [])] @ rest))"
    by simp
  from NodeUnstageVolume_order [OF mounter run this refl] run show ?thesis by blast
qed

section \<open>How long staging takes\<close>

lemma at_most_wrap_error: "at_most n m \<Longrightarrow> at_most n (wrap_error f m)"
  unfolding at_most_def wrap_error_def by (simp add: case_prod_unfold split: sum.split)

lemma at_most_wrap: "at_most n m \<Longrightarrow> at_most n (failing code f m)"
  unfolding failing_def by (rule at_most_wrap_error)

lemma at_most_Stage: "at_most 11 (Mounter_Stage os dev path fs ro)"
proof -
  have ask_free: "at_most 0 (isMounted os path)"
    by (rule at_most_emits, rule emitsI) (auto dest: isMounted_state)
  have prepare: "at_most 0 (if ro then retE () else bindE (hasFilesystem os dev)
      (\<lambda>formatted. if formatted then retE () else formatDevice os dev fs))"
    by (rule at_most_emits)
      (auto simp: hasFilesystem_def formatDevice_eq intro!: emits_intros split: exec_result.split option.split)
  have mount: "at_most 0 (run_cmd os cmd)" for cmd
    by (rule at_most_emits) (auto intro!: emits_intros)
  have dir: "at_most 0 (make_dir os path)"
    by (rule at_most_emits, rule emitsI) (auto elim!: make_dir_cases)
  have wait: "at_most 11 (in_operation op (waitForDevice os dev))" for op
    unfolding in_operation_def by (intro at_most_wrap_error at_most_waitForDevice)
  have "at_most (11 + (0 + (0 + (0 + 0)))) (Mounter_Stage os dev path fs ro)"
    unfolding Mounter_Stage_def
    by (intro at_most_bindE wait dir ask_free)
      (use at_most_bindE [OF prepare mount] in \<open>auto split: if_splits\<close>)
  then show ?thesis by simp
qed

text \<open>
  C31: a NodeStageVolume call waits at most 22 times for the discovery interval (five seconds each),
  eleven times to discover a device and eleven times for it to appear.
\<close>

theorem NodeStageVolume_waits_bounded:
  assumes mounter: "dr_mounter d = real_mounter os m"
    and run: "Driver_NodeStageVolume d req s = (r, s')" and evs: "trace s' = trace s @ evs"
  shows "sleeps evs \<le> 22"
proof -
  let ?path = "TrimSpace (ns_staging_target_path req)" and ?id = "TrimSpace (ns_volume_id req)"
  have rescan: "at_most 0 (failing code f (rescanDevices os))" for code f
    by (intro at_most_wrap at_most_emits no_sleep_rescan)
  have find: "at_most 11 (stage_device (real_mounter os m) req)"
    unfolding stage_device_def Let_def by (simp add: at_most_wrap at_most_discovery del: devicePath.simps volumeSizeGiB.simps)
  have rec: "at_most 0 (Mounter_RecordStagedDevice os m ?id dev ?path)" for dev
  proof (rule at_most_emits, rule emitsI)
    fix s r s'
    assume "Mounter_RecordStagedDevice os m ?id dev ?path s = (r, s')"
    then obtain evs where "trace s' = trace s @ evs" "record_steps (stagedDeviceMetadataDir m)
        (stagedDeviceMetadataPath m ?id) evs r" by (rule Mounter_RecordStagedDevice_steps)
    then show "\<exists>es. trace s' = trace s @ es \<and> (\<forall>ev \<in> set es. \<not> is_sleep ev)"
      by (intro exI [of _ evs]) (auto elim!: record_steps.cases)
  qed
  have "at_most (0 + (11 + (11 + 0))) (Driver_NodeStageVolume d req)"
    unfolding Driver_NodeStageVolume_def Let_def mounter real_mounter_simps
    using at_most_bindE [OF rescan at_most_bindE [OF find at_most_bindE
        [OF at_most_wrap [OF at_most_Stage] at_most_wrap [OF rec]]]]
    by (auto simp: refuse_def)
  then have "at_most 22 (Driver_NodeStageVolume d req)" by simp
  then have "\<exists>es. trace (snd (Driver_NodeStageVolume d req s)) = trace s @ es \<and> sleeps es \<le> 22"
    unfolding at_most_def by blast
  with run evs show ?thesis by auto
qed

theorem NodeStageVolume_waits_bounded_witness:
  "\<exists>s' evs. Driver_NodeStageVolume sim_node_driver sim_stage sim_node = (Inr (), s')
     \<and> trace s' = trace sim_node @ evs \<and> sleeps evs \<le> 22"
proof -
  obtain s' post where run: "Driver_NodeStageVolume sim_node_driver sim_stage sim_node = (Inr (), s')"
    by (rule sim_stage_succeeds)
  have mounter: "dr_mounter sim_node_driver = real_mounter sim_os sim_mounter"
    by (simp add: sim_node_driver_def)
  have evs: "trace s' = trace sim_node @ trace s'" by (simp add: sim_node_def)
  from NodeStageVolume_waits_bounded [OF mounter run evs] run evs show ?thesis by blast
qed

text \<open>
  C30: with a context that is not done, the wait for a device is a search: it succeeds exactly when the
  device is there at once or after one of eleven pauses (a wait and a rescan each), in the state
  after the first such pause; otherwise it fails with the device missing after eleven pauses.
\<close>

theorem waitForDevice_is_search:
  assumes "\<And>w. \<not> fst (os_Sleep os w)"
  shows "waitForDevice os dev s =
    (case find (\<lambda>n. present os dev (after_pauses os n s)) [0..<12] of
       Some n \<Rightarrow> (Inr (), after_pauses os n s)
     | None \<Rightarrow> (Inl (EStat dev), after_pauses os 11 s))"
  using assms by (rule waitForDevice_search)

theorem waitForDevice_is_search_witness:
  "waitForDevice sim_os ''/dev/sdb'' sim_node = (Inr (), sim_node)
   \<and> (\<forall>w. \<not> fst (os_Sleep sim_os w))"
proof -
  have awake: "\<not> fst (os_Sleep sim_os w)" for w by (simp add: sim_os_def)
  have "present sim_os ''/dev/sdb'' sim_node" by code_simp
  then have "find (\<lambda>n. present sim_os ''/dev/sdb'' (after_pauses sim_os n sim_node)) [0..<12] = Some 0"
    by (simp add: upt_conv_Cons)
  with waitForDevice_is_search [OF awake, of "''/dev/sdb''" sim_node] awake show ?thesis by simp
qed

section \<open>Refusals\<close>

lemma no_invalid_failing [avoids_intros]: "code \<noteq> InvalidArgument \<Longrightarrow> no_invalid (failing code f m)"
  by (intro avoids_failing) simp

text \<open>
  C32: over any mounter, no node RPC dereferences nil, and one that is answered with
  \<open>InvalidArgument\<close> has not used the mounter: its state is as it was.
\<close>

theorem node_refusals_have_no_effect:
  "no_panic (Driver_NodeStageVolume d stage) \<and> quiet_refusal (Driver_NodeStageVolume d stage)
   \<and> no_panic (Driver_NodeUnstageVolume d unstage) \<and> quiet_refusal (Driver_NodeUnstageVolume d unstage)
   \<and> no_panic (Driver_NodePublishVolume d publish) \<and> quiet_refusal (Driver_NodePublishVolume d publish)
   \<and> no_panic (Driver_NodeUnpublishVolume d unpublish) \<and> quiet_refusal (Driver_NodeUnpublishVolume d unpublish)
   \<and> no_panic (Driver_NodeExpandVolume d expand) \<and> quiet_refusal (Driver_NodeExpandVolume d expand)"
proof -
  have device: "avoids P (stage_device mounter stage)" if "\<And>c. \<not> P (Status FailedPrecondition c)" for P mounter
    unfolding stage_device_def Let_def using that by (intro avoids_if avoids_retE avoids_failing)
  have source: "avoids P (staged_source mounter v p)" for P mounter v p
    unfolding staged_source_def Let_def by (intro avoids_tryE avoids_if avoids_retE)
  have panics: "no_panic (Driver_NodeStageVolume d stage)" "no_panic (Driver_NodeUnstageVolume d unstage)"
    "no_panic (Driver_NodePublishVolume d publish)" "no_panic (Driver_NodeUnpublishVolume d unpublish)"
    "no_panic (Driver_NodeExpandVolume d expand)"
    unfolding Driver_NodeStageVolume_def Driver_NodeUnstageVolume_def Driver_NodePublishVolume_def
      Driver_NodeUnpublishVolume_def Driver_NodeExpandVolume_def Let_def
    by (auto intro!: avoids_intros device source split: sum.split)
  moreover have "quiet_refusal (Driver_NodeStageVolume d stage)" "quiet_refusal (Driver_NodeUnstageVolume d unstage)"
    "quiet_refusal (Driver_NodePublishVolume d publish)" "quiet_refusal (Driver_NodeUnpublishVolume d unpublish)"
    "quiet_refusal (Driver_NodeExpandVolume d expand)"
    unfolding Driver_NodeStageVolume_def Driver_NodeUnstageVolume_def Driver_NodePublishVolume_def
      Driver_NodeUnpublishVolume_def Driver_NodeExpandVolume_def Let_def
    by (auto intro!: quiet_refusal_refuse quiet_refusal_no_invalid avoids_intros device source split: sum.split)
  ultimately show ?thesis by simp
qed

end
