(* ===== verification/Driver_Wiring.thy ===== *)
theory Driver_Wiring
  imports Controller_Backends Real_Mounter
begin

text \<open>
  How the driver is put together and served (\<open>internal/driver/driver.go\<close>): which of its
  interfaces are wired, what it listens on, and which services it registers.
\<close>

section \<open>Construction\<close>

text \<open>
  What the process runs on beside the node's operating system: the transports to Morpheus and
  to Kubernetes with their clocks and files, and the environment.
\<close>

record 'w Platform =
  pf_morpheusDo :: "http_request \<Rightarrow> 'w \<Rightarrow> http_result \<times> 'w"
  pf_ctxWait :: "'w \<Rightarrow> bool \<times> 'w"
  pf_unicodeFold :: "string \<Rightarrow> string \<Rightarrow> bool"
  pf_readCA :: "string \<Rightarrow> ca_file"
  pf_kubeDo :: "http_request \<Rightarrow> 'w \<Rightarrow> http_result \<times> 'w"
  pf_readToken :: "string \<Rightarrow> 'w \<Rightarrow> string option"
  pf_environ :: string_map

type_synonym ('w, 'v) node_driver =
  "('w controller_state, controller_error, 'v node_state, mount_error) Driver"

definition configured_client :: "'w Platform \<Rightarrow> Config \<Rightarrow> 'w Client option" where
  "configured_client pf cfg =
     (if TrimSpace (cfg_MorpheusURL cfg) \<noteq> [] \<and> TrimSpace (cfg_MorpheusToken cfg) \<noteq> []
      then (case NewClientWithTLS (pf_morpheusDo pf) (pf_ctxWait pf) (pf_unicodeFold pf) (pf_readCA pf)
                   (cfg_MorpheusURL cfg) (cfg_MorpheusToken cfg) (cfg_MorpheusCAFile cfg) of
              Inl _ \<Rightarrow> None
            | Inr client \<Rightarrow> Some client)
      else None)"

definition configured_nodes :: "'w Platform \<Rightarrow> Config \<Rightarrow> 'w kubernetesNodeServerResolver option" where
  "configured_nodes pf cfg =
     (case newKubernetesNodeServerResolver (pf_kubeDo pf) (pf_readToken pf) (pf_unicodeFold pf)
             (pf_environ pf) (cfg_NodeServerIDLabel cfg) of
        Inl _ \<Rightarrow> None
      | Inr nodes \<Rightarrow> Some nodes)"

definition default_mounter :: "'v NodeOS \<Rightarrow> Config \<Rightarrow> ('v node_state, mount_error) Mounter" where
  "default_mounter os cfg = real_mounter os (newRealMounter (cfg_KubeletRootPath cfg) (cfg_DriverName cfg))"

definition Driver_New :: "'w Platform \<Rightarrow> 'v NodeOS \<Rightarrow> Config \<Rightarrow> ('w, 'v) node_driver" where
  \<comment> \<open>a client that could not be made leaves both interfaces nil\<close>
  "Driver_New pf os cfg =
     \<lparr>dr_cfg = cfg,
      dr_volumes = map_option client_volumes (configured_client pf cfg),
      dr_discovery = map_option client_discovery (configured_client pf cfg),
      dr_mounter = default_mounter os cfg,
      dr_nodes = map_option resolver_nodes (configured_nodes pf cfg)\<rparr>"

definition NewWithDependenciesAndNodeResolver ::
  "'v NodeOS \<Rightarrow> Config \<Rightarrow> ('s, 'e) ServerVolumeClient option \<Rightarrow>
   ('s, 'e) StorageDiscoveryClient option \<Rightarrow> ('v node_state, mount_error) Mounter option \<Rightarrow>
   ('s, 'e) NodeServerResolver option \<Rightarrow> ('s, 'e, 'v node_state, mount_error) Driver" where
  "NewWithDependenciesAndNodeResolver os cfg volumes discovery mounter nodes =
     \<lparr>dr_cfg = cfg, dr_volumes = volumes, dr_discovery = discovery,
      dr_mounter = (case mounter of None \<Rightarrow> default_mounter os cfg | Some m \<Rightarrow> m),
      dr_nodes = nodes\<rparr>"

definition NewWithDependencies ::
  "'v NodeOS \<Rightarrow> Config \<Rightarrow> ('s, 'e) ServerVolumeClient option \<Rightarrow>
   ('s, 'e) StorageDiscoveryClient option \<Rightarrow> ('v node_state, mount_error) Mounter option \<Rightarrow>
   ('s, 'e, 'v node_state, mount_error) Driver" where
  "NewWithDependencies os cfg volumes discovery mounter =
     NewWithDependenciesAndNodeResolver os cfg volumes discovery mounter None"

section \<open>Serving\<close>

datatype run_error =
    EUnixPathEmpty
  | ESocketDirectory mount_error
  | EStaleSocket string
  | EListenUnix string
  | EListenTCP string
  | EUnsupportedEndpoint string
  | EMode string
  | EServe

type_synonym ('v, 'a) run_io = "('v node_state, run_error, 'a) io"

definition net_listen :: "'v NodeOS \<Rightarrow> string \<Rightarrow> string \<Rightarrow> ('v, bool) run_io" where
  "net_listen os network addr =
     (\<lambda>s. case os_Listen os network addr (ext s) of
            (ok, w) \<Rightarrow> (Inr ok, log_event (Listened network addr ok) (s\<lparr>ext := w\<rparr>)))"

definition grpc_serve :: "'v NodeOS \<Rightarrow> csi_service list \<Rightarrow> ('v, serve_end) run_io" where
  "grpc_serve os services =
     (\<lambda>s. case os_Serve os services (ext s) of
            (r, w) \<Rightarrow> (Inr r, log_event (Served services r) (s\<lparr>ext := w\<rparr>)))"

text \<open>The listener is the path its cleanup removes, none for TCP.\<close>

definition listen :: "'v NodeOS \<Rightarrow> string \<Rightarrow> ('v, string option) run_io" where
  "listen os endpoint =
     (if HasPrefix endpoint ''unix://'' then
        let path = TrimPrefix endpoint ''unix://'' in
        if path = [] then throwE EUnixPathEmpty
        else
          bindE (wrap_error ESocketDirectory (make_dir os (Dir path))) (\<lambda>_.
          tryE (remove_file os path) (\<lambda>removed.
            if removed = Inr Failed then throwE (EStaleSocket path)
            else
              bindE (net_listen os ''unix'' path) (\<lambda>ok.
                if ok then retE (Some path) else throwE (EListenUnix path))))
      else if HasPrefix endpoint ''tcp://'' then
        let addr = TrimPrefix endpoint ''tcp://'' in
        bindE (net_listen os ''tcp'' addr) (\<lambda>ok. if ok then retE None else throwE (EListenTCP addr))
      else throwE (EUnsupportedEndpoint endpoint))"

definition registered :: "string \<Rightarrow> csi_service list option" where
  "registered mode =
     (if mode = ModeAll then Some [IdentityService, ControllerService, NodeService]
      else if mode = ModeController then Some [IdentityService, ControllerService]
      else if mode = ModeNode then Some [IdentityService, NodeService]
      else None)"

definition cleanup :: "'v NodeOS \<Rightarrow> string option \<Rightarrow> ('v, unit) run_io" where
  "cleanup os listener =
     (case listener of
        None \<Rightarrow> retE ()
      | Some path \<Rightarrow> tryE (remove_file os path) (\<lambda>_. retE ()))"

definition serve_mode :: "'v NodeOS \<Rightarrow> string \<Rightarrow> ('v, unit) run_io" where
  "serve_mode os mode =
     (case registered mode of
        None \<Rightarrow> throwE (EMode mode)
      | Some services \<Rightarrow>
          bindE (grpc_serve os services) (\<lambda>r. if r = ServeFailed then throwE EServe else retE ()))"

definition Driver_Run ::
  "'v NodeOS \<Rightarrow> ('s, 'e, 'v node_state, mount_error) Driver \<Rightarrow> ('v, unit) run_io" where
  "Driver_Run os d =
     bindE (listen os (cfg_Endpoint (dr_cfg d))) (\<lambda>listener.
       tryE (serve_mode os (cfg_Mode (dr_cfg d))) (\<lambda>r.
         tryE (cleanup os listener) (\<lambda>_. liftE r)))"

text \<open>The whole command: the exit error of \<open>main\<close>, if it gets as far as running.\<close>

datatype main_end = StoppedBefore startup | Ran_to "run_error + unit"

definition main :: "'v NodeOS \<Rightarrow> 'w Platform \<Rightarrow> (string \<times> string) list \<Rightarrow> 'v node_state \<Rightarrow>
    main_end \<times> 'v node_state" where
  "main os pf flags s =
     (case main_startup flags (pf_environ pf) of
        Start cfg \<Rightarrow> (case Driver_Run os (Driver_New pf os cfg) s of (r, s') \<Rightarrow> (Ran_to r, s'))
      | stopped \<Rightarrow> (StoppedBefore stopped, s))"

end
