(* ===== verification/Driver_Startup.thy ===== *)
theory Driver_Startup
  imports Driver_Wiring Controller_Safety Node_Traces Simulated_Node
begin

text \<open>
  From the command line to a served socket: when the controller is usable, that it refuses
  cleanly when it is not, which services each mode serves, and how the socket is kept.
\<close>

section \<open>The controller of a constructed driver\<close>

lemma configured_client_eq:
  "configured_client pf cfg =
     (if TrimSpace (cfg_MorpheusURL cfg) \<noteq> [] \<and> TrimSpace (cfg_MorpheusToken cfg) \<noteq> []
        \<and> (TrimSpace (cfg_MorpheusCAFile cfg) = [] \<or> pf_readCA pf (cfg_MorpheusCAFile cfg) = CACertificates)
      then (case ParseURL (TrimRight_slash (cfg_MorpheusURL cfg)) of
              None \<Rightarrow> None
            | Some u \<Rightarrow>
                if url_Scheme u = [] \<or> url_Host u = [] then None
                else Some \<lparr>cl_basePath = url_Path u, cl_forceQuery = url_ForceQuery u,
                           cl_token = cfg_MorpheusToken cfg,
                           cl_httpDo = pf_morpheusDo pf, cl_ctxWait = pf_ctxWait pf,
                           cl_unicodeFold = pf_unicodeFold pf\<rparr>)
      else None)"
  by (cases "pf_readCA pf (cfg_MorpheusCAFile cfg)")
    (auto simp: configured_client_def NewClientWithTLS_def NewClientWithHTTPClient_def
      split: option.split)

text \<open>What each controller handler does without a client.\<close>

lemma unconfigured_handlers:
  assumes "dr_volumes d = None"
  shows "Driver_CreateVolume d create = not_configured" "Driver_DeleteVolume d volumeID = not_configured"
    "Driver_ControllerPublishVolume d publish = not_configured"
    "Driver_ControllerUnpublishVolume d unpublish = not_configured"
    "Driver_ControllerExpandVolume d expand = not_configured"
  using assms
  by (simp_all add: Driver_CreateVolume_def Driver_DeleteVolume_def Driver_ControllerPublishVolume_def
      Driver_ControllerUnpublishVolume_def Driver_ControllerExpandVolume_def)

lemma configured_handlers:
  assumes volumes: "dr_volumes d = Some (client_volumes c)"
  shows "no_panic (Driver_CreateVolume d create)" "no_panic (Driver_DeleteVolume d volumeID)"
    "no_panic (Driver_ControllerPublishVolume d publish)"
    "no_panic (Driver_ControllerUnpublishVolume d unpublish)"
    "no_panic (Driver_ControllerExpandVolume d expand)"
  using assms
  by (auto intro: backend.create_no_panic morpheus.delete_no_panic morpheus.publish_no_panic
      morpheus.unpublish_no_panic morpheus.expand_no_panic)

text \<open>
  C34: a driver made by \<open>New\<close> from any configuration never dereferences nil in a controller RPC;
  and when the configuration gives no Morpheus client (a blank URL or token, an unreadable CA
  file, a URL without scheme or host) every controller RPC that needs one is answered
  with \<open>Unavailable\<close> and has no effect.
\<close>

theorem New_controller_is_guarded:
  "(let d = Driver_New pf os cfg
    in no_panic (Driver_CreateVolume d create) \<and> no_panic (Driver_DeleteVolume d volumeID)
     \<and> no_panic (Driver_ControllerPublishVolume d publish)
     \<and> no_panic (Driver_ControllerUnpublishVolume d unpublish)
     \<and> no_panic (Driver_ControllerExpandVolume d expand)
     \<and> (configured_client pf cfg = None \<longrightarrow>
          (\<exists>m. \<forall>s. Driver_CreateVolume d create s = (Inl (Status Unavailable m), s)
             \<and> Driver_DeleteVolume d volumeID s = (Inl (Status Unavailable m), s)
             \<and> Driver_ControllerPublishVolume d publish s = (Inl (Status Unavailable m), s)
             \<and> Driver_ControllerUnpublishVolume d unpublish s = (Inl (Status Unavailable m), s)
             \<and> Driver_ControllerExpandVolume d expand s = (Inl (Status Unavailable m), s))))"
proof (cases "configured_client pf cfg")
  case None
  then have "dr_volumes (Driver_New pf os cfg) = None" by (simp add: Driver_New_def)
  then show ?thesis
    by (simp add: unconfigured_handlers Let_def avoids_not_configured)
      (simp add: not_configured_def)
next
  case (Some c)
  then have "dr_volumes (Driver_New pf os cfg) = Some (client_volumes c)"
    by (simp add: Driver_New_def)
  with Some show ?thesis by (simp add: Let_def configured_handlers)
qed

text \<open>
  C35: there is a command line and an environment that pass every check of the configuration in a
  mode with the controller service although no Morpheus client can be made of them: a URL
  without scheme and host is a request URI.
\<close>

definition path_url_env :: string_map where
  "path_url_env = [''MORPHEUS_URL'' \<mapsto> ''/api'', ''MORPHEUS_TOKEN'' \<mapsto> ''t'']"

theorem valid_configuration_may_lack_client:
  "\<exists>cfg. main_startup [] path_url_env = Start cfg \<and> cfg_Mode cfg = ModeAll
     \<and> (\<forall>pf os. dr_volumes (Driver_New pf os cfg) = None)"
proof -
  have "case main_startup [] path_url_env of
      Start cfg \<Rightarrow> cfg_Mode cfg = ModeAll \<and> cfg_MorpheusURL cfg = ''/api'' | _ \<Rightarrow> False"
    by code_simp
  then obtain cfg where cfg: "main_startup [] path_url_env = Start cfg" "cfg_Mode cfg = ModeAll"
    and url: "cfg_MorpheusURL cfg = ''/api''"
    by (auto split: startup.splits)
  have "case ParseURL (TrimRight_slash ''/api'') of Some u \<Rightarrow> url_Scheme u = [] | None \<Rightarrow> False"
    by code_simp
  then obtain u where "ParseURL (TrimRight_slash ''/api'') = Some u" "url_Scheme u = []"
    by (auto split: option.splits)
  then have "configured_client pf cfg = None" for pf :: "'a Platform"
    by (simp add: configured_client_eq url)
  with cfg show ?thesis by (auto simp: Driver_New_def)
qed

section \<open>Serving\<close>

lemma net_listen_cases:
  assumes "net_listen os network addr s = (r, s')"
  obtains ok where "trace s' = trace s @ [Listened network addr ok]" "r = Inr ok"
  using assms that by (auto simp: net_listen_def split: prod.splits)

lemma grpc_serve_cases:
  assumes "grpc_serve os svcs s = (r, s')"
  obtains e where "trace s' = trace s @ [Served svcs e]" "r = Inr e"
  using assms that by (auto simp: grpc_serve_def split: prod.splits)

lemma serve_mode_cases:
  assumes "serve_mode os mode s = (r, s')"
  obtains (mode) "registered mode = None" "r = Inl (EMode mode)" "s' = s"
  | (served) svcs e where "registered mode = Some svcs" "trace s' = trace s @ [Served svcs e]"
      "r = (if e = ServeFailed then Inl EServe else Inr ())"
proof (cases "registered mode")
  case None
  with assms that show ?thesis by (simp add: serve_mode_def)
next
  case (Some svcs)
  with assms have "bindE (grpc_serve os svcs) (\<lambda>r. if r = ServeFailed then throwE EServe else retE ()) s
      = (r, s')" by (simp add: serve_mode_def)
  then obtain e where "trace s' = trace s @ [Served svcs e]"
    "r = (if e = ServeFailed then Inl EServe else Inr ())"
    by (cases rule: bindE_cases) (auto elim!: grpc_serve_cases split: if_splits)
  with Some that show ?thesis by blast
qed

text \<open>The traces of \<open>listen\<close>, with its result.\<close>

inductive listens :: "string \<Rightarrow> os_event list \<Rightarrow> run_error + string option \<Rightarrow> bool" where
  no_path: "listens ''unix://'' [] (Inl EUnixPathEmpty)"
| no_dir: "path \<noteq> [] \<Longrightarrow>
    listens (''unix://'' @ path) [MadeDir (Dir path) False] (Inl (ESocketDirectory (EMkdirAll (Dir path))))"
| stale: "path \<noteq> [] \<Longrightarrow>
    listens (''unix://'' @ path) [MadeDir (Dir path) True, Removed path Failed] (Inl (EStaleSocket path))"
| unix: "path \<noteq> [] \<Longrightarrow> x \<noteq> Failed \<Longrightarrow>
    listens (''unix://'' @ path) [MadeDir (Dir path) True, Removed path x, Listened ''unix'' path ok]
      (if ok then Inr (Some path) else Inl (EListenUnix path))"
| tcp: "listens (''tcp://'' @ addr) [Listened ''tcp'' addr ok] (if ok then Inr None else Inl (EListenTCP addr))"
| unsupported: "\<not> HasPrefix endpoint ''unix://'' \<Longrightarrow> \<not> HasPrefix endpoint ''tcp://'' \<Longrightarrow>
    listens endpoint [] (Inl (EUnsupportedEndpoint endpoint))"

lemma HasPrefix_append: "HasPrefix s p \<longleftrightarrow> (\<exists>t. s = p @ t)"
  by (auto simp: HasPrefix_def prefix_def)

lemma TrimPrefix_append: "TrimPrefix (p @ t) p = t"
  by (simp add: TrimPrefix_def)

lemma TrimPrefix_self [simp]: "TrimPrefix p p = []"
  using TrimPrefix_append [of p "[]"] by simp

lemma listen_unix_cases:
  assumes "listen os (''unix://'' @ path) s = (r, s')"
  obtains evs where "trace s' = trace s @ evs" "listens (''unix://'' @ path) evs r"
proof (cases "path = []")
  case True
  with assms that listens.no_path show ?thesis by (auto simp: listen_def HasPrefix_def Let_def)
next
  case False
  with assms have "bindE (wrap_error ESocketDirectory (make_dir os (Dir path))) (\<lambda>_.
      tryE (remove_file os path) (\<lambda>removed.
        if removed = Inr Failed then throwE (EStaleSocket path)
        else bindE (net_listen os ''unix'' path) (\<lambda>ok.
          if ok then retE (Some path) else throwE (EListenUnix path)))) s = (r, s')"
    by (simp add: listen_def HasPrefix_append TrimPrefix_append Let_def del: append.simps)
  then show ?thesis
  proof (cases rule: bindE_cases)
    case (fails e)
    then obtain e' where "make_dir os (Dir path) s = (Inl e', s')" "r = Inl (ESocketDirectory e')"
      by (auto simp: wrap_error_Inl)
    then show ?thesis
      using that listens.no_dir [OF False] by (auto elim!: make_dir_cases split: if_splits)
  next
    case (goes_on u t)
    then have dir: "trace t = trace s @ [MadeDir (Dir path) True]"
      by (auto simp: wrap_error_Inr elim!: make_dir_cases split: if_splits)
    from goes_on(2) obtain q t' where "remove_file os path t = (q, t')"
      and rest: "(if q = Inr Failed then throwE (EStaleSocket path)
        else bindE (net_listen os ''unix'' path) (\<lambda>ok.
          if ok then retE (Some path) else throwE (EListenUnix path))) t' = (r, s')"
      by (rule tryE_cases)
    then obtain x where x: "trace t' = trace t @ [Removed path x]" "q = Inr x"
      by (auto elim: remove_file_cases)
    show ?thesis
    proof (cases "x = Failed")
      case True
      with rest x dir that listens.stale [OF False] show ?thesis by auto
    next
      case ok: False
      with rest x have "bindE (net_listen os ''unix'' path) (\<lambda>ok.
          if ok then retE (Some path) else throwE (EListenUnix path)) t' = (r, s')" by simp
      then obtain ok where "trace s' = trace t' @ [Listened ''unix'' path ok]"
        "r = (if ok then Inr (Some path) else Inl (EListenUnix path))"
        by (cases rule: bindE_cases) (auto elim!: net_listen_cases split: if_splits)
      with x dir that listens.unix [OF False ok] show ?thesis by auto
    qed
  qed
qed

lemma listen_cases:
  assumes "listen os endpoint s = (r, s')"
  obtains evs where "trace s' = trace s @ evs" "listens endpoint evs r"
proof (cases "HasPrefix endpoint ''unix://''")
  case True
  then obtain path where "endpoint = ''unix://'' @ path" by (auto simp: HasPrefix_append)
  with assms show ?thesis using that by (blast elim: listen_unix_cases)
next
  case not_unix: False
  show ?thesis
  proof (cases "HasPrefix endpoint ''tcp://''")
    case True
    then obtain addr where addr: "endpoint = ''tcp://'' @ addr" by (auto simp: HasPrefix_append)
    with assms not_unix have "bindE (net_listen os ''tcp'' addr)
        (\<lambda>ok. if ok then retE None else throwE (EListenTCP addr)) s = (r, s')"
      by (simp add: listen_def HasPrefix_append TrimPrefix_append Let_def del: append.simps)
    then obtain ok where "trace s' = trace s @ [Listened ''tcp'' addr ok]"
      "r = (if ok then Inr None else Inl (EListenTCP addr))"
      by (cases rule: bindE_cases) (auto elim!: net_listen_cases split: if_splits)
    then show ?thesis using that listens.tcp unfolding addr by blast
  next
    case False
    with not_unix assms that listens.unsupported show ?thesis by (auto simp: listen_def)
  qed
qed

inductive_cases listens_InrE: "listens endpoint evs (Inr listener)"

text \<open>A run: the trace of \<open>listen\<close>, then at most one serving, then the cleanup of the listener.\<close>

lemma Driver_Run_cases:
  assumes "Driver_Run os d s = (r, s')"
  obtains (fails) evs e where "trace s' = trace s @ evs" "listens (cfg_Endpoint (dr_cfg d)) evs (Inl e)"
      "r = Inl e"
  | (runs) evs listener served clean where "listens (cfg_Endpoint (dr_cfg d)) evs (Inr listener)"
      "trace s' = trace s @ evs @ served @ clean"
      "registered (cfg_Mode (dr_cfg d)) = None \<and> served = [] \<and> r = Inl (EMode (cfg_Mode (dr_cfg d)))
       \<or> (\<exists>svcs e. registered (cfg_Mode (dr_cfg d)) = Some svcs \<and> served = [Served svcs e]
            \<and> r = (if e = ServeFailed then Inl EServe else Inr ()))"
      "case listener of None \<Rightarrow> clean = [] | Some path \<Rightarrow> \<exists>x. clean = [Removed path x]"
  using assms unfolding Driver_Run_def
proof (cases rule: bindE_cases)
  case (fails e)
  then obtain evs where "trace s' = trace s @ evs" "listens (cfg_Endpoint (dr_cfg d)) evs (Inl e)"
    by (blast elim: listen_cases)
  with that(1) fails show ?thesis by blast
next
  case (goes_on listener t)
  then obtain evs where evs: "trace t = trace s @ evs"
    "listens (cfg_Endpoint (dr_cfg d)) evs (Inr listener)" by (blast elim: listen_cases)
  from goes_on(2) obtain q u where serve: "serve_mode os (cfg_Mode (dr_cfg d)) t = (q, u)"
    and "tryE (cleanup os listener) (\<lambda>_. liftE q) u = (r, s')" by (rule tryE_cases)
  then obtain c v where clean: "cleanup os listener u = (c, v)" and "liftE q v = (r, s')"
    by (auto elim: tryE_cases)
  then have r: "r = q" "v = s'" by simp_all
  obtain clean where cl: "trace s' = trace u @ clean"
    "case listener of None \<Rightarrow> clean = [] | Some path \<Rightarrow> \<exists>x. clean = [Removed path x]"
    using clean r by (cases listener) (auto simp: cleanup_def elim!: tryE_cases remove_file_cases)
  from serve show ?thesis
  proof (cases rule: serve_mode_cases)
    case mode
    then show ?thesis using that(2) [OF evs(2) _ _ cl(2), of "[]"] evs(1) cl(1) r by simp
  next
    case (served svcs e)
    then show ?thesis
      using that(2) [OF evs(2) _ _ cl(2), of "[Served svcs e]"] evs(1) cl(1) r by simp
  qed
qed

text \<open>
  C36: the driver serves at most once, exactly the services of its mode; and a Unix socket that was
  opened was preceded by making its directory and removing a stale socket, in this order, and its
  path is removed again as the last thing, however serving ends.
\<close>

theorem Driver_Run_socket:
  assumes run: "Driver_Run os d s = (r, s')" and evs: "trace s' = trace s @ evs"
  shows "(\<forall>svcs e. Served svcs e \<in> set evs \<longrightarrow>
      registered (cfg_Mode (dr_cfg d)) = Some svcs \<and> (r = Inr () \<longleftrightarrow> e \<noteq> ServeFailed))
    \<and> (\<forall>path. Listened ''unix'' path True \<in> set evs \<longrightarrow>
        cfg_Endpoint (dr_cfg d) = ''unix://'' @ path \<and> path \<noteq> []
      \<and> (\<exists>x served y. x \<noteq> Failed \<and> length served \<le> 1
           \<and> evs = [MadeDir (Dir path) True, Removed path x, Listened ''unix'' path True]
                  @ served @ [Removed path y]))"
  using run
proof (cases rule: Driver_Run_cases)
  case (fails evs' e)
  with evs have "evs' = evs" by simp
  with fails show ?thesis by (auto elim: listens.cases split: if_splits)
next
  case (runs evs' listener served clean)
  with evs have e: "evs = evs' @ served @ clean" by simp
  from runs(1) show ?thesis
    by (cases rule: listens_InrE) (use runs e in \<open>auto split: option.splits if_splits\<close>)
qed

definition sim_driver_on :: "Config \<Rightarrow> (unit, unit, node_sim node_state, mount_error) Driver" where
  "sim_driver_on cfg = NewWithDependencies sim_os cfg None None None"

definition sim_config :: Config where
  "sim_config = Default\<lparr>cfg_Mode := ModeNode, cfg_NodeID := ''n1''\<rparr>"

lemma sim_run:
  "case Driver_Run sim_os (sim_driver_on sim_config) sim_node of
     (r, s) \<Rightarrow> r = Inr () \<and> trace s =
       [MadeDir ''/csi'' True, Removed ''/csi/csi.sock'' NotExist, Listened ''unix'' ''/csi/csi.sock'' True,
        Served [IdentityService, NodeService] ContextDone, Removed ''/csi/csi.sock'' NotExist]"
  by code_simp

theorem Driver_Run_socket_witness:
  "\<exists>s' served y x. Driver_Run sim_os (sim_driver_on sim_config) sim_node = (Inr (), s')
     \<and> trace s' = [MadeDir (Dir ''/csi/csi.sock'') True, Removed ''/csi/csi.sock'' x,
         Listened ''unix'' ''/csi/csi.sock'' True] @ served @ [Removed ''/csi/csi.sock'' y]"
proof -
  obtain s' where run: "Driver_Run sim_os (sim_driver_on sim_config) sim_node = (Inr (), s')"
    and trace: "trace s' = [MadeDir ''/csi'' True, Removed ''/csi/csi.sock'' NotExist,
        Listened ''unix'' ''/csi/csi.sock'' True, Served [IdentityService, NodeService] ContextDone,
        Removed ''/csi/csi.sock'' NotExist]"
    using sim_run by (auto split: prod.splits)
  have evs: "trace s' = trace sim_node @ trace s'" by (simp add: sim_node_def)
  have "Listened ''unix'' ''/csi/csi.sock'' True \<in> set (trace s')" by (simp add: trace)
  with Driver_Run_socket [OF run evs] run show ?thesis by blast
qed

section \<open>The command\<close>

text \<open>
  C37: when the command gets as far as running the driver, its mode is one it knows; the identity
  service is always among the services it serves, the controller service exactly in the modes
  \<open>all\<close> and \<open>controller\<close>, for which the environment has given a token and a URL that parses, and
  the node service exactly in the modes \<open>all\<close> and \<open>node\<close>.
\<close>

theorem main_serves_its_mode:
  assumes run: "main os pf flags s = (Ran_to r, s')" and evs: "trace s' = trace s @ evs"
  shows "\<exists>cfg. main_startup flags (pf_environ pf) = Start cfg
    \<and> cfg_Mode cfg \<in> {ModeAll, ModeController, ModeNode} \<and> r \<noteq> Inl (EMode (cfg_Mode cfg))
    \<and> (\<forall>svcs e. Served svcs e \<in> set evs \<longrightarrow>
        IdentityService \<in> set svcs
      \<and> (NodeService \<in> set svcs \<longleftrightarrow> cfg_Mode cfg \<noteq> ModeController)
      \<and> (ControllerService \<in> set svcs \<longleftrightarrow> cfg_Mode cfg \<noteq> ModeNode)
      \<and> (ControllerService \<in> set svcs \<longrightarrow>
           TrimSpace (map_get (pf_environ pf) ''MORPHEUS_TOKEN'') \<noteq> []
         \<and> ParseRequestURI (map_get (pf_environ pf) ''MORPHEUS_URL'') \<noteq> None))"
proof -
  from run obtain cfg where start: "main_startup flags (pf_environ pf) = Start cfg"
    and run': "Driver_Run os (Driver_New pf os cfg) s = (r, s')"
    by (auto simp: main_def split: startup.splits prod.splits)
  from start obtain c where cfg: "cfg = from_env (pf_environ pf) c" and valid: "Config_Validate cfg = Inr ()"
    by (auto simp: main_startup_def Let_def split: option.splits sum.splits)
  have mode: "cfg_Mode cfg \<in> {ModeAll, ModeController, ModeNode}"
    using valid by (auto simp: Config_Validate_iff)
  have needs: "cfg_Mode cfg \<noteq> ModeNode \<Longrightarrow> TrimSpace (map_get (pf_environ pf) ''MORPHEUS_TOKEN'') \<noteq> []
      \<and> ParseRequestURI (map_get (pf_environ pf) ''MORPHEUS_URL'') \<noteq> None"
    using valid unfolding Config_Validate_iff cfg by (auto simp: mode_defs)
  have d: "dr_cfg (Driver_New pf os cfg) = cfg" by (simp add: Driver_New_def)
  have known: "registered (cfg_Mode cfg) \<noteq> None" using mode by (auto simp: registered_def)
  from run' show ?thesis
  proof (cases rule: Driver_Run_cases)
    case (fails evs' e)
    with evs have "evs' = evs" by simp
    with fails have "\<forall>svcs e. Served svcs e \<notin> set evs" "e \<noteq> EMode m" for m
      by (auto elim: listens.cases split: if_splits)
    with fails start mode show ?thesis by auto
  next
    case (runs evs' listener served clean)
    with evs d known obtain svcs e where served: "registered (cfg_Mode cfg) = Some svcs" "served = [Served svcs e]"
      and r: "r = (if e = ServeFailed then Inl EServe else Inr ())" and all: "evs = evs' @ served @ clean"
      by auto
    have "\<forall>svcs e. Served svcs e \<notin> set evs'" using runs(1) by (auto elim: listens.cases)
    moreover have "\<forall>svcs e. Served svcs e \<notin> set clean" using runs(4) by (auto split: option.splits)
    ultimately have only: "\<And>svcs' e'. Served svcs' e' \<in> set evs \<Longrightarrow> svcs' = svcs"
      unfolding all served by auto
    have "IdentityService \<in> set svcs \<and> (NodeService \<in> set svcs \<longleftrightarrow> cfg_Mode cfg \<noteq> ModeController)
      \<and> (ControllerService \<in> set svcs \<longleftrightarrow> cfg_Mode cfg \<noteq> ModeNode)"
      using mode served(1) by (auto simp: registered_def mode_defs)
    with start mode r only needs show ?thesis by (intro exI [of _ cfg]) auto
  qed
qed

definition sim_platform :: "unit Platform" where
  "sim_platform =
     \<lparr>pf_morpheusDo = (\<lambda>rq w. (TransportError, w)), pf_ctxWait = (\<lambda>w. (True, w)),
      pf_unicodeFold = (\<lambda>a b. a = b), pf_readCA = (\<lambda>path. CACertificates),
      pf_kubeDo = (\<lambda>rq w. (TransportError, w)), pf_readToken = (\<lambda>path w. None),
      pf_environ = [''MORPHEUS_URL'' \<mapsto> ''https://m'', ''MORPHEUS_TOKEN'' \<mapsto> ''t'']\<rparr>"

lemma sim_main:
  "case main sim_os sim_platform [(''mode'', ''controller'')] sim_node of
     (Ran_to r, s) \<Rightarrow> r = Inr () \<and> Served [IdentityService, ControllerService] ContextDone \<in> set (trace s)
   | _ \<Rightarrow> False"
  by code_simp

theorem main_serves_its_mode_witness:
  "\<exists>cfg. main_startup [(''mode'', ''controller'')] (pf_environ sim_platform) = Start cfg
     \<and> cfg_Mode cfg \<noteq> ModeNode"
proof -
  obtain s' where run: "main sim_os sim_platform [(''mode'', ''controller'')] sim_node = (Ran_to (Inr ()), s')"
    and served: "Served [IdentityService, ControllerService] ContextDone \<in> set (trace s')"
    using sim_main by (auto split: prod.splits main_end.splits)
  have evs: "trace s' = trace sim_node @ trace s'" by (simp add: sim_node_def)
  from main_serves_its_mode [OF run evs] served show ?thesis by fastforce
qed

theorem New_controller_is_guarded_witness:
  "\<exists>m. Driver_DeleteVolume (Driver_New sim_platform sim_os Default) ''12:77'' \<lparr>ext = (), trace = []\<rparr>
     = (Inl (Status Unavailable m), \<lparr>ext = (), trace = []\<rparr>)"
proof -
  have "configured_client sim_platform Default = None" by code_simp
  then show ?thesis
    using New_controller_is_guarded [where pf = sim_platform and os = sim_os and cfg = Default
        and volumeID = "''12:77''" and create = sim_create and publish = undefined
        and unpublish = undefined and expand = undefined]
    by (auto simp: Let_def)
qed

end
