(* ===== verification/Volume_Handover.thy ===== *)
theory Volume_Handover
  imports Controller Node_Service Node_Resolver
begin

text \<open>
  What a volume carries from the controller to the node: the context of its creation, the context
  of its publication, and what staging reads from both. Also the helpers the packages of the
  controller, the node and the client each have a copy of.
\<close>

section \<open>Helpers that exist twice\<close>

lemma dev_trimmed: "trimmed d \<Longrightarrow> trimmed (''/dev/'' @ d)"
proof -
  assume d: "trimmed d"
  have "trimmed ''/dev''" by (rule trimmed_no_space_bytes) code_simp
  from trimmed_append [OF this d slash_not_space] show ?thesis by simp
qed

lemma normalizeDevicePath_trimmed [simp]: "TrimSpace (normalizeDevicePath v) = normalizeDevicePath v"
  by (simp add: normalizeDevicePath_def Let_def TrimSpace_trimmed dev_trimmed del: append.simps)

lemma normalizeDevicePath_idem [simp]:
  "normalizeDevicePath (normalizeDevicePath v) = normalizeDevicePath v"
proof (cases "HasPrefix (normalizeDevicePath v) ''/dev/'' \<or> normalizeDevicePath v = []")
  case True
  then show ?thesis
    unfolding normalizeDevicePath_def [of "normalizeDevicePath v"] normalizeDevicePath_trimmed Let_def
    by auto
next
  case False
  then have "normalizeDevicePath v = TrimSpace v" "\<not> list_ex (HasPrefix (TrimSpace v)) device_prefixes"
    by (auto simp: normalizeDevicePath_def Let_def HasPrefix_def split: if_splits)
  then show ?thesis by (simp add: normalizeDevicePath_def Let_def)
qed

lemma normalizeNodeDevicePath_eq: "normalizeNodeDevicePath = normalizeDevicePath"
  by (rule ext) (unfold normalizeNodeDevicePath_def normalizeDevicePath_def device_prefixes_def, rule refl)

lemma nonblank_idem: "\<forall>v \<in> set vs. v \<noteq> [] \<and> TrimSpace v = v \<Longrightarrow> nonblank vs = vs"
  by (induction vs) (auto simp: nonblank_def)

text \<open>
  C33: the loop of the controller's \<open>uniqueStrings\<close>, which appends to its result, and the loop of the
  client's \<open>uniqueNonEmpty\<close> are the same function as the reference, which trims all values, drops the blank
  ones and keeps each of the rest at its first occurrence; so the client's pass over a list of
  candidates from the controller changes nothing. Nor does the node change a device path that
  the client has normalized.
\<close>

theorem candidate_lists_reference:
  "uniqueStrings vs = rev (remdups (rev (filter (\<lambda>v. v \<noteq> []) (map TrimSpace vs))))
   \<and> uniqueNonEmpty vs = rev (remdups (rev (filter (\<lambda>v. v \<noteq> []) (map TrimSpace vs))))
   \<and> uniqueNonEmpty (uniqueStrings vs) = uniqueStrings vs
   \<and> normalizeNodeDevicePath (normalizeDevicePath path) = normalizeDevicePath path"
proof -
  have client: "uniqueNonEmpty ws = first_occurrences (nonblank ws)" for ws
    by (simp add: uniqueNonEmpty_def unique_loop_eq)
  have "nonblank (uniqueStrings vs) = uniqueStrings vs"
    by (rule nonblank_idem) (auto simp: uniqueStrings_eq dest: nonblank_trimmed)
  then have "uniqueNonEmpty (uniqueStrings vs) = uniqueStrings vs"
    by (simp add: client uniqueStrings_eq first_occurrences_distinct)
  then show ?thesis
    by (simp add: client uniqueStrings_eq first_occurrences_def nonblank_def normalizeNodeDevicePath_eq)
qed

section \<open>From creation to staging\<close>

lemma create_context_get:
  "map_get (create_context k n p v) VolumeContextSizeGiB = FormatInt n"
  "map_get (create_context k n p v) VolumeContextDevicePath = vol_DevicePath v"
  "map_get (create_context k n p v) fstype_key = map_get p fstype_key"
  by (simp_all add: create_context_def Let_def context_key_defs fstype_key_def map_get_def)

lemma publish_context_get:
  "map_get (publish_context k ref c v) VolumeContextSizeGiB = TrimSpace (map_get c VolumeContextSizeGiB)"
  "map_get (publish_context k ref c v) VolumeContextDevicePath = vol_DevicePath v"
  by (simp_all add: publish_context_def Let_def context_key_defs map_get_def)

lemma other_device_keys:
  assumes "key \<in> set (tl device_keys)"
  shows "map_get (create_context k n p v) key = []" "map_get (publish_context k ref c v) key = []"
  using assms
  by (auto simp: create_context_def publish_context_def device_keys_def Let_def context_key_defs
      fstype_key_def map_get_def)

lemma device_in_only_first:
  assumes "\<And>key. key \<in> set (tl device_keys) \<Longrightarrow> map_get m key = []"
  shows "device_in m device_keys =
    (if TrimSpace (map_get m VolumeContextDevicePath) = [] then None
     else Some (normalizeDevicePath (map_get m VolumeContextDevicePath)))"
proof -
  have rest: "device_in m keys = None" if "\<forall>key \<in> set keys. map_get m key = []" for keys
    using that by (induction keys) auto
  have keys: "device_keys = VolumeContextDevicePath # tl device_keys" by (simp add: device_keys_def)
  have "device_in m (tl device_keys) = None" using assms by (intro rest) auto
  then show ?thesis
    by (subst keys) (simp add: normalizeNodeDevicePath_eq normalizeDevicePath_def)
qed

text \<open>
  C15: a volume created with a positive size, published with the context of its creation and then
  staged: the size staging looks for is the size created; the file system is the one of the
  capability, or else of the storage class, or else ext4; and the device is the one the
  attach response named, or else the one the response at creation named, which is staged without
  a discovery even when the volume has since been attached to another server.
\<close>

theorem volume_handover:
  assumes "0 < sint n"
  shows "(let created = create_context k n p v; published = publish_context k' ref created v'
    in volumeSizeGiB [published, created] = n
     \<and> filesystemType cap created =
         firstNonEmptyString [case Option.bind cap GetMount of None \<Rightarrow> [] | Some fs \<Rightarrow> fs,
           map_get p fstype_key, ''ext4'']
     \<and> devicePath [published, created] =
         (if TrimSpace (vol_DevicePath v') \<noteq> [] then normalizeDevicePath (vol_DevicePath v')
          else if TrimSpace (vol_DevicePath v) \<noteq> [] then normalizeDevicePath (vol_DevicePath v)
          else []))"
proof -
  let ?created = "create_context k n p v"
  let ?published = "publish_context k' ref ?created v'"
  have "volumeSizeGiB [?published, ?created] = n"
    using assms by (simp add: publish_context_get create_context_get Let_def)
  moreover have "TrimSpace ''ext4'' = ''ext4''" by code_simp
  then have "filesystemType cap ?created =
         firstNonEmptyString [case Option.bind cap GetMount of None \<Rightarrow> [] | Some fs \<Rightarrow> fs,
           map_get p fstype_key, ''ext4'']"
    by (simp add: filesystemType_def create_context_get [unfolded fstype_key_def] fstype_key_def Let_def)
  moreover have "device_in ?published device_keys = (if TrimSpace (vol_DevicePath v') = [] then None
      else Some (normalizeDevicePath (vol_DevicePath v')))"
    by (subst device_in_only_first) (simp_all add: other_device_keys publish_context_get)
  moreover have "device_in ?created device_keys = (if TrimSpace (vol_DevicePath v) = [] then None
      else Some (normalizeDevicePath (vol_DevicePath v)))"
    by (subst device_in_only_first) (simp_all add: other_device_keys create_context_get)
  ultimately show ?thesis by (simp add: Let_def del: volumeSizeGiB.simps)
qed

theorem volume_handover_witness:
  "\<exists>v v'. vol_DevicePath v = ''/dev/sdb'' \<and> vol_DevicePath v' = []
     \<and> devicePath [publish_context ''13'' \<lparr>ref_ServerID = ''12'', ref_VolumeID = ''77''\<rparr> (create_context ''12'' 5 Map.empty v) v', create_context ''12'' 5 Map.empty v]
         = ''/dev/sdb''
     \<and> volumeSizeGiB [publish_context ''13'' \<lparr>ref_ServerID = ''12'', ref_VolumeID = ''77''\<rparr> (create_context ''12'' 5 Map.empty v) v', create_context ''12'' 5 Map.empty v] = 5"
proof -
  let ?v' = "new_volume \<lparr>rr_Name = ''a'', rr_SizeGiB = 5, rr_StorageClass = Map.empty, rr_VolumeID = []\<rparr>"
  let ?v = "?v'\<lparr>vol_DevicePath := ''/dev/sdb''\<rparr>"
  have "vol_DevicePath ?v' = []" by (simp add: new_volume_def)
  moreover have "TrimSpace ''/dev/sdb'' = ''/dev/sdb''" "normalizeDevicePath ''/dev/sdb'' = ''/dev/sdb''"
    by code_simp+
  moreover have "0 < sint (5 :: int64)" by simp
  ultimately show ?thesis
    using volume_handover [of 5 "''12''" Map.empty ?v "''13''" "\<lparr>ref_ServerID = ''12'', ref_VolumeID = ''77''\<rparr>" ?v']
    by (intro exI [of _ ?v] exI [of _ ?v']) (simp add: Let_def del: volumeSizeGiB.simps devicePath.simps)
qed

end
