(* ===== verification/Server_Locks.thy ===== *)
theory Server_Locks
  imports Client_Sessions Simulated_Morpheus
begin

text \<open>
  What the per-server locks of the client exclude (\<open>lockServer\<close> of \<open>client.go\<close>): goroutines that run
  ensure, delete or expand concurrently, as a step relation over the table of mutexes, the
  mutexes, and the volume arrays of the servers. Each goroutine takes the steps of the
  sequential operations (\<open>plan_session\<close>): lock, read, perhaps one resize request, unlock.
\<close>

section \<open>Goroutines\<close>

text \<open>
  A job is a server id and a plan: \<open>None\<close> when the volumes that were read need no request, or the array
  to send. Of an id the API makes the server \<open>api_server\<close>, and its answer carries the id \<open>api_ID\<close>, to
  which the request goes; of the array that is sent the API keeps \<open>api_store\<close> (volumes sent
  without an id have been given one).
\<close>

record job =
  job_server :: string
  job_plan :: "StorageVolume list \<Rightarrow> StorageVolume list option"

record cloud_api =
  api_server :: "string \<Rightarrow> string"
  api_ID :: "string \<Rightarrow> string"
  api_store :: "StorageVolume list \<Rightarrow> StorageVolume list"

type_synonym cloud = "string \<Rightarrow> StorageVolume list"

definition sends :: "(StorageVolume list \<Rightarrow> 'a plan) \<Rightarrow> StorageVolume list \<Rightarrow> StorageVolume list option" where
  "sends p volumes = (case p volumes of Finish r \<Rightarrow> None | Send next \<Rightarrow> Some next)"

definition ensure_job :: "ResizeVolumeRequest \<Rightarrow> job" where
  "ensure_job req =
     \<lparr>job_server = StorageClassServerID (rr_StorageClass req), job_plan = sends (ensure_plan req)\<rparr>"

definition delete_job :: "VolumeRef \<Rightarrow> job" where
  "delete_job ref = \<lparr>job_server = ref_ServerID ref, job_plan = sends (delete_plan ref)\<rparr>"

definition expand_job :: "ResizeVolumeRequest \<Rightarrow> job" where
  "expand_job req =
     \<lparr>job_server = StorageClassServerID (rr_StorageClass req), job_plan = sends (expand_plan req)\<rparr>"

text \<open>
  Where a goroutine is: not started, holding the mutex of the table, waiting for the mutex of its
  server (an address), holding it, having read the array, about to unlock, done.
\<close>

datatype pc =
    Start
  | Table
  | Waiting nat
  | Holding nat
  | HasRead nat "StorageVolume list"
  | Leaving nat
  | Exited

record locks =
  lk_serverLocksMu :: "nat option"
  lk_serverLocks :: "string \<rightharpoonup> nat"
  lk_mutex :: "nat \<rightharpoonup> nat"
  lk_next :: nat
  lk_pc :: "nat \<Rightarrow> pc"
  lk_cloud :: cloud

definition job_key :: "job \<Rightarrow> string" where
  "job_key j = TrimSpace (job_server j)"

definition read_server :: "cloud_api \<Rightarrow> job \<Rightarrow> string" where
  "read_server api j = api_server api (job_server j)"

definition write_server :: "cloud_api \<Rightarrow> job \<Rightarrow> string" where
  "write_server api j = api_server api (api_ID api (job_server j))"

definition goto :: "nat \<Rightarrow> pc \<Rightarrow> locks \<Rightarrow> locks" where
  "goto g p s = s\<lparr>lk_pc := (lk_pc s)(g := p)\<rparr>"

section \<open>Steps\<close>

text \<open>
  \<open>lock_table\<close> to \<open>acquire\<close> are \<open>lockServer\<close>, \<open>unlock\<close> is the deferred call of what it returns. A lookup
  or a request may fail without effect on the array; a request that took effect although the
  client saw an error is \<open>request\<close> as well. The lookups after a request change nothing and are
  part of \<open>Leaving\<close>.
\<close>

inductive step :: "cloud_api \<Rightarrow> (nat \<Rightarrow> job) \<Rightarrow> locks \<Rightarrow> locks \<Rightarrow> bool"
  for api jobs where
  lock_table: "lk_pc s g = Start \<Longrightarrow> lk_serverLocksMu s = None \<Longrightarrow>
    step api jobs s (goto g Table (s\<lparr>lk_serverLocksMu := Some g\<rparr>))"
| find_mutex: "lk_pc s g = Table \<Longrightarrow> lk_serverLocks s (job_key (jobs g)) = Some a \<Longrightarrow>
    step api jobs s (goto g (Waiting a) (s\<lparr>lk_serverLocksMu := None\<rparr>))"
| new_mutex: "lk_pc s g = Table \<Longrightarrow> lk_serverLocks s (job_key (jobs g)) = None \<Longrightarrow>
    step api jobs s (goto g (Waiting (lk_next s))
      (s\<lparr>lk_serverLocksMu := None, lk_serverLocks := (lk_serverLocks s)(job_key (jobs g) \<mapsto> lk_next s),
         lk_next := Suc (lk_next s)\<rparr>))"
| acquire: "lk_pc s g = Waiting a \<Longrightarrow> lk_mutex s a = None \<Longrightarrow>
    step api jobs s (goto g (Holding a) (s\<lparr>lk_mutex := (lk_mutex s)(a \<mapsto> g)\<rparr>))"
| read: "lk_pc s g = Holding a \<Longrightarrow>
    step api jobs s (goto g (HasRead a (lk_cloud s (read_server api (jobs g)))) s)"
| read_fails: "lk_pc s g = Holding a \<Longrightarrow> step api jobs s (goto g (Leaving a) s)"
| no_request: "lk_pc s g = HasRead a volumes \<Longrightarrow> job_plan (jobs g) volumes = None \<Longrightarrow>
    step api jobs s (goto g (Leaving a) s)"
| request: "lk_pc s g = HasRead a volumes \<Longrightarrow> job_plan (jobs g) volumes = Some next \<Longrightarrow>
    step api jobs s (goto g (Leaving a)
      (s\<lparr>lk_cloud := (lk_cloud s)(write_server api (jobs g) := api_store api next)\<rparr>))"
| request_fails: "lk_pc s g = HasRead a volumes \<Longrightarrow> job_plan (jobs g) volumes = Some next \<Longrightarrow>
    step api jobs s (goto g (Leaving a) s)"
| unlock: "lk_pc s g = Leaving a \<Longrightarrow>
    step api jobs s (goto g Exited (s\<lparr>lk_mutex := (lk_mutex s)(a := None)\<rparr>))"

inductive_cases stepE: "step api jobs s t"

text \<open>At first \<open>n\<close> goroutines are about to start; nothing is locked.\<close>

definition initial :: "nat \<Rightarrow> cloud \<Rightarrow> locks" where
  "initial n c =
     \<lparr>lk_serverLocksMu = None, lk_serverLocks = Map.empty, lk_mutex = Map.empty, lk_next = 0,
      lk_pc = (\<lambda>g. if g < n then Start else Exited), lk_cloud = c\<rparr>"

inductive reachable :: "cloud_api \<Rightarrow> (nat \<Rightarrow> job) \<Rightarrow> nat \<Rightarrow> cloud \<Rightarrow> locks \<Rightarrow> bool"
  for api jobs n c where
  start: "reachable api jobs n c (initial n c)"
| step: "reachable api jobs n c s \<Longrightarrow> step api jobs s t \<Longrightarrow> reachable api jobs n c t"

section \<open>The invariant\<close>

fun pc_addr :: "pc \<Rightarrow> nat option" where
  "pc_addr (Waiting a) = Some a"
| "pc_addr (Holding a) = Some a"
| "pc_addr (HasRead a vs) = Some a"
| "pc_addr (Leaving a) = Some a"
| "pc_addr _ = None"

fun critical :: "pc \<Rightarrow> bool" where
  "critical (Holding a) \<longleftrightarrow> True"
| "critical (HasRead a vs) \<longleftrightarrow> True"
| "critical (Leaving a) \<longleftrightarrow> True"
| "critical _ \<longleftrightarrow> False"

lemma critical_addr: "critical p \<Longrightarrow> \<exists>a. pc_addr p = Some a"
  by (cases p) auto

definition locks_inv :: "(nat \<Rightarrow> job) \<Rightarrow> locks \<Rightarrow> bool" where
  "locks_inv jobs s \<longleftrightarrow>
     (\<forall>g. lk_serverLocksMu s = Some g \<longleftrightarrow> lk_pc s g = Table)
   \<and> (\<forall>k a. lk_serverLocks s k = Some a \<longrightarrow> a < lk_next s)
   \<and> (\<forall>k k' a. lk_serverLocks s k = Some a \<longrightarrow> lk_serverLocks s k' = Some a \<longrightarrow> k = k')
   \<and> (\<forall>g a. pc_addr (lk_pc s g) = Some a \<longrightarrow> lk_serverLocks s (job_key (jobs g)) = Some a)
   \<and> (\<forall>g a. lk_mutex s a = Some g \<longleftrightarrow> critical (lk_pc s g) \<and> pc_addr (lk_pc s g) = Some a)"

text \<open>What a goroutine has read is still there.\<close>

definition reads_current :: "cloud_api \<Rightarrow> (nat \<Rightarrow> job) \<Rightarrow> locks \<Rightarrow> bool" where
  "reads_current api jobs s \<longleftrightarrow>
     (\<forall>g a vs. lk_pc s g = HasRead a vs \<longrightarrow> lk_cloud s (read_server api (jobs g)) = vs)"

text \<open>
  Ids of the same server lock the same mutex, no server goes by two ids; and the id in an answer
  names the server that was asked for.
\<close>

definition one_id_per_server :: "cloud_api \<Rightarrow> (nat \<Rightarrow> job) \<Rightarrow> bool" where
  "one_id_per_server api jobs \<longleftrightarrow>
     (\<forall>g g'. read_server api (jobs g) = read_server api (jobs g')
        \<longrightarrow> job_key (jobs g) = job_key (jobs g'))
   \<and> (\<forall>g. write_server api (jobs g) = read_server api (jobs g))"

lemma goto_simps [simp]:
  "lk_serverLocksMu (goto g p s) = lk_serverLocksMu s" "lk_serverLocks (goto g p s) = lk_serverLocks s"
  "lk_mutex (goto g p s) = lk_mutex s" "lk_next (goto g p s) = lk_next s"
  "lk_cloud (goto g p s) = lk_cloud s" "lk_pc (goto g p s) = (lk_pc s)(g := p)"
  by (simp_all add: goto_def)

lemma initial_inv: "locks_inv jobs (initial n c)"
  by (auto simp: locks_inv_def initial_def)

text \<open>The five parts of the invariant.\<close>

lemma locks_invD:
  assumes "locks_inv jobs s"
  shows "lk_serverLocksMu s = Some g \<longleftrightarrow> lk_pc s g = Table"
    and "lk_serverLocks s k = Some a \<Longrightarrow> a < lk_next s"
    and "lk_serverLocks s k = Some a \<Longrightarrow> lk_serverLocks s k' = Some a \<Longrightarrow> k = k'"
    and "pc_addr (lk_pc s g) = Some a \<Longrightarrow> lk_serverLocks s (job_key (jobs g)) = Some a"
    and "lk_mutex s a = Some g \<longleftrightarrow> critical (lk_pc s g) \<and> pc_addr (lk_pc s g) = Some a"
  using assms unfolding locks_inv_def by blast+

lemma locks_invI:
  assumes "\<And>g. lk_serverLocksMu s = Some g \<longleftrightarrow> lk_pc s g = Table"
    and "\<And>k a. lk_serverLocks s k = Some a \<Longrightarrow> a < lk_next s"
    and "\<And>k k' a. lk_serverLocks s k = Some a \<Longrightarrow> lk_serverLocks s k' = Some a \<Longrightarrow> k = k'"
    and "\<And>g a. pc_addr (lk_pc s g) = Some a \<Longrightarrow> lk_serverLocks s (job_key (jobs g)) = Some a"
    and "\<And>g a. lk_mutex s a = Some g \<longleftrightarrow> critical (lk_pc s g) \<and> pc_addr (lk_pc s g) = Some a"
  shows "locks_inv jobs s"
  using assms unfolding locks_inv_def by blast

text \<open>A goroutine that moves on while the table stays as it is.\<close>

lemma inv_update:
  assumes inv: "locks_inv jobs s" and pc: "lk_pc t = (lk_pc s)(g := p)"
    and table: "lk_serverLocks t = lk_serverLocks s" "lk_next t = lk_next s"
    and mu: "lk_serverLocksMu t =
      (if p = Table then Some g else if lk_pc s g = Table then None else lk_serverLocksMu s)"
    and free: "p = Table \<Longrightarrow> lk_serverLocksMu s = None"
    and addr: "\<And>a. pc_addr p = Some a \<Longrightarrow> lk_serverLocks s (job_key (jobs g)) = Some a"
    and mutex: "\<And>a g'. lk_mutex t a = Some g' \<longleftrightarrow>
      (if g' = g then critical p \<and> pc_addr p = Some a else lk_mutex s a = Some g')"
  shows "locks_inv jobs t"
proof (rule locks_invI)
  note D = locks_invD [OF inv]
  show "lk_serverLocksMu t = Some g' \<longleftrightarrow> lk_pc t g' = Table" for g'
    using D(1) [of g'] D(1) [of g] free by (auto simp: mu pc)
  show "lk_serverLocks t k = Some a \<Longrightarrow> a < lk_next t" for k a
    unfolding table by (rule D(2))
  show "lk_serverLocks t k = Some a \<Longrightarrow> lk_serverLocks t k' = Some a \<Longrightarrow> k = k'" for k k' a
    unfolding table by (rule D(3))
  show "pc_addr (lk_pc t g') = Some a \<Longrightarrow> lk_serverLocks t (job_key (jobs g')) = Some a" for g' a
    unfolding table pc using addr D(4) [of g'] by (cases "g' = g") auto
  show "lk_mutex t a = Some g' \<longleftrightarrow> critical (lk_pc t g') \<and> pc_addr (lk_pc t g') = Some a" for g' a
    unfolding mutex pc using D(5) [of a g'] by simp
qed

lemma inv_move:
  assumes inv: "locks_inv jobs s" and p: "pc_addr (lk_pc s g) = Some a" "pc_addr p = Some a"
    "critical (lk_pc s g)" "critical p" "p \<noteq> Table"
  shows "locks_inv jobs (goto g p (s\<lparr>lk_cloud := c\<rparr>))"
proof (rule inv_update [OF inv])
  show "lk_pc (goto g p (s\<lparr>lk_cloud := c\<rparr>)) = (lk_pc s)(g := p)" by simp
qed (use p locks_invD(4,5) [OF inv] in auto)

lemma inv_move_only:
  assumes "locks_inv jobs s" "pc_addr (lk_pc s g) = Some a" "pc_addr p = Some a"
    "critical (lk_pc s g)" "critical p" "p \<noteq> Table"
  shows "locks_inv jobs (goto g p s)"
  using inv_move [OF assms, of "lk_cloud s"] by simp

lemma inv_new_mutex:
  assumes inv: "locks_inv jobs s" and g: "lk_pc s g = Table"
    and absent: "lk_serverLocks s (job_key (jobs g)) = None"
  shows "locks_inv jobs (goto g (Waiting (lk_next s))
      (s\<lparr>lk_serverLocksMu := None, lk_serverLocks := (lk_serverLocks s)(job_key (jobs g) \<mapsto> lk_next s),
         lk_next := Suc (lk_next s)\<rparr>))"
proof (rule locks_invI)
  note D = locks_invD [OF inv]
  let ?t = "goto g (Waiting (lk_next s))
      (s\<lparr>lk_serverLocksMu := None, lk_serverLocks := (lk_serverLocks s)(job_key (jobs g) \<mapsto> lk_next s),
         lk_next := Suc (lk_next s)\<rparr>)"
  show "lk_serverLocksMu ?t = Some g' \<longleftrightarrow> lk_pc ?t g' = Table" for g'
    using D(1) [of g] D(1) [of g'] g by auto
  show "lk_serverLocks ?t k = Some a \<Longrightarrow> a < lk_next ?t" for k a
    using D(2) [of k a] by (auto split: if_splits)
  show "lk_serverLocks ?t k = Some a \<Longrightarrow> lk_serverLocks ?t k' = Some a \<Longrightarrow> k = k'" for k k' a
    using D(2) [of k a] D(2) [of k' a] D(3) [of k a k'] by (auto split: if_splits)
  show "pc_addr (lk_pc ?t g') = Some a \<Longrightarrow> lk_serverLocks ?t (job_key (jobs g')) = Some a" for g' a
    using D(4) [of g' a] absent by (auto split: if_splits)
  show "lk_mutex ?t a = Some g' \<longleftrightarrow> critical (lk_pc ?t g') \<and> pc_addr (lk_pc ?t g') = Some a" for g' a
    using D(5) [of a g'] g by auto
qed

lemma step_inv:
  assumes "step api jobs s t" and inv: "locks_inv jobs s"
  shows "locks_inv jobs t"
  using assms(1)
proof (cases rule: step.cases)
  case (lock_table g)
  show ?thesis
    by (rule inv_update [OF inv, where g = g and p = Table])
      (use lock_table locks_invD(5) [OF inv] in auto)
next
  case (find_mutex g a)
  show ?thesis
    by (rule inv_update [OF inv, where g = g and p = "Waiting a"])
      (use find_mutex locks_invD(5) [OF inv] in auto)
next
  case (new_mutex g)
  with inv_new_mutex [OF inv] show ?thesis by simp
next
  case (acquire g a)
  have own: "lk_mutex s a' \<noteq> Some g" for a'
    using locks_invD(5) [OF inv, of a' g] acquire(2) by simp
  show ?thesis
    by (rule inv_update [OF inv, where g = g and p = "Holding a"])
      (use acquire own locks_invD(4) [OF inv, of g a] in auto)
next
  case (unlock g a)
  have held: "lk_mutex s a = Some g" "a' \<noteq> a \<Longrightarrow> lk_mutex s a' \<noteq> Some g" for a'
    using locks_invD(5) [OF inv, of _ g] unlock(2) by auto
  show ?thesis
    by (rule inv_update [OF inv, where g = g and p = Exited]) (use unlock held in auto)
next
  case (read g a)
  then show ?thesis by (auto intro!: inv_move_only [OF inv, of g a])
next
  case (read_fails g a)
  then show ?thesis by (auto intro!: inv_move_only [OF inv, of g a])
next
  case (no_request g a volumes)
  then show ?thesis by (auto intro!: inv_move_only [OF inv, of g a])
next
  case (request g a volumes "next")
  then show ?thesis by (auto intro!: inv_move [OF inv, of g a])
next
  case (request_fails g a volumes "next")
  then show ?thesis by (auto intro!: inv_move_only [OF inv, of g a])
qed

lemma reachable_inv: "reachable api jobs n c s \<Longrightarrow> locks_inv jobs s"
  by (induction rule: reachable.induct) (auto intro: initial_inv step_inv)

lemma critical_unique:
  assumes "locks_inv jobs s" and "critical (lk_pc s g)" "critical (lk_pc s g')"
    and "job_key (jobs g) = job_key (jobs g')"
  shows "g = g'"
proof -
  from assms obtain a a' where a: "pc_addr (lk_pc s g) = Some a" "pc_addr (lk_pc s g') = Some a'"
    using critical_addr by blast
  with assms have "a = a'" unfolding locks_inv_def by (metis option.inject)
  with assms a show ?thesis unfolding locks_inv_def by (metis option.inject)
qed

lemma step_reads_current:
  assumes "step api jobs s t" and "locks_inv jobs s" and "reads_current api jobs s"
    and one: "one_id_per_server api jobs"
  shows "reads_current api jobs t"
  using assms(1-3)
proof (cases rule: step.cases)
  case (request g a volumes "next")
  have other: "read_server api (jobs g') \<noteq> read_server api (jobs g)"
    if "lk_pc s g' = HasRead a' vs" "g' \<noteq> g" for g' a' vs
  proof
    assume "read_server api (jobs g') = read_server api (jobs g)"
    then have "job_key (jobs g') = job_key (jobs g)" using one unfolding one_id_per_server_def by blast
    moreover have "critical (lk_pc s g')" "critical (lk_pc s g)" using that(1) request(2) by simp_all
    ultimately have "g' = g" using critical_unique [OF assms(2)] by blast
    with that(2) show False by simp
  qed
  show ?thesis
    unfolding reads_current_def
  proof (intro allI impI)
    fix g' a' vs
    assume "lk_pc t g' = HasRead a' vs"
    then have "g' \<noteq> g" "lk_pc s g' = HasRead a' vs" using request(1) by (auto split: if_splits)
    moreover have "write_server api (jobs g) = read_server api (jobs g)"
      using one unfolding one_id_per_server_def by blast
    ultimately show "lk_cloud t (read_server api (jobs g')) = vs"
      using other request(1) assms(3) by (auto simp: reads_current_def)
  qed
qed (auto simp: reads_current_def)

lemma reachable_reads_current:
  assumes "one_id_per_server api jobs" and "reachable api jobs n c s"
  shows "reads_current api jobs s"
  using assms(2)
proof (induction rule: reachable.induct)
  case start
  then show ?case by (auto simp: reads_current_def initial_def split: if_splits)
next
  case (step s t)
  then show ?case using assms(1) reachable_inv step_reads_current by blast
qed

section \<open>Serial runs\<close>

text \<open>The specification: the job alone, its plan made from the array that it replaces.\<close>

definition apply_job :: "cloud_api \<Rightarrow> job \<Rightarrow> cloud \<Rightarrow> cloud" where
  "apply_job api j c =
     (case job_plan j (c (read_server api j)) of
        None \<Rightarrow> c
      | Some next \<Rightarrow> c(read_server api j := api_store api next))"

definition over :: "pc \<Rightarrow> bool" where
  "over p \<longleftrightarrow> p = Exited \<or> (\<exists>a. p = Leaving a)"

definition serial :: "cloud_api \<Rightarrow> (nat \<Rightarrow> job) \<Rightarrow> nat \<Rightarrow> cloud \<Rightarrow> locks \<Rightarrow> nat list \<Rightarrow> bool" where
  "serial api jobs n c s gs \<longleftrightarrow>
     distinct gs \<and> (\<forall>g \<in> set gs. g < n \<and> over (lk_pc s g))
   \<and> lk_cloud s = fold (\<lambda>g. apply_job api (jobs g)) gs c"

lemma step_outcome:
  assumes "step api jobs s t"
  obtains (moves) g p where "lk_pc t = (lk_pc s)(g := p)" "lk_pc s g \<noteq> Exited"
      "over (lk_pc s g) \<longrightarrow> over p" "lk_cloud t = lk_cloud s"
    | (writes) g a volumes "next" where "lk_pc s g = HasRead a volumes"
      "job_plan (jobs g) volumes = Some next" "lk_pc t = (lk_pc s)(g := Leaving a)"
      "lk_cloud t = (lk_cloud s)(write_server api (jobs g) := api_store api next)"
  using assms
proof (cases rule: step.cases)
  case (request g a volumes "next")
  then show ?thesis by (auto intro: that(2))
qed (rule that(1), auto simp: over_def)

lemma exited_beyond:
  assumes "reachable api jobs n c s" shows "n \<le> g \<Longrightarrow> lk_pc s g = Exited"
  using assms
proof (induction rule: reachable.induct)
  case (step s t)
  then show ?case by (auto elim!: step_outcome)
qed (simp add: initial_def)

lemma write_is_job:
  assumes "one_id_per_server api jobs" and "reads_current api jobs s"
    and "lk_pc s g = HasRead a volumes" "job_plan (jobs g) volumes = Some next"
  shows "(lk_cloud s)(write_server api (jobs g) := api_store api next)
    = apply_job api (jobs g) (lk_cloud s)"
  using assms by (simp add: apply_job_def reads_current_def one_id_per_server_def)

lemma serial_step:
  assumes one: "one_id_per_server api jobs" and r: "reachable api jobs n c s"
    and "step api jobs s t" and gs: "serial api jobs n c s gs"
  shows "\<exists>gs'. serial api jobs n c t gs'"
  using assms(3)
proof (cases rule: step_outcome)
  case (moves g p)
  with gs have "serial api jobs n c t gs" by (auto simp: serial_def)
  then show ?thesis ..
next
  case (writes g a volumes "next")
  then have new: "g \<notin> set gs" "g < n"
    using gs exited_beyond [OF r, of g] by (auto simp: serial_def over_def not_le [symmetric])
  note eq = write_is_job [OF one reachable_reads_current [OF one r] writes(1,2)]
  from new gs writes eq have "serial api jobs n c t (gs @ [g])"
    by (auto simp: serial_def over_def)
  then show ?thesis ..
qed

text \<open>
  C3: Concurrent ensures, deletes and expands are serializable: whatever the goroutines have
  done so far, the volume arrays are what some of the goroutines, each at most once and all past
  their request, make of the initial arrays one after the other, each deciding on the array that it
  then replaces. So no operation overwrites what another did to a server, provided that no
  server is addressed by two ids.
\<close>

theorem resizes_are_serial:
  assumes "one_id_per_server api jobs" and "reachable api jobs n c s"
  shows "\<exists>gs. distinct gs \<and> (\<forall>g \<in> set gs. g < n \<and> over (lk_pc s g))
    \<and> lk_cloud s = fold (\<lambda>g. apply_job api (jobs g)) gs c"
proof -
  have "\<exists>gs. serial api jobs n c s gs" using assms(2)
  proof (induction rule: reachable.induct)
    case start
    have "serial api jobs n c (initial n c) []" by (simp add: serial_def initial_def)
    then show ?case ..
  next
    case (step s t)
    then show ?case using serial_step [OF assms(1)] by blast
  qed
  then show ?thesis by (simp add: serial_def)
qed

section \<open>Progress\<close>

fun pc_rank :: "pc \<Rightarrow> nat" where
  "pc_rank Start = 6"
| "pc_rank Table = 5"
| "pc_rank (Waiting a) = 4"
| "pc_rank (Holding a) = 3"
| "pc_rank (HasRead a vs) = 2"
| "pc_rank (Leaving a) = 1"
| "pc_rank Exited = 0"

definition work :: "nat \<Rightarrow> locks \<Rightarrow> nat" where
  "work n s = (\<Sum>g<n. pc_rank (lk_pc s g))"

lemma step_ranks:
  assumes "step api jobs s t"
  obtains g p where "lk_pc t = (lk_pc s)(g := p)" "pc_rank p < pc_rank (lk_pc s g)"
  using assms by (cases rule: step.cases) (auto intro: that)

lemma step_works:
  assumes "step api jobs s t" and "reachable api jobs n c s"
  shows "work n t < work n s"
proof -
  obtain g p where g: "lk_pc t = (lk_pc s)(g := p)" "pc_rank p < pc_rank (lk_pc s g)"
    using assms(1) by (rule step_ranks)
  then have "g < n" using exited_beyond [OF assms(2), of g] by (cases "n \<le> g") auto
  have "(\<Sum>h<n. pc_rank (lk_pc t h)) < (\<Sum>h<n. pc_rank (lk_pc s h))"
    by (rule sum_strict_mono_ex1) (use g \<open>g < n\<close> in auto)
  then show ?thesis by (simp add: work_def)
qed

lemma critical_steps:
  assumes "critical (lk_pc s g)"
  shows "\<exists>t. step api jobs s t"
proof (cases "lk_pc s g")
  case (Holding a)
  then show ?thesis by (blast intro: step.read)
next
  case (HasRead a vs)
  then show ?thesis by (cases "job_plan (jobs g) vs") (blast intro: step.no_request step.request)+
next
  case (Leaving a)
  then show ?thesis by (blast intro: step.unlock)
qed (use assms in simp_all)

lemma not_stuck:
  assumes inv: "locks_inv jobs s" and g: "lk_pc s g \<noteq> Exited"
  shows "\<exists>t. step api jobs s t"
proof (cases "\<exists>g'. lk_pc s g' = Table")
  case True
  then obtain g' where "lk_pc s g' = Table" ..
  then show ?thesis
    by (cases "lk_serverLocks s (job_key (jobs g'))") (blast intro: step.new_mutex step.find_mutex)+
next
  case False
  then have free: "lk_serverLocksMu s = None"
    using locks_invD(1) [OF inv] by (cases "lk_serverLocksMu s") auto
  show ?thesis
  proof (cases "lk_pc s g")
    case Start
    with free show ?thesis by (blast intro: step.lock_table)
  next
    case (Waiting a)
    show ?thesis
    proof (cases "lk_mutex s a")
      case None
      with Waiting show ?thesis by (blast intro: step.acquire)
    next
      case (Some g')
      then have "critical (lk_pc s g')" using locks_invD(5) [OF inv, of a g'] by simp
      then show ?thesis by (rule critical_steps)
    qed
  next
    case (Holding a)
    then show ?thesis by (intro critical_steps [of s g]) simp
  next
    case (HasRead a vs)
    then show ?thesis by (intro critical_steps [of s g]) simp
  next
    case (Leaving a)
    then show ?thesis by (intro critical_steps [of s g]) simp
  qed (use False g in simp_all)
qed

lemma steps_reachable: "(step api jobs ^^ k) (initial n c) s \<Longrightarrow> reachable api jobs n c s"
  by (induction k arbitrary: s) (auto intro: reachable.intros)

lemma steps_work: "(step api jobs ^^ k) (initial n c) s \<Longrightarrow> k + work n s \<le> 6 * n"
proof (induction k arbitrary: s)
  case 0
  then have "s = initial n c" by simp
  then show ?case by (simp add: work_def initial_def)
next
  case (Suc k)
  then obtain u where u: "(step api jobs ^^ k) (initial n c) u" "step api jobs u s" by auto
  with step_works [OF u(2) steps_reachable [OF u(1)]] Suc.IH [OF u(1)] show ?case by simp
qed

text \<open>
  C12: No deadlock: from the start, \<open>n\<close> goroutines make at most \<open>6 * n\<close> steps altogether, and the
  only states in which none of them can step are those in which all have returned, every mutex free.
\<close>

theorem goroutines_return:
  assumes "(step api jobs ^^ k) (initial n c) s"
  shows "k \<le> 6 * n
    \<and> ((\<forall>t. \<not> step api jobs s t) \<longleftrightarrow> (\<forall>g. lk_pc s g = Exited))
    \<and> ((\<forall>g. lk_pc s g = Exited) \<longrightarrow> lk_mutex s = Map.empty \<and> lk_serverLocksMu s = None)"
proof (intro conjI impI)
  have inv: "locks_inv jobs s" using steps_reachable [OF assms] by (rule reachable_inv)
  show "k \<le> 6 * n" using steps_work [OF assms] by simp
  show "(\<forall>t. \<not> step api jobs s t) \<longleftrightarrow> (\<forall>g. lk_pc s g = Exited)"
    using not_stuck [OF inv] by (metis step_ranks not_less_zero pc_rank.simps(7))
  assume out: "\<forall>g. lk_pc s g = Exited"
  show "lk_mutex s = Map.empty"
  proof
    show "lk_mutex s a = None" for a
      using locks_invD(5) [OF inv, of a] out by (cases "lk_mutex s a") auto
  qed
  show "lk_serverLocksMu s = None"
    using locks_invD(1) [OF inv] out by (cases "lk_serverLocksMu s") auto
qed

section \<open>A run\<close>

text \<open>Two deletes on one server of three volumes; the API keeps what it is sent.\<close>

definition demo_api :: cloud_api where
  "demo_api = \<lparr>api_server = (\<lambda>i. i), api_ID = (\<lambda>i. i), api_store = (\<lambda>volumes. volumes)\<rparr>"

definition demo_volume :: "string \<Rightarrow> bool \<Rightarrow> StorageVolume" where
  "demo_volume i root =
     \<lparr>vol_ID = i, vol_Name = ''pvc-'' @ i, vol_SizeGiB = 10, vol_RootVolume = root,
      vol_StorageTypeID = [], vol_DatastoreID = [], vol_ControllerMountPoint = [],
      vol_DevicePath = []\<rparr>"

definition demo_cloud :: cloud where
  "demo_cloud k = [demo_volume ''1'' True, demo_volume ''2'' False, demo_volume ''3'' False]"

definition demo_jobs :: "nat \<Rightarrow> job" where
  "demo_jobs g =
     delete_job \<lparr>ref_ServerID = ''7'', ref_VolumeID = (if g = 0 then ''2'' else ''3'')\<rparr>"

lemma demo_one_id: "one_id_per_server demo_api demo_jobs"
  by (simp add: one_id_per_server_def read_server_def write_server_def demo_api_def demo_jobs_def
      delete_job_def job_key_def)

lemma demo_plans:
  "job_plan (demo_jobs 0) (demo_cloud k) = Some [demo_volume ''1'' True, demo_volume ''3'' False]"
  "job_plan (demo_jobs 0) [demo_volume ''1'' True, demo_volume ''2'' False, demo_volume ''3'' False]
     = Some [demo_volume ''1'' True, demo_volume ''3'' False]"
  by (simp_all add: demo_jobs_def demo_cloud_def delete_job_def sends_def delete_plan_def
      demo_volume_def findVolumeByID_def)

lemma demo_run:
  fixes n :: nat
  assumes "0 < n"
  obtains s t where "reachable demo_api demo_jobs n demo_cloud s"
    and "lk_pc s 0 = HasRead 0 (demo_cloud ''7'')" and "lk_cloud s = demo_cloud"
    and "reachable demo_api demo_jobs n demo_cloud t" and "lk_pc t 0 = Leaving 0"
    and "lk_cloud t = demo_cloud(''7'' := [demo_volume ''1'' True, demo_volume ''3'' False])"
proof -
  let ?r = "reachable demo_api demo_jobs n demo_cloud"
  let ?i = "initial n demo_cloud"
  have srv: "read_server demo_api (demo_jobs 0) = ''7''" "write_server demo_api (demo_jobs 0) = ''7''"
    by (simp_all add: demo_api_def demo_jobs_def delete_job_def read_server_def write_server_def)
  let ?s1 = "goto 0 Table (?i\<lparr>lk_serverLocksMu := Some 0\<rparr>)"
  have r1: "?r ?s1"
    by (rule reachable.step [OF reachable.start step.lock_table]) (simp_all add: initial_def assms)
  let ?s2 = "goto 0 (Waiting 0) (?s1\<lparr>lk_serverLocksMu := None,
    lk_serverLocks := (lk_serverLocks ?s1)(job_key (demo_jobs 0) \<mapsto> 0), lk_next := 1\<rparr>)"
  have r2: "?r ?s2"
    using reachable.step [OF r1 step.new_mutex [of ?s1 0]] by (simp add: initial_def)
  let ?s3 = "goto 0 (Holding 0) (?s2\<lparr>lk_mutex := (lk_mutex ?s2)(0 \<mapsto> 0)\<rparr>)"
  have r3: "?r ?s3"
    by (rule reachable.step [OF r2 step.acquire]) (simp_all add: initial_def)
  let ?s4 = "goto 0 (HasRead 0 (demo_cloud ''7'')) ?s3"
  have r4: "?r ?s4"
    using reachable.step [OF r3 step.read [of ?s3 0 0]] by (simp add: initial_def srv)
  let ?next = "[demo_volume ''1'' True, demo_volume ''3'' False]"
  have r5: "?r (goto 0 (Leaving 0) (?s4\<lparr>lk_cloud := demo_cloud(''7'' := ?next)\<rparr>))"
    using reachable.step [OF r4 step.request [of ?s4 0 0 _ _ ?next]]
    by (simp add: initial_def srv demo_plans, simp add: demo_api_def)
  show ?thesis
    by (rule that [OF r4 _ _ r5]) (simp_all add: initial_def)
qed

text \<open>
  C11: Mutual exclusion: of the goroutines whose server ids are equal up to white space at most one is
  past \<open>lockServer\<close> and has not released its mutex yet, although the mutexes are made on demand.
\<close>

theorem lockServer_excludes:
  assumes "reachable api jobs n c s"
    and "critical (lk_pc s g)" and "critical (lk_pc s g')"
    and "TrimSpace (job_server (jobs g)) = TrimSpace (job_server (jobs g'))"
  shows "g = g'"
  using critical_unique [OF reachable_inv [OF assms(1)] assms(2,3)] assms(4)
  by (simp add: job_key_def)

theorem lockServer_excludes_witness:
  "\<exists>s. reachable demo_api demo_jobs 2 demo_cloud s \<and> critical (lk_pc s 0)
     \<and> (\<forall>g'. critical (lk_pc s g') \<longrightarrow> g' = 0)"
proof -
  obtain s where s: "reachable demo_api demo_jobs 2 demo_cloud s"
    and pc: "lk_pc s 0 = HasRead 0 (demo_cloud ''7'')"
    by (rule demo_run [of 2]) simp
  have "g' = 0" if "critical (lk_pc s g')" for g'
    by (rule lockServer_excludes [OF s that]) (simp_all add: pc demo_jobs_def delete_job_def)
  with s pc show ?thesis by auto
qed

theorem resizes_are_serial_witness:
  "\<exists>(s :: locks) gs. lk_cloud s ''7'' = [demo_volume ''1'' True, demo_volume ''3'' False]
     \<and> set gs \<subseteq> {..<2} \<and> lk_cloud s = fold (\<lambda>g. apply_job demo_api (demo_jobs g)) gs demo_cloud"
proof -
  obtain t where t: "reachable demo_api demo_jobs 2 demo_cloud t"
    and cloud: "lk_cloud t = demo_cloud(''7'' := [demo_volume ''1'' True, demo_volume ''3'' False])"
    by (rule demo_run [of 2]) simp
  obtain gs where "\<forall>g \<in> set gs. g < 2 \<and> over (lk_pc t g)"
    and "lk_cloud t = fold (\<lambda>g. apply_job demo_api (demo_jobs g)) gs demo_cloud"
    using resizes_are_serial [OF demo_one_id t] by blast
  with cloud show ?thesis by (intro exI [of _ t] exI [of _ gs]) auto
qed

theorem goroutines_return_witness:
  "\<exists>t. step demo_api demo_jobs (initial 1 demo_cloud) t"
  using goroutines_return [of 0 demo_api demo_jobs 1 demo_cloud "initial 1 demo_cloud"]
  by (auto simp: initial_def split: if_splits dest: spec [of _ 0])

section \<open>Which requests the locks cover\<close>

text \<open>
  What a call adds to the trace; the events of the lock; a call that, if it does anything, does all of it
  between the lock and the unlock of one server.
\<close>

definition added :: "('w, 'a) client_io \<Rightarrow> ('w, net_event) world \<Rightarrow> net_event list" where
  "added m s = drop (length (trace s)) (trace (snd (m s)))"

fun lock_event :: "net_event \<Rightarrow> bool" where
  "lock_event (Locked k) \<longleftrightarrow> True"
| "lock_event (Unlocked k) \<longleftrightarrow> True"
| "lock_event _ \<longleftrightarrow> False"

definition bracketed :: "string \<Rightarrow> net_event list \<Rightarrow> bool" where
  "bracketed k evs \<longleftrightarrow>
     evs = [] \<or> (\<exists>mid. evs = Locked (TrimSpace k) # mid @ [Unlocked (TrimSpace k)]
                   \<and> (\<forall>ev \<in> set mid. \<not> lock_event ev))"

lemma only_reads_no_lock: "only_reads ev \<Longrightarrow> \<not> lock_event ev"
  by (cases ev) simp_all

lemma plan_session_bracketed:
  assumes "plan_session c k plan r evs" shows "bracketed k evs"
proof -
  from assms obtain res mid where evs: "evs = Locked (TrimSpace k) # Net (server_request c k) res
      # mid @ [Unlocked (TrimSpace k)]"
    and mid: "case state_answer k res of
        Inl e \<Rightarrow> mid = [] \<and> r = Inl e
      | Inr st \<Rightarrow>
          (case plan (st_Volumes st) of
             Finish x \<Rightarrow> mid = [] \<and> r = x
           | Send volumes \<Rightarrow> resize_session c (st_ID st) volumes mid)"
    unfolding plan_session_def by blast
  have "\<forall>ev \<in> set mid. \<not> lock_event ev"
    using mid only_reads_no_lock
    by (auto simp: resize_session_def split: sum.splits plan.splits)
  then show ?thesis
    unfolding bracketed_def evs
    by (intro disjI2 exI [of _ "Net (server_request c k) res # mid"]) auto
qed

lemma bracketed_added:
  assumes "m s = (r, s')" and "trace s' = trace s @ evs" and "plan_session c k plan r' evs"
  shows "bracketed k (added m s)"
  using plan_session_bracketed [OF assms(3)] assms(1,2) by (simp add: added_def)

lemma bracketed_refused: "m s = (r, s) \<Longrightarrow> bracketed k (added m s)"
  by (simp add: added_def bracketed_def)

lemma EnsureVolume_bracketed:
  "bracketed (StorageClassServerID (rr_StorageClass req)) (added (Client_EnsureVolume c req) s)"
proof (cases "validateResizeRequest req")
  case (Inl e)
  then show ?thesis by (intro bracketed_refused) (simp add: Client_EnsureVolume_run_eq)
next
  case (Inr u)
  obtain r s' where run: "Client_EnsureVolume c req s = (r, s')" by (rule prod.exhaust)
  with Inr obtain evs where "trace s' = trace s @ evs"
    and "plan_session c (StorageClassServerID (rr_StorageClass req)) (ensure_plan req) r evs"
    using EnsureVolume_session by fastforce
  with run show ?thesis by (rule bracketed_added)
qed

lemma DeleteVolume_bracketed: "bracketed (ref_ServerID ref) (added (Client_DeleteVolume c ref) s)"
proof (cases "validateRef ref")
  case (Inl e)
  then show ?thesis by (intro bracketed_refused) (simp add: Client_DeleteVolume_run_eq)
next
  case (Inr u)
  obtain r s' where run: "Client_DeleteVolume c ref s = (r, s')" by (rule prod.exhaust)
  with Inr obtain evs where "trace s' = trace s @ evs"
    and "plan_session c (ref_ServerID ref) (delete_plan ref) r evs"
    using DeleteVolume_session by fastforce
  with run show ?thesis by (rule bracketed_added)
qed

lemma ExpandVolume_bracketed:
  "bracketed (StorageClassServerID (rr_StorageClass req)) (added (Client_ExpandVolume c req) s)"
proof (cases "validateResizeRequest req = Inr () \<and> TrimSpace (rr_VolumeID req) \<noteq> []")
  case False
  then have "\<exists>r. Client_ExpandVolume c req s = (r, s)"
    by (auto simp: Client_ExpandVolume_run_eq split: sum.splits)
  then show ?thesis by (auto intro: bracketed_refused)
next
  case True
  obtain r s' where run: "Client_ExpandVolume c req s = (r, s')" by (rule prod.exhaust)
  with True obtain evs where "trace s' = trace s @ evs"
    and "plan_session c (StorageClassServerID (rr_StorageClass req)) (expand_plan req) r evs"
    using ExpandVolume_session by fastforce
  with run show ?thesis by (rule bracketed_added)
qed

lemma emits_unlocked:
  "emits (\<lambda>ev. \<not> lock_event ev) (Client_do c method path query body out)"
  by (auto simp: emits_def Client_do_def Let_def split: prod.splits)

lemma emits_unlocked_reads: "emits only_reads m \<Longrightarrow> emits (\<lambda>ev. \<not> lock_event ev) m"
  by (erule emits_weaken) (rule only_reads_no_lock)

lemmas emits_unlocked_moves [emits_intros] =
  emits_unlocked_reads [OF emits_FindVolume] emits_unlocked_reads [OF emits_poll_attached]

lemma emits_unlocked_DetachVolume [emits_intros]:
  "emits (\<lambda>ev. \<not> lock_event ev) (Client_DetachVolume c ref)"
  unfolding Client_DetachVolume_def by (auto intro!: emits_intros emits_unlocked)

lemma emits_unlocked_attachVolume [emits_intros]:
  "emits (\<lambda>ev. \<not> lock_event ev) (attachVolume c ref)"
  unfolding attachVolume_def by (auto intro!: emits_intros emits_unlocked)

lemma emits_MoveVolume: "emits (\<lambda>ev. \<not> lock_event ev) (Client_MoveVolume c req)"
  unfolding Client_MoveVolume_def Let_def
  by (auto intro!: emits_intros split: prod.splits option.splits)

lemma emits_added:
  assumes "emits (\<lambda>ev. \<not> P ev) m" shows "filter P (added m s) = []"
proof -
  from assms obtain es where "trace (snd (m s)) = trace s @ es" "\<forall>ev \<in> set es. \<not> P ev"
    unfolding emits_def by blast
  then show ?thesis by (simp add: added_def filter_empty_conv)
qed

text \<open>
  C38: Which changes of a server's volumes are made under its lock: whatever Morpheus answers, an ensure,
  a delete and an expand do nothing at all, or everything they do, from the lookup whose answer they
  decide on to the last lookup after the resize request, comes after taking the lock of their
  server and before releasing it, in that bracket only. A move and a detach never touch a lock, so
  that the lookup and the request of a resize may well have an attach or a detach between them.
\<close>

theorem changes_and_locks:
  "bracketed (StorageClassServerID (rr_StorageClass req)) (added (Client_EnsureVolume c req) s)
   \<and> bracketed (StorageClassServerID (rr_StorageClass req)) (added (Client_ExpandVolume c req) s)
   \<and> bracketed (ref_ServerID ref) (added (Client_DeleteVolume c ref) s)
   \<and> filter lock_event (added (Client_MoveVolume c move) s) = []
   \<and> filter lock_event (added (Client_DetachVolume c ref) s) = []"
  using EnsureVolume_bracketed ExpandVolume_bracketed DeleteVolume_bracketed
    emits_added [OF emits_MoveVolume] emits_added [OF emits_unlocked_DetachVolume]
  by (intro conjI)

end
