(* ===== verification/Staged_Records.thy ===== *)
theory Staged_Records
  imports Real_Mounter
begin

text \<open>
  Where the mounter keeps the record of a staged device: the lexical path functions applied to
  the kubelet root, the driver name and the volume id (\<open>stagedDeviceMetadataPath\<close> of \<open>node.go\<close>).
\<close>

section \<open>Cleaned paths\<close>

lemma Split_on_append_general: "Split_on c (s @ c # t) = Split_on c s @ Split_on c t"
  by (induction s) (auto split: list.splits)

lemma Split_on_elements: "p \<in> set (Split_on c s) \<Longrightarrow> c \<notin> set p"
  by (induction s arbitrary: p) (auto split: if_splits list.splits)

lemma Split_on_join_slash:
  "qs \<noteq> [] \<Longrightarrow> \<forall>q \<in> set qs. CHR ''/'' \<notin> set q \<Longrightarrow> Split_on (CHR ''/'') (join_slash qs) = qs"
  by (induction qs rule: join_slash.induct) auto

text \<open>A path element that \<open>Clean\<close> keeps.\<close>

definition element :: "string \<Rightarrow> bool" where
  "element q \<longleftrightarrow> q \<noteq> [] \<and> q \<noteq> ''.'' \<and> CHR ''/'' \<notin> set q"

text \<open>
  What \<open>Clean\<close> collects, the last element first: only a relative path has \<open>..\<close>, and only in front.
\<close>

fun collected :: "bool \<Rightarrow> string list \<Rightarrow> bool" where
  "collected rooted [] \<longleftrightarrow> True"
| "collected rooted (q # qs) \<longleftrightarrow>
     element q \<and> collected rooted qs \<and> (q = ''..'' \<longrightarrow> \<not> rooted \<and> (qs = [] \<or> hd qs = ''..''))"

lemma collected_append: "collected rooted (xs @ ys) \<Longrightarrow> collected rooted ys"
  by (induction xs) auto

lemma collected_elements: "collected rooted qs \<Longrightarrow> q \<in> set qs \<Longrightarrow> element q"
  by (induction qs) auto

lemma clean_parts_collected:
  "collected rooted acc \<Longrightarrow> \<forall>p \<in> set ps. CHR ''/'' \<notin> set p \<Longrightarrow>
     collected rooted (rev (clean_parts rooted acc ps))"
  by (induction rooted acc ps rule: clean_parts.induct) (auto simp: element_def split: list.splits)

lemma clean_parts_id:
  "collected rooted (rev ps @ acc) \<Longrightarrow> clean_parts rooted acc ps = rev acc @ ps"
proof (induction ps arbitrary: acc)
  case (Cons p ps)
  then have "collected rooted (p # acc)" by (auto dest: collected_append)
  moreover from Cons have "clean_parts rooted (p # acc) ps = rev (p # acc) @ ps" by simp
  ultimately show ?case by (auto simp: element_def split: list.splits)
qed simp

lemma clean_parts_snoc:
  "element name \<Longrightarrow> name \<noteq> ''..'' \<Longrightarrow>
     clean_parts rooted acc (ps @ [name]) = clean_parts rooted acc ps @ [name]"
  by (induction rooted acc ps rule: clean_parts.induct) (auto simp: element_def split: list.splits)

lemma join_slash_snoc: "qs \<noteq> [] \<Longrightarrow> join_slash (qs @ [q]) = join_slash qs @ ''/'' @ q"
  by (induction qs rule: join_slash.induct) auto

lemma join_slash_relative:
  "qs \<noteq> [] \<Longrightarrow> \<forall>q \<in> set qs. element q \<Longrightarrow> \<not> HasPrefix (join_slash qs @ s) ''/''"
  by (cases qs rule: join_slash.cases) (auto simp: HasPrefix_def element_def neq_Nil_conv)

text \<open>A path as \<open>Clean\<close> leaves it: another element may be appended to it as text.\<close>

definition clean_dir :: "string \<Rightarrow> bool" where
  "clean_dir d \<longleftrightarrow>
     (\<exists>rooted qs. collected rooted (rev qs) \<and> qs \<noteq> []
        \<and> d = (if rooted then ''/'' else []) @ join_slash qs)"

lemma Clean_below:
  assumes "clean_dir d" and "element name" "name \<noteq> ''..''"
  shows "Clean (d @ ''/'' @ name) = d @ ''/'' @ name"
proof -
  from assms(1) obtain rooted qs where qs: "collected rooted (rev qs)" "qs \<noteq> []"
    and d: "d = (if rooted then ''/'' else []) @ join_slash qs"
    unfolding clean_dir_def by blast
  have el: "\<forall>q \<in> set (qs @ [name]). element q"
    using collected_elements [OF qs(1)] assms(2) by auto
  have parts: "clean_parts rooted [] (qs @ [name]) = qs @ [name]"
    using clean_parts_id [of rooted qs "[]"] qs(1) assms(2,3) by (simp add: clean_parts_snoc)
  have path: "d @ ''/'' @ name = (if rooted then ''/'' else []) @ join_slash (qs @ [name])"
    using qs(2) by (simp add: d join_slash_snoc)
  have split: "Split_on (CHR ''/'') (join_slash (qs @ [name])) = qs @ [name]"
    by (rule Split_on_join_slash) (use el in \<open>auto simp: element_def\<close>)
  show ?thesis
  proof (cases rooted)
    case True
    then have "Split_on (CHR ''/'') (d @ ''/'' @ name) = [] # qs @ [name]"
      using path split by simp
    with True parts path show ?thesis by (simp add: Clean_def HasPrefix_def)
  next
    case False
    then have "\<not> HasPrefix (d @ ''/'' @ name) ''/''"
      using path join_slash_relative [OF _ el, of "[]"] by simp
    with False parts path split show ?thesis by (simp add: Clean_def)
  qed
qed

lemma Clean_clean_dir:
  assumes "element name" and "name \<noteq> ''..''"
  shows "clean_dir (Clean (p @ ''/'' @ name)) \<and> suffix name (Clean (p @ ''/'' @ name))"
proof -
  let ?path = "p @ ''/'' @ name"
  let ?r = "HasPrefix ?path ''/''"
  let ?ps = "Split_on (CHR ''/'') p"
  let ?qs = "clean_parts ?r [] ?ps @ [name]"
  have "Split_on (CHR ''/'') ?path = ?ps @ [name]"
    using assms(1) by (simp add: Split_on_append_general element_def)
  then have qs: "clean_parts ?r [] (Split_on (CHR ''/'') ?path) = ?qs"
    using assms by (simp add: clean_parts_snoc)
  then have c: "Clean ?path = (if ?r then ''/'' else []) @ join_slash ?qs"
    by (cases ?r) (simp_all add: Clean_def Let_def)
  have "\<forall>p' \<in> set ?ps. CHR ''/'' \<notin> set p'" using Split_on_elements by blast
  then have "collected ?r (rev ?qs)"
    using clean_parts_collected [of ?r "[]" ?ps] assms by simp
  with c have "clean_dir (Clean ?path)" unfolding clean_dir_def by blast
  moreover have "suffix name (join_slash ?qs)"
    by (cases "clean_parts ?r [] ?ps = []") (simp_all add: join_slash_snoc suffix_def)
  ultimately show ?thesis using c by (auto simp: suffix_def)
qed

section \<open>The file of a volume\<close>

abbreviation name_chars :: "char set" where
  "name_chars \<equiv> set (alphanumeric @ ''._-'')"

lemma big_endian_bytes: "b \<in> set (big_endian k n) \<Longrightarrow> b < 256"
  by (auto simp: big_endian_def)

lemma hex_digit_chars: "b < 16 \<Longrightarrow> ''0123456789abcdef'' ! b \<in> name_chars"
proof -
  assume "b < 16"
  then have "''0123456789abcdef'' ! b \<in> set ''0123456789abcdef''" by (intro nth_mem) simp
  moreover have "set ''0123456789abcdef'' \<subseteq> name_chars" by (simp add: alphanumeric_def)
  ultimately show ?thesis by (rule set_mp [rotated])
qed

lemma EncodeToString_chars: "\<forall>b \<in> set bs. b < 256 \<Longrightarrow> set (EncodeToString bs) \<subseteq> name_chars"
proof
  fix c
  assume bs: "\<forall>b \<in> set bs. b < 256" and "c \<in> set (EncodeToString bs)"
  then obtain b where "b \<in> set bs"
    and c: "c = ''0123456789abcdef'' ! (b div 16) \<or> c = ''0123456789abcdef'' ! (b mod 16)"
    by (auto simp: EncodeToString_def)
  with bs have "b div 16 < 16" "b mod 16 < 16" by auto
  with c hex_digit_chars show "c \<in> name_chars" by blast
qed

lemma Sum256_bytes: "b \<in> set (Sum256 s) \<Longrightarrow> b < 256"
  by (auto simp: Sum256_def Let_def dest: big_endian_bytes)

lemma safe_rune_chars: "set (safe_rune r) \<subseteq> name_chars"
  by (auto simp: safe_rune_def)

lemma take_chars: "set xs \<subseteq> A \<Longrightarrow> set (take k xs) \<subseteq> A"
  by (rule order_trans [OF set_take_subset])

lemma safeVolumeMetadataName_chars: "set (safeVolumeMetadataName v) \<subseteq> name_chars"
proof -
  have "set (take 12 (EncodeToString (Sum256 s))) \<subseteq> name_chars" for s
    by (rule take_chars [OF EncodeToString_chars]) (simp add: Sum256_bytes)
  moreover have "set (if built = [] then ''volume'' else built) \<subseteq> name_chars"
    if "built = concat (map safe_rune rs)" for built rs
  proof (cases "built = []")
    case True
    then show ?thesis by (simp add: alphanumeric_def)
  next
    case False
    moreover have "set built \<subseteq> name_chars"
      unfolding that set_concat set_map by (intro UN_least, elim imageE) (simp only: safe_rune_chars)
    ultimately show ?thesis by simp
  qed
  moreover have "set ''-'' \<subseteq> name_chars" by (simp add: alphanumeric_def)
  ultimately show ?thesis
    unfolding safeVolumeMetadataName_def Let_def set_append [of _ "_ @ _"] set_append [of "''-''"]
    by (intro Un_least) blast+
qed

text \<open>The directory is cleaned text that ends in \<open>/volumes\<close>, the root being nonempty.\<close>

lemma metadata_dir:
  obtains p where "stagedDeviceMetadataDir m = Clean (p @ ''/'' @ ''volumes'')"
proof -
  define root where
    "root = (if TrimSpace (rm_kubeletRootPath m) = [] then ''/var/lib/kubelet''
             else TrimSpace (rm_kubeletRootPath m))"
  then have "root \<noteq> []" by simp
  then obtain c cs where "root = c # cs" by (cases root) auto
  moreover define name where
    "name = (if TrimSpace (rm_driverName m) = [] then ''csi.morpheusdata.com''
             else TrimSpace (rm_driverName m))"
  ultimately have "stagedDeviceMetadataDir m = Clean ((root @ ''/plugins/'' @ name) @ ''/'' @ ''volumes'')"
    by (simp add: stagedDeviceMetadataDir_def Let_def root_def [symmetric] name_def [symmetric] Join_def)
  then show ?thesis by (rule that)
qed

text \<open>
  C40: The record of a staged device is a file directly in the driver's directory of the kubelet root,
  for every volume id (one with slashes or dots included): its path is that directory, a
  slash and a name of letters, digits, dots, underscores and dashes that ends in \<open>.json\<close>; the
  directory is a cleaned path that ends in \<open>volumes\<close> whatever the driver's name.
\<close>

theorem stagedDeviceMetadataPath_in_dir:
  "stagedDeviceMetadataPath m volumeID
     = stagedDeviceMetadataDir m @ ''/'' @ safeVolumeMetadataName volumeID @ ''.json''
   \<and> set (safeVolumeMetadataName volumeID) \<subseteq> set (alphanumeric @ ''._-'')
   \<and> clean_dir (stagedDeviceMetadataDir m) \<and> suffix ''volumes'' (stagedDeviceMetadataDir m)"
proof -
  let ?file = "safeVolumeMetadataName volumeID @ ''.json''"
  let ?d = "stagedDeviceMetadataDir m"
  have "CHR ''/'' \<notin> name_chars" by (simp add: alphanumeric_def)
  then have "CHR ''/'' \<notin> set ?file" using safeVolumeMetadataName_chars [of volumeID] by auto
  moreover have "3 \<le> length ?file" by simp
  ultimately have "element ?file" "?file \<noteq> ''..''" by (auto simp: element_def)
  moreover obtain p where p: "?d = Clean (p @ ''/'' @ ''volumes'')"
    by (rule metadata_dir)
  moreover have d: "clean_dir ?d \<and> suffix ''volumes'' ?d"
    unfolding p by (rule Clean_clean_dir) (simp_all add: element_def)
  ultimately have "Clean (?d @ ''/'' @ ?file) = ?d @ ''/'' @ ?file"
    by (intro Clean_below) auto
  then have "stagedDeviceMetadataPath m volumeID = ?d @ ''/'' @ ?file"
    using d by (auto simp: stagedDeviceMetadataPath_def Join_def)
  with d safeVolumeMetadataName_chars show ?thesis by blast
qed

end
