(* ===== verification/Spec2Isabelle.thy ===== *)
theory Spec2Isabelle
  imports Controller_Safety Volume_Payload Node_Lifecycle Driver_Startup Volume_Handover
    Server_Locks Staged_Records
begin

text \<open>
  A CSI driver that gives Kubernetes pods disks of Morpheus servers (VMs): models of its Go code
  under \<open>src/internal\<close> and \<open>src/cmd/morpheus-csi\<close>, and what has been proved of them.

  \<^bold>\<open>The program.\<close> The command (\<open>main.go\<close>, \<open>config.go\<close>) builds a configuration from flags and
  environment and runs a driver (\<open>driver.go\<close>), which serves gRPC services on a socket: identity
  (\<open>identity.go\<close>), controller (\<open>controller.go\<close>) and node (\<open>node.go\<close>), depending on its mode. The
  controller creates, deletes, grows and moves volumes through a client of the Morpheus HTTP API
  (\<open>client.go\<close>) and finds the server of a Kubernetes node by a label (\<open>node_resolver.go\<close>) or by
  name. The API has no operation on one volume of a server: a resize request replaces the
  server's whole volume array, so each of create, delete and grow reads the array, changes it and
  sends it back, under a lock per server. The node service finds the block device of a
  volume, formats it when it is blank, mounts it, and removes it again, by files of \<open>/sys\<close>, \<open>/dev\<close> and
  \<open>/proc\<close> and by commands (\<open>mount_exec.go\<close>). Controller and node meet only in the string maps that
  Kubernetes passes on, the volume and publish contexts.

  \<^bold>\<open>Shape of the models.\<close> A Go function that may fail and has effects is a function of type
  \<open>('s, 'e, 'a) io\<close> (\<open>CSI_Prelude\<close>): from a state to an error or a result, and the next state. The
  state is a \<open>world\<close>: an outside that is a parameter (type \<open>'w\<close>) and the trace of what was
  done to it. The HTTP side of the client (\<open>cl_httpDo\<close>), the operating system of the node
  (\<open>NodeOS\<close>) and the platform of the process (\<open>Platform\<close>) are records of functions on \<open>'w\<close>; nothing is
  assumed of them, so a theorem holds for every server, disk and file system, failures
  included. A Go interface is a record of methods; a nil interface or pointer is \<open>None\<close>, and
  dereferencing \<open>None\<close> is the error value \<open>Panic\<close>. \<open>int64\<close> is \<open>64 word\<close>, \<open>float64\<close> a mantissa and an exponent with
  the rounding of IEEE 754, strings are byte strings, decoded JSON is the datatype \<open>any\<close>.
  Records have the prefix of their Go type on each field (\<open>vol_\<close>, \<open>rr_\<close>, \<open>cl_\<close>, \<open>dr_\<close>, \<open>mt_\<close>, \<open>os_\<close>).

  \<^bold>\<open>The standard library.\<close> \<open>Go_Strings\<close> (\<open>strings\<close>), \<open>Go_Strconv\<close> (\<open>ParseInt\<close>, \<open>FormatInt\<close>, \<open>float64\<close>),
  \<open>Go_Url\<close> and \<open>Go_UrlParse\<close> (\<open>net/url\<close>), \<open>Go_Filepath\<close> (\<open>path/filepath\<close>), \<open>Sha256\<close>
  (\<open>crypto/sha256\<close>).

  \<^bold>\<open>The client.\<close> \<open>Morpheus_Types\<close> has the records of \<open>client.go\<close> and its pure functions: volume
  handles, parameters, readers of decoded JSON, the resize payload, searches in volume lists.
  \<open>Morpheus_Client\<close> has the requests and every method, with the lock's two events in the trace.
  \<open>Client_Runs\<close> has code equations for concrete runs, \<open>Simulated_Morpheus\<close> an API to run on.
  \<open>Client_Facts\<close>, \<open>Client_Sessions\<close>, \<open>Client_Safety\<close> and \<open>Client_Moves\<close> show what the methods may
  send: an ensure keeps every volume just read, a delete drops one that is no root disk, an expand
  grows one, a move detaches before it attaches; a lookup returns the first holder. \<open>Client_Sessions\<close> shows
  that ensure, delete and expand are one locked session around a pure decision, the plan, and
  \<open>Server_Locks\<close> takes these plans as the jobs of concurrent goroutines: a step relation over \<open>lockServer\<close>'s
  table of mutexes, with mutual exclusion, serializability (the specification is one job
  after the other) and the absence of deadlock; of the sequential operations it shows that ensure,
  delete and expand do everything between lock and unlock of their server, and moves nothing.
  \<open>Volume_Payload\<close> shows that a volume survives the way through a resize payload.

  \<^bold>\<open>The controller.\<close> \<open>Driver_Types\<close> has the CSI messages and the driver record, \<open>Controller\<close> every
  handler of \<open>controller.go\<close>, \<open>Capacity\<close> the arithmetic of sizes and the capability check,
  \<open>Node_Resolver\<close> the Kubernetes side. \<open>Driver_Interfaces\<close> states what the handlers rely on as
  locales (\<open>server_volumes\<close>, \<open>storage_discovery\<close>, \<open>morpheus_backend\<close>, \<open>node_servers\<close>) and proves the
  handlers' lemmas from them; \<open>Controller_Backends\<close> interprets them on the client and on the
  resolver; \<open>Controller_Safety\<close> has the resulting properties: no nil dereference, no effect of
  refused requests, what the answer of a create says, what a delete sends.

  \<^bold>\<open>The node.\<close> \<open>Node_OS\<close> is the operating system as the code uses it, \<open>Block_Devices\<close> the candidate devices,
  rescans, the mount table and the commands of \<open>mount_exec.go\<close>, \<open>Real_Mounter\<close> the eleven methods of
  \<open>realMounter\<close>, \<open>Node_Service\<close> the node and identity handlers. \<open>Node_Traces\<close> and \<open>Mounter_Steps\<close> give
  for each operation an inductive relation of the traces it may leave with the result it then has;
  \<open>Device_Discovery\<close> shows which device the discovery may return, \<open>Node_Safety\<close> what may be
  formatted, removed and mounted, \<open>Node_Lifecycle\<close> the order of an unstaging, the bound of the
  waits and the refusals, \<open>Staged_Records\<close> where the record of a staged device is kept.
  \<open>Simulated_Node\<close> is a node to run on.

  \<^bold>\<open>The whole.\<close> \<open>Plugin_Config\<close> and \<open>Driver_Wiring\<close> model configuration, construction, listening and
  serving; \<open>Driver_Startup\<close> shows when the controller is usable, which services a mode serves,
  and how the socket is kept. \<open>Volume_Handover\<close> composes creation, publication and staging: size, file
  system and device that the node reads.

  \<^bold>\<open>Bounds.\<close> There is no fuel. The loops that wait count attempts as the code does: 6 lookups of a volume
  after a resize or an attach (5 pauses), 12 attempts to see a device (11 pauses, in the wait and in
  the discovery), so that all recursions are structural or have a measure.

  \<^bold>\<open>Not modelled.\<close> The debug log; certificate pools and the HTTP transport (which header and target
  are sent is modelled, bytes of bodies and their JSON syntax are not: a body is its decoded
  value; \<open>json_wire\<close> of \<open>Volume_Payload\<close> is the loss of integers beyond 2 to the 53 on the way
  out and back); a failure to build a request from the URL that the constructor has already parsed; the gRPC server, which the model
  parametrises by how serving ends; signals; Unicode case folding beyond ASCII (a parameter,
  \<open>cl_unicodeFold\<close>); deadlines of contexts other than as an outcome of a wait; the JSON text of the
  staged device record (\<open>os_Marshal\<close>, \<open>os_Unmarshal\<close>). Goroutines run in \<open>Server_Locks\<close> only, elsewhere one
  call runs at a time; a request that is applied after the client gave up on it is left out.
\<close>

end
